theory Spec2Isabelle
  imports
    Main
    "HOL-Library.AList"
    "HOL-Library.Char_ord"
    "HOL-Library.List_Lexorder"
    "HOL-Library.Multiset"
begin

section \<open>JSON values and the Python operations the tool applies to them\<close>

text \<open>
  \<^verbatim>\<open>tools/mpp-import-pipeline.py\<close> works on the objects \<^verbatim>\<open>json.load\<close> returns.
  A JSON object is a Python \<^verbatim>\<open>dict\<close>: its keys are strings, they are distinct, and
  they keep their insertion order, which \<^verbatim>\<open>json.dump\<close> writes out. So an object is
  an association list here. \<^verbatim>\<open>null\<close> is Python's \<^verbatim>\<open>None\<close>. Numbers are integers;
  JSON numbers with a fraction or an exponent are outside the model.
\<close>

datatype json =
    JNull
  | JBool bool
  | JInt int
  | JStr string
  | JArr "json list"
  | JObj "(string \<times> json) list"

text \<open>
  The exceptions the tool can raise. \<open>IOFailure\<close> stands for every failure of
  \<^verbatim>\<open>open\<close> and of \<^verbatim>\<open>json.load\<close> on an imported file. \<open>PipelineNotFound pid path\<close>
  is the \<^verbatim>\<open>ValueError(f"Pipeline '{pid}' not found in {path}")\<close> of
  \<^verbatim>\<open>_manifest_process_v2\<close>; it carries the two values the message interpolates.
  \<open>ValueError\<close> is the one \<^verbatim>\<open>dict.update\<close> raises on a sequence whose elements are
  not pairs. \<open>Unmodelled\<close> marks the two places where Python's behaviour is left
  out of the model (see \<open>update_method\<close> and \<open>sort_urls\<close>); \<open>DanglingLink\<close> is
  returned when a link stored in the state does not resolve, which the links
  made by the parsers never do.
\<close>

datatype error =
    KeyError string
  | TypeError
  | AttributeError
  | AssertionError
  | ValueError
  | IOFailure
  | PipelineNotFound json string
  | Unmodelled
  | DanglingLink

text \<open>Truth value of an object, as \<^verbatim>\<open>while current:\<close> and \<^verbatim>\<open>if not target:\<close> test it.\<close>

fun truthy :: "json \<Rightarrow> bool" where
  "truthy JNull = False"
| "truthy (JBool b) = b"
| "truthy (JInt i) = (i \<noteq> 0)"
| "truthy (JStr s) = (s \<noteq> [])"
| "truthy (JArr xs) = (xs \<noteq> [])"
| "truthy (JObj kvs) = (kvs \<noteq> [])"

fun startswith :: "string \<Rightarrow> string \<Rightarrow> bool" where
  "startswith s [] = True"
| "startswith [] (p # ps) = False"
| "startswith (c # cs) (p # ps) = (c = p \<and> startswith cs ps)"

definition endswith :: "string \<Rightarrow> string \<Rightarrow> bool" where
  "endswith s p = startswith (rev s) (rev p)"

fun is_substring :: "string \<Rightarrow> string \<Rightarrow> bool" where
  "is_substring n [] = (n = [])"
| "is_substring n (c # cs) = (startswith (c # cs) n \<or> is_substring n cs)"

text \<open>
  \<^verbatim>\<open>key in x\<close> for a string \<open>key\<close>: key membership on a dict, element membership on
  a list, substring test on a string, \<^verbatim>\<open>TypeError\<close> on \<^verbatim>\<open>None\<close>, booleans and numbers.
\<close>

fun contains :: "string \<Rightarrow> json \<Rightarrow> error + bool" where
  "contains k (JObj kvs) = Inr (k \<in> set (map fst kvs))"
| "contains k (JArr xs) = Inr (JStr k \<in> set xs)"
| "contains k (JStr s) = Inr (is_substring k s)"
| "contains k JNull = Inl TypeError"
| "contains k (JBool b) = Inl TypeError"
| "contains k (JInt i) = Inl TypeError"

text \<open>\<^verbatim>\<open>x[key]\<close> for a string \<open>key\<close>: only a dict can be subscripted by a string.\<close>

fun getitem :: "json \<Rightarrow> string \<Rightarrow> error + json" where
  "getitem (JObj kvs) k = (case map_of kvs k of None \<Rightarrow> Inl (KeyError k) | Some v \<Rightarrow> Inr v)"
| "getitem JNull k = Inl TypeError"
| "getitem (JBool b) k = Inl TypeError"
| "getitem (JInt i) k = Inl TypeError"
| "getitem (JStr s) k = Inl TypeError"
| "getitem (JArr xs) k = Inl TypeError"

text \<open>
  \<^verbatim>\<open>x[key] = v\<close>: a dict keeps the position of a key it already has and appends a
  new key at the end (\<open>AList.update\<close> does exactly this).
\<close>

fun setitem :: "json \<Rightarrow> string \<Rightarrow> json \<Rightarrow> error + json" where
  "setitem (JObj kvs) k v = Inr (JObj (AList.update k v kvs))"
| "setitem JNull k v = Inl TypeError"
| "setitem (JBool b) k v = Inl TypeError"
| "setitem (JInt i) k v = Inl TypeError"
| "setitem (JStr s) k v = Inl TypeError"
| "setitem (JArr xs) k v = Inl TypeError"

text \<open>\<^verbatim>\<open>del x[key]\<close>.\<close>

fun delitem :: "json \<Rightarrow> string \<Rightarrow> error + json" where
  "delitem (JObj kvs) k =
     (if k \<in> set (map fst kvs) then Inr (JObj (AList.delete k kvs)) else Inl (KeyError k))"
| "delitem JNull k = Inl TypeError"
| "delitem (JBool b) k = Inl TypeError"
| "delitem (JInt i) k = Inl TypeError"
| "delitem (JStr s) k = Inl TypeError"
| "delitem (JArr xs) k = Inl TypeError"

text \<open>\<^verbatim>\<open>x.get(key, default)\<close>: only a dict has the method.\<close>

fun get_method :: "json \<Rightarrow> string \<Rightarrow> json \<Rightarrow> error + json" where
  "get_method (JObj kvs) k d = Inr (case map_of kvs k of None \<Rightarrow> d | Some v \<Rightarrow> v)"
| "get_method JNull k d = Inl AttributeError"
| "get_method (JBool b) k d = Inl AttributeError"
| "get_method (JInt i) k d = Inl AttributeError"
| "get_method (JStr s) k d = Inl AttributeError"
| "get_method (JArr xs) k d = Inl AttributeError"

text \<open>\<^verbatim>\<open>x.items()\<close> and \<^verbatim>\<open>x.keys()\<close>.\<close>

fun items_method :: "json \<Rightarrow> error + (string \<times> json) list" where
  "items_method (JObj kvs) = Inr kvs"
| "items_method JNull = Inl AttributeError"
| "items_method (JBool b) = Inl AttributeError"
| "items_method (JInt i) = Inl AttributeError"
| "items_method (JStr s) = Inl AttributeError"
| "items_method (JArr xs) = Inl AttributeError"

fun keys_method :: "json \<Rightarrow> error + string list" where
  "keys_method (JObj kvs) = Inr (map fst kvs)"
| "keys_method JNull = Inl AttributeError"
| "keys_method (JBool b) = Inl AttributeError"
| "keys_method (JInt i) = Inl AttributeError"
| "keys_method (JStr s) = Inl AttributeError"
| "keys_method (JArr xs) = Inl AttributeError"

text \<open>
  \<^verbatim>\<open>d.update(other)\<close> stores every entry of \<open>other\<close> in \<open>d\<close>, in the order of
  \<open>other\<close>. \<open>other\<close> may also be an iterable of pairs: an empty list or string
  changes nothing, a non-empty string yields one-character elements
  (\<^verbatim>\<open>ValueError\<close>), \<^verbatim>\<open>None\<close>, a boolean or a number is not iterable. A non-empty list
  may hold pairs whose first components are not strings; that case is not
  modelled.
\<close>

definition dict_update :: "(string \<times> json) list \<Rightarrow> (string \<times> json) list \<Rightarrow> (string \<times> json) list" where
  "dict_update old new = fold (\<lambda>kv. AList.update (fst kv) (snd kv)) new old"

fun update_method :: "json \<Rightarrow> json \<Rightarrow> error + json" where
  "update_method (JObj kvs) (JObj new) = Inr (JObj (dict_update kvs new))"
| "update_method (JObj kvs) (JArr []) = Inr (JObj kvs)"
| "update_method (JObj kvs) (JArr (x # xs)) = Inl Unmodelled"
| "update_method (JObj kvs) (JStr []) = Inr (JObj kvs)"
| "update_method (JObj kvs) (JStr (c # cs)) = Inl ValueError"
| "update_method (JObj kvs) JNull = Inl TypeError"
| "update_method (JObj kvs) (JBool b) = Inl TypeError"
| "update_method (JObj kvs) (JInt i) = Inl TypeError"
| "update_method JNull other = Inl AttributeError"
| "update_method (JBool b) other = Inl AttributeError"
| "update_method (JInt i) other = Inl AttributeError"
| "update_method (JStr s) other = Inl AttributeError"
| "update_method (JArr xs) other = Inl AttributeError"

text \<open>
  \<^verbatim>\<open>for x in xs\<close>: the elements of a list, the keys of a dict, the characters of a
  string; anything else is not iterable.
\<close>

fun iter :: "json \<Rightarrow> error + json list" where
  "iter (JArr xs) = Inr xs"
| "iter (JObj kvs) = Inr (map (\<lambda>kv. JStr (fst kv)) kvs)"
| "iter (JStr s) = Inr (map (\<lambda>c. JStr [c]) s)"
| "iter JNull = Inl TypeError"
| "iter (JBool b) = Inl TypeError"
| "iter (JInt i) = Inl TypeError"

text \<open>
  \<^verbatim>\<open>a == b\<close>: booleans compare as the numbers 0 and 1, lists elementwise, dicts
  without regard to the order of their keys.
\<close>

lemma size_map_of:
  "map_of kvs k = Some v \<Longrightarrow> size v < Suc (size_list (size_prod (\<lambda>_. 0) size) kvs)"
  by (induction kvs) (auto split: if_splits)

lemma size_in_obj:
  "(k, v) \<in> set kvs \<Longrightarrow> size v < Suc (size_list (size_prod (\<lambda>_. 0) size) kvs)"
  by (induction kvs) auto

lemma size_in_arr: "x \<in> set xs \<Longrightarrow> size x < Suc (size_list size xs)"
  by (induction xs) auto

function py_eq :: "json \<Rightarrow> json \<Rightarrow> bool" where
  "py_eq JNull b = (b = JNull)"
| "py_eq (JBool x) b =
     (case b of JBool y \<Rightarrow> x = y | JInt j \<Rightarrow> (if x then 1 else 0) = j | _ \<Rightarrow> False)"
| "py_eq (JInt i) b =
     (case b of JBool y \<Rightarrow> i = (if y then 1 else 0) | JInt j \<Rightarrow> i = j | _ \<Rightarrow> False)"
| "py_eq (JStr s) b = (b = JStr s)"
| "py_eq (JArr xs) b =
     (case b of JArr ys \<Rightarrow> length xs = length ys \<and> (\<forall>i < length xs. py_eq (xs ! i) (ys ! i))
      | _ \<Rightarrow> False)"
| "py_eq (JObj kvs) b =
     (case b of
        JObj kws \<Rightarrow>
          length kvs = length kws \<and>
          (\<forall>kv \<in> set kvs. case map_of kws (fst kv) of None \<Rightarrow> False | Some w \<Rightarrow> py_eq (snd kv) w)
      | _ \<Rightarrow> False)"
  by pat_completeness auto
termination
proof (relation "measure (\<lambda>(a, b). size a)", goal_cases)
  case 1
  show ?case by simp
next
  case (2 xs b ys i)
  have "xs ! i \<in> set xs" using 2 by simp
  from size_in_arr [OF this] show ?case by simp
next
  case (3 kvs b kws kv w)
  then have "(fst kv, snd kv) \<in> set kvs" by simp
  from size_in_obj [OF this] show ?case by simp
qed

section \<open>The state and its links\<close>

text \<open>
  The tool mutates the manifest in place and keeps references into it:
  \<^verbatim>\<open>State.manifest_urls\<close> is the \<^verbatim>\<open>urls\<close> dict inside the manifest and
  \<^verbatim>\<open>State.manifest_todo\<close> holds the dicts that carry an import. The manifest comes
  from \<^verbatim>\<open>json.load\<close>, so it is a tree, and everything the tool stores into it comes
  from disjoint parts of a freshly loaded import; no dict is ever reachable twice.
  A reference is therefore the path from the root to the dict, and a mutation
  through a reference is an update of the manifest at that path.
\<close>

datatype step = Key string | Idx nat

type_synonym link = "step list"

fun deref :: "json \<Rightarrow> link \<Rightarrow> json option" where
  "deref j [] = Some j"
| "deref (JObj kvs) (Key k # p) = (case map_of kvs k of None \<Rightarrow> None | Some v \<Rightarrow> deref v p)"
| "deref (JArr xs) (Idx i # p) = (if i < length xs then deref (xs ! i) p else None)"
| "deref _ _ = None"

fun assign :: "json \<Rightarrow> link \<Rightarrow> json \<Rightarrow> json" where
  "assign j [] new = new"
| "assign (JObj kvs) (Key k # p) new =
     (case map_of kvs k of None \<Rightarrow> JObj kvs
      | Some v \<Rightarrow> JObj (AList.update k (assign v p new) kvs))"
| "assign (JArr xs) (Idx i # p) new =
     (if i < length xs then JArr (xs[i := assign (xs ! i) p new]) else JArr xs)"
| "assign j _ new = j"

record state =
  cwd :: string
  manifest :: json
  manifest_urls :: "link option"
  manifest_todo :: "link list"

text \<open>
  The file system the imports are read from: the parsed content of the file at
  a path, or \<open>None\<close> when it cannot be opened or parsed.
\<close>

type_synonym files = "string \<Rightarrow> json option"

text \<open>\<^verbatim>\<open>os.path.join(a, b)\<close> of \<^verbatim>\<open>posixpath\<close>, for two components.\<close>

definition os_path_join :: "string \<Rightarrow> string \<Rightarrow> string" where
  "os_path_join a b =
     (if startswith b ''/'' then b
      else if a = [] \<or> endswith a ''/'' then a @ b
      else a @ ''/'' @ b)"

text \<open>
  \<^verbatim>\<open>with open(os.path.join(state.cwd, path), "r") as f: imp = json.load(f)\<close>;
  \<^verbatim>\<open>os.path.join\<close> raises \<^verbatim>\<open>TypeError\<close> when \<open>path\<close> is not a string.
\<close>

fun load :: "files \<Rightarrow> string \<Rightarrow> json \<Rightarrow> error + json" where
  "load fs dir (JStr p) =
     (case fs (os_path_join dir p) of None \<Rightarrow> Inl IOFailure | Some j \<Rightarrow> Inr j)"
| "load fs dir JNull = Inl TypeError"
| "load fs dir (JBool b) = Inl TypeError"
| "load fs dir (JInt i) = Inl TypeError"
| "load fs dir (JArr xs) = Inl TypeError"
| "load fs dir (JObj kvs) = Inl TypeError"

section \<open>\<^verbatim>\<open>_manifest_enter\<close> and \<^verbatim>\<open>_sort_urls\<close>\<close>

text \<open>
  \<^verbatim>\<open>_manifest_enter(manifest, key, default)\<close> returns the value; the model returns
  the container as the call leaves it, too.
\<close>

definition manifest_enter :: "json \<Rightarrow> string \<Rightarrow> json \<Rightarrow> error + (json \<times> json)" where
  "manifest_enter m key dflt =
     (case contains key m of
        Inl e \<Rightarrow> Inl e
      | Inr present \<Rightarrow>
          (case (if \<not> present then setitem m key dflt else Inr m) of
             Inl e \<Rightarrow> Inl e
           | Inr m' \<Rightarrow>
               (case getitem m' key of
                  Inl e \<Rightarrow> Inl e
                | Inr v \<Rightarrow> Inr (m', v))))"

text \<open>
  \<^verbatim>\<open>_sort_urls(urls)\<close>. \<^verbatim>\<open>sorted\<close> computes the key of every item first, in order,
  and is stable; \<open>sort_key\<close> on the items paired with their keys is the stable
  insertion sort, and any stable sort returns the same list. The keys of a
  well-formed \<^verbatim>\<open>urls\<close> mapping are strings, compared by code point. A single item
  is never compared. Two or more items whose keys are not all strings are not
  modelled: whether Python can compare them depends on their types.
\<close>

fun get_sort_key :: "string \<times> json \<Rightarrow> error + json" where
  "get_sort_key (k, JObj d) = getitem (JObj d) ''url''"
| "get_sort_key (k, v) = Inr v"

fun sort_keys :: "(string \<times> json) list \<Rightarrow> error + json list" where
  "sort_keys [] = Inr []"
| "sort_keys (item # rest) =
     (case get_sort_key item of
        Inl e \<Rightarrow> Inl e
      | Inr k \<Rightarrow> (case sort_keys rest of Inl e \<Rightarrow> Inl e | Inr ks \<Rightarrow> Inr (k # ks)))"

fun is_str :: "json \<Rightarrow> bool" where
  "is_str (JStr s) = True"
| "is_str _ = False"

fun the_str :: "json \<Rightarrow> string" where
  "the_str (JStr s) = s"
| "the_str _ = []"

definition sort_urls :: "json \<Rightarrow> error + json" where
  "sort_urls urls =
     (if \<not> truthy urls then Inr urls
      else
        (case items_method urls of
           Inl e \<Rightarrow> Inl e
         | Inr its \<Rightarrow>
             (case sort_keys its of
                Inl e \<Rightarrow> Inl e
              | Inr ks \<Rightarrow>
                  if length its \<le> 1 then Inr (JObj its)
                  else if list_all is_str ks
                  then Inr (JObj (map snd (sort_key fst (zip (map the_str ks) its))))
                  else Inl Unmodelled)))"

section \<open>Format version 1\<close>

abbreviation mpp_key :: string where
  "mpp_key \<equiv> ''mpp-import-pipeline''"

abbreviation files_key :: string where
  "files_key \<equiv> ''org.osbuild.files''"

text \<open>
  \<open>via root l f\<close> applies the mutating operation \<open>f\<close> to the object the link \<open>l\<close>
  refers to inside \<open>root\<close>.
\<close>

definition via :: "json \<Rightarrow> link \<Rightarrow> (json \<Rightarrow> error + json) \<Rightarrow> error + json" where
  "via root l f =
     (case deref root l of
        None \<Rightarrow> Inl DanglingLink
      | Some x \<Rightarrow> (case f x of Inl e \<Rightarrow> Inl e | Inr x' \<Rightarrow> Inr (assign root l x')))"

lemma size_get_method:
  "get_method a k d = Inr b \<Longrightarrow> size b < size a \<or> b = d"
  by (cases a) (auto split: option.splits dest: size_map_of)

text \<open>
  The loop of \<^verbatim>\<open>_manifest_parse_v1\<close>: walk down \<^verbatim>\<open>pipeline.build\<close> from \<open>current\<close>,
  reached from the root by the link \<open>l\<close>, and stop at the first dict that has the
  import key. The result is the to-do list.
\<close>

function find_todo :: "json \<Rightarrow> link \<Rightarrow> error + link list" where
  "find_todo current l =
     (if \<not> truthy current then Inr []
      else
        (case contains mpp_key current of
           Inl e \<Rightarrow> Inl e
         | Inr found \<Rightarrow>
             if found then Inr [l]
             else
               (case get_method current ''pipeline'' (JObj []) of
                  Inl e \<Rightarrow> Inl e
                | Inr pl \<Rightarrow>
                    (case get_method pl ''build'' JNull of
                       Inl e \<Rightarrow> Inl e
                     | Inr b \<Rightarrow> find_todo b (l @ [Key ''pipeline'', Key ''build''])))))"
  by pat_completeness auto
termination
proof (relation "measure (\<lambda>(c, l). size c)", goal_cases)
  case 1
  show ?case by simp
next
  case (2 current l found pl b)
  from size_get_method [OF 2(4)] have "size pl < size current \<or> pl = JObj []" .
  moreover from size_get_method [OF 2(5)] have "size b < size pl \<or> b = JNull" .
  moreover have "0 < size current" using 2(1) 2(4) by (cases current) auto
  ultimately have "size b < size current" by auto
  then show ?case by simp
qed

definition manifest_parse_v1 :: "state \<Rightarrow> json \<Rightarrow> error + state" where
  "manifest_parse_v1 st data =
     (case manifest_enter data ''sources'' (JObj []) of
        Inl e \<Rightarrow> Inl e
      | Inr (m1, manifest_sources) \<Rightarrow>
     (case manifest_enter manifest_sources files_key (JObj []) of
        Inl e \<Rightarrow> Inl e
      | Inr (sources1, manifest_files) \<Rightarrow>
     (case manifest_enter manifest_files ''urls'' (JObj []) of
        Inl e \<Rightarrow> Inl e
      | Inr (files1, urls) \<Rightarrow>
     (let m2 = assign m1 [Key ''sources''] (assign sources1 [Key files_key] files1) in
      case find_todo m2 [] of
        Inl e \<Rightarrow> Inl e
      | Inr todo \<Rightarrow>
          Inr (st\<lparr>manifest := m2,
                  manifest_urls := Some [Key ''sources'', Key files_key, Key ''urls''],
                  manifest_todo := todo\<rparr>)))))"

text \<open>
  \<^verbatim>\<open>xs.sort()\<close> sorts the list in place and returns \<^verbatim>\<open>None\<close>. Line 127 calls it on
  two temporaries and compares the two return values.
\<close>

definition sort_method :: "string list \<Rightarrow> json" where
  "sort_method xs = JNull"

definition manifest_process_v1 :: "files \<Rightarrow> state \<Rightarrow> link \<Rightarrow> error + state" where
  "manifest_process_v1 fs st l =
     (case deref (manifest st) l of
        None \<Rightarrow> Inl DanglingLink
      | Some todo \<Rightarrow>
     (case manifest_enter todo mpp_key (JObj []) of
        Inl e \<Rightarrow> Inl e
      | Inr (todo1, mpp) \<Rightarrow>
     (case getitem mpp ''path'' of
        Inl e \<Rightarrow> Inl e
      | Inr mpp_path \<Rightarrow>
     (case load fs (cwd st) mpp_path of
        Inl e \<Rightarrow> Inl e
      | Inr imp \<Rightarrow>
     (case manifest_enter imp ''sources'' (JObj []) of
        Inl e \<Rightarrow> Inl e
      | Inr (imp1, imp_sources) \<Rightarrow>
     (case manifest_enter imp_sources files_key (JObj []) of
        Inl e \<Rightarrow> Inl e
      | Inr (imp_sources1, imp_files) \<Rightarrow>
     (case manifest_enter imp_files ''urls'' (JObj []) of
        Inl e \<Rightarrow> Inl e
      | Inr (imp_files1, imp_urls) \<Rightarrow>
     (case manifest_enter
             (assign imp1 [Key ''sources''] (assign imp_sources1 [Key files_key] imp_files1))
             ''pipeline'' (JObj []) of
        Inl e \<Rightarrow> Inl e
      | Inr (imp2, imp_pipeline) \<Rightarrow>
     (case keys_method imp_sources1 of
        Inl e \<Rightarrow> Inl e
      | Inr source_keys \<Rightarrow>
     (if source_keys \<noteq> [files_key] then Inl AssertionError
      else
     (case keys_method imp2 of
        Inl e \<Rightarrow> Inl e
      | Inr imp_keys \<Rightarrow>
     (if \<not> py_eq (sort_method imp_keys) (sort_method [''pipeline'', ''sources''])
      then Inl AssertionError
      else
     (case manifest_urls st of
        None \<Rightarrow> Inl AttributeError
      | Some ul \<Rightarrow>
     (case via (assign (manifest st) l todo1) ul (\<lambda>urls. update_method urls imp_urls) of
        Inl e \<Rightarrow> Inl e
      | Inr m2 \<Rightarrow>
     (case via m2 l (\<lambda>todo. setitem todo ''pipeline'' imp_pipeline) of
        Inl e \<Rightarrow> Inl e
      | Inr m3 \<Rightarrow>
     (case via m3 l (\<lambda>todo. delitem todo mpp_key) of
        Inl e \<Rightarrow> Inl e
      | Inr m4 \<Rightarrow> Inr (st\<lparr>manifest := m4\<rparr>)))))))))))))))))"

text \<open>\<^verbatim>\<open>for todo in state.manifest_todo: _manifest_process_v1(state, todo)\<close>.\<close>

fun process_todos_v1 :: "files \<Rightarrow> state \<Rightarrow> link list \<Rightarrow> error + state" where
  "process_todos_v1 fs st [] = Inr st"
| "process_todos_v1 fs st (todo # rest) =
     (case manifest_process_v1 fs st todo of
        Inl e \<Rightarrow> Inl e
      | Inr st' \<Rightarrow> process_todos_v1 fs st' rest)"

definition manifest_import_v1 :: "files \<Rightarrow> state \<Rightarrow> json \<Rightarrow> error + state" where
  "manifest_import_v1 fs st src =
     (case manifest_parse_v1 st src of
        Inl e \<Rightarrow> Inl e
      | Inr st1 \<Rightarrow> process_todos_v1 fs st1 (manifest_todo st1))"

section \<open>Format version 2\<close>

text \<open>
  The loop of \<^verbatim>\<open>_manifest_parse_v2\<close> over the elements of \<^verbatim>\<open>pipelines\<close>; \<open>i\<close> is the
  index of the first element of the list in \<^verbatim>\<open>pipelines\<close>, so that the link to an
  element is \<open>[Key ''pipelines'', Idx i]\<close>.
\<close>

fun collect_todo :: "json list \<Rightarrow> nat \<Rightarrow> error + link list" where
  "collect_todo [] i = Inr []"
| "collect_todo (pipeline # rest) i =
     (case get_method pipeline mpp_key JNull of
        Inl e \<Rightarrow> Inl e
      | Inr current \<Rightarrow>
          (case collect_todo rest (Suc i) of
             Inl e \<Rightarrow> Inl e
           | Inr todo \<Rightarrow>
               Inr (if truthy current then [Key ''pipelines'', Idx i] # todo else todo)))"

definition manifest_parse_v2 :: "state \<Rightarrow> json \<Rightarrow> error + state" where
  "manifest_parse_v2 st m =
     (case get_method m ''pipelines'' (JArr []) of
        Inl e \<Rightarrow> Inl e
      | Inr pipelines \<Rightarrow>
     (case iter pipelines of
        Inl e \<Rightarrow> Inl e
      | Inr ps \<Rightarrow>
     (case collect_todo ps 0 of
        Inl e \<Rightarrow> Inl e
      | Inr todo \<Rightarrow> Inr (st\<lparr>manifest := m, manifest_todo := todo\<rparr>))))"

text \<open>
  The body of the loop that merges the sources (lines 172 to 183), for one
  \<open>(source, desc)\<close> of the import; \<open>sources\<close> is the dict of the manifest as the
  previous iterations left it.
\<close>

definition merge_source :: "json \<Rightarrow> string \<times> json \<Rightarrow> error + json" where
  "merge_source sources item =
     (case get_method sources (fst item) JNull of
        Inl e \<Rightarrow> Inl e
      | Inr target \<Rightarrow>
     (if \<not> truthy target then setitem sources (fst item) (snd item)
      else
     (case get_method (snd item) ''options'' JNull of
        Inl e \<Rightarrow> Inl e
      | Inr desc_options \<Rightarrow>
     (case (if truthy desc_options
            then (case manifest_enter target ''options'' (JObj []) of
                    Inl e \<Rightarrow> Inl e
                  | Inr (target1, options) \<Rightarrow>
                      (case getitem (snd item) ''options'' of
                         Inl e \<Rightarrow> Inl e
                       | Inr new_options \<Rightarrow>
                           via target1 [Key ''options''] (\<lambda>d. update_method d new_options)))
            else Inr target) of
        Inl e \<Rightarrow> Inl e
      | Inr target2 \<Rightarrow>
     (case manifest_enter target2 ''items'' (JObj []) of
        Inl e \<Rightarrow> Inl e
      | Inr (target3, items) \<Rightarrow>
     (case get_method (snd item) ''items'' (JObj []) of
        Inl e \<Rightarrow> Inl e
      | Inr new_items \<Rightarrow>
     (case via target3 [Key ''items''] (\<lambda>d. update_method d new_items) of
        Inl e \<Rightarrow> Inl e
      | Inr target4 \<Rightarrow> setitem sources (fst item) target4)))))))"

fun merge_sources :: "json \<Rightarrow> (string \<times> json) list \<Rightarrow> error + json" where
  "merge_sources sources [] = Inr sources"
| "merge_sources sources (item # rest) =
     (case merge_source sources item of
        Inl e \<Rightarrow> Inl e
      | Inr sources' \<Rightarrow> merge_sources sources' rest)"

text \<open>
  The search of lines 190 to 194: the first pipeline whose name equals \<open>pid\<close>,
  \<^verbatim>\<open>None\<close> when there is none.
\<close>

fun find_pipeline :: "json list \<Rightarrow> json \<Rightarrow> error + json" where
  "find_pipeline [] pid = Inr JNull"
| "find_pipeline (pipeline # rest) pid =
     (case getitem pipeline ''name'' of
        Inl e \<Rightarrow> Inl e
      | Inr name \<Rightarrow> if py_eq name pid then Inr pipeline else find_pipeline rest pid)"

definition manifest_process_v2 :: "files \<Rightarrow> state \<Rightarrow> link \<Rightarrow> error + state" where
  "manifest_process_v2 fs st l =
     (case manifest_enter (manifest st) ''sources'' (JObj []) of
        Inl e \<Rightarrow> Inl e
      | Inr (m1, sources) \<Rightarrow>
     (case deref m1 l of
        None \<Rightarrow> Inl DanglingLink
      | Some todo \<Rightarrow>
     (case getitem todo mpp_key of
        Inl e \<Rightarrow> Inl e
      | Inr mpp \<Rightarrow>
     (case getitem mpp ''path'' of
        Inl e \<Rightarrow> Inl e
      | Inr path \<Rightarrow>
     (case load fs (cwd st) path of
        Inl e \<Rightarrow> Inl e
      | Inr imp \<Rightarrow>
     (case get_method imp ''sources'' (JObj []) of
        Inl e \<Rightarrow> Inl e
      | Inr imp_sources \<Rightarrow>
     (case items_method imp_sources of
        Inl e \<Rightarrow> Inl e
      | Inr its \<Rightarrow>
     (case merge_sources sources its of
        Inl e \<Rightarrow> Inl e
      | Inr sources' \<Rightarrow>
     (case get_method imp ''pipelines'' (JArr []) of
        Inl e \<Rightarrow> Inl e
      | Inr pipelines \<Rightarrow>
     (case getitem mpp ''id'' of
        Inl e \<Rightarrow> Inl e
      | Inr pid \<Rightarrow>
     (case iter pipelines of
        Inl e \<Rightarrow> Inl e
      | Inr ps \<Rightarrow>
     (case find_pipeline ps pid of
        Inl e \<Rightarrow> Inl e
      | Inr target \<Rightarrow>
     (if \<not> truthy target then Inl (PipelineNotFound pid (the_str path))
      else
     (case via (assign m1 [Key ''sources''] sources') l (\<lambda>todo. update_method todo target) of
        Inl e \<Rightarrow> Inl e
      | Inr m2 \<Rightarrow>
     (case via m2 l (\<lambda>todo. delitem todo mpp_key) of
        Inl e \<Rightarrow> Inl e
      | Inr m3 \<Rightarrow> Inr (st\<lparr>manifest := m3\<rparr>))))))))))))))))"

fun process_todos_v2 :: "files \<Rightarrow> state \<Rightarrow> link list \<Rightarrow> error + state" where
  "process_todos_v2 fs st [] = Inr st"
| "process_todos_v2 fs st (todo # rest) =
     (case manifest_process_v2 fs st todo of
        Inl e \<Rightarrow> Inl e
      | Inr st' \<Rightarrow> process_todos_v2 fs st' rest)"

definition manifest_import_v2 :: "files \<Rightarrow> state \<Rightarrow> json \<Rightarrow> error + state" where
  "manifest_import_v2 fs st src =
     (case manifest_parse_v2 st src of
        Inl e \<Rightarrow> Inl e
      | Inr st1 \<Rightarrow> process_todos_v2 fs st1 (manifest_todo st1))"

section \<open>The driver\<close>

text \<open>
  \<^verbatim>\<open>_main_state\<close>: \<^verbatim>\<open>state.cwd = args.cwd or "."\<close>; the other attributes keep the
  defaults of the class.
\<close>

definition main_state :: "string option \<Rightarrow> state" where
  "main_state arg =
     \<lparr>cwd = (case arg of None \<Rightarrow> ''.'' | Some d \<Rightarrow> if d = [] then ''.'' else d),
      manifest = JNull, manifest_urls = None, manifest_todo = []\<rparr>"

text \<open>The call \<^verbatim>\<open>_sort_urls(state.manifest_urls)\<close>; \<^verbatim>\<open>None\<close> is falsy and is returned.\<close>

definition sort_urls_state :: "state \<Rightarrow> error + state" where
  "sort_urls_state st =
     (case manifest_urls st of
        None \<Rightarrow> Inr st
      | Some ul \<Rightarrow>
          (case via (manifest st) ul sort_urls of
             Inl e \<Rightarrow> Inl e
           | Inr m \<Rightarrow> Inr (st\<lparr>manifest := m\<rparr>)))"

text \<open>
  \<^verbatim>\<open>_main_process\<close>, applied to the manifest read from the standard input. The
  result is the return value and what was written to the standard output: the
  manifest that \<^verbatim>\<open>json.dump\<close> serialises, or nothing. An exception leaves the
  function before anything is written.
\<close>

definition main_process :: "files \<Rightarrow> state \<Rightarrow> json \<Rightarrow> error + (nat \<times> json option)" where
  "main_process fs st src =
     (case get_method src ''version'' (JStr ''1'') of
        Inl e \<Rightarrow> Inl e
      | Inr version \<Rightarrow>
          if py_eq version (JStr ''1'') then
            (case manifest_import_v1 fs st src of
               Inl e \<Rightarrow> Inl e
             | Inr st1 \<Rightarrow>
                 (case sort_urls_state st1 of
                    Inl e \<Rightarrow> Inl e
                  | Inr st2 \<Rightarrow> Inr (0, Some (manifest st2))))
          else if py_eq version (JStr ''2'') then
            (case manifest_import_v2 fs st src of
               Inl e \<Rightarrow> Inl e
             | Inr st1 \<Rightarrow>
                 (case sort_urls_state st1 of
                    Inl e \<Rightarrow> Inl e
                  | Inr st2 \<Rightarrow> Inr (0, Some (manifest st2))))
          else Inr (1, None))"

section \<open>Notions used to state the properties\<close>

text \<open>Whether a value is a dict.\<close>

fun is_obj :: "json \<Rightarrow> bool" where
  "is_obj (JObj kvs) = True"
| "is_obj _ = False"

text \<open>The value \<^verbatim>\<open>d.get(k, default)\<close> of a dict given by its items.\<close>

definition get_or :: "(string \<times> json) list \<Rightarrow> string \<Rightarrow> json \<Rightarrow> json" where
  "get_or kvs k d = (case map_of kvs k of None \<Rightarrow> d | Some v \<Rightarrow> v)"

text \<open>\<open>other_name pid q\<close>: the pipeline \<open>q\<close> has a name, and it is not \<open>pid\<close>.\<close>

definition other_name :: "json \<Rightarrow> json \<Rightarrow> bool" where
  "other_name pid q = (case getitem q ''name'' of Inl e \<Rightarrow> False | Inr n \<Rightarrow> \<not> py_eq n pid)"

text \<open>The items of a dict; no items for any other value.\<close>

fun entries :: "json \<Rightarrow> (string \<times> json) list" where
  "entries (JObj kvs) = kvs"
| "entries _ = []"

text \<open>
  What lines 178 to 183 make of the fields \<open>t\<close> of a descriptor of the manifest,
  given the fields \<open>d\<close> of the descriptor of the import, when they do not raise.
\<close>

definition merged :: "(string \<times> json) list \<Rightarrow> (string \<times> json) list \<Rightarrow> (string \<times> json) list" where
  "merged t d =
     (let t2 = (if truthy (get_or d ''options'' JNull)
                then AList.update ''options''
                       (JObj (dict_update (entries (get_or t ''options'' (JObj [])))
                                          (entries (get_or d ''options'' JNull)))) t
                else t)
      in AList.update ''items''
           (JObj (dict_update (entries (get_or t2 ''items'' (JObj [])))
                              (entries (get_or d ''items'' (JObj []))))) t2)"

text \<open>The link that \<^verbatim>\<open>_manifest_parse_v1\<close> stores in \<^verbatim>\<open>State.manifest_urls\<close>.\<close>

abbreviation urls_link :: link where
  "urls_link \<equiv> [Key ''sources'', Key files_key, Key ''urls'']"

text \<open>
  The URL value of an entry of \<^verbatim>\<open>urls\<close>, in the words of the specification: the
  \<^verbatim>\<open>url\<close> field of a composite descriptor, the value itself otherwise. \<open>by_url\<close>
  orders two entries whose URL values are strings. Strings are compared as
  Python compares them, character by character and the shorter first; a
  character is a byte here, and the order of the bytes of two UTF-8 strings is
  the order of their code points.
\<close>

fun url_value :: "json \<Rightarrow> json" where
  "url_value (JObj d) = get_or d ''url'' JNull"
| "url_value v = v"

fun url_le :: "json \<Rightarrow> json \<Rightarrow> bool" where
  "url_le (JStr a) (JStr b) = (a \<le> b)"
| "url_le _ _ = False"

definition by_url :: "string \<times> json \<Rightarrow> string \<times> json \<Rightarrow> bool" where
  "by_url a b = url_le (url_value (snd a)) (url_value (snd b))"

text \<open>
  The manifest as lines 79 to 81 leave it: \<^verbatim>\<open>sources\<close>, \<^verbatim>\<open>org.osbuild.files\<close> inside
  it and \<^verbatim>\<open>urls\<close> inside that are created, as empty dicts at the end of their
  parent, where they are absent; nothing else changes.
\<close>

definition with_defaults :: "json \<Rightarrow> json" where
  "with_defaults src =
     (let s = entries src;
          ss = entries (get_or s ''sources'' (JObj []));
          fl = entries (get_or ss files_key (JObj []))
      in JObj (AList.update ''sources''
                 (JObj (AList.update files_key
                          (JObj (AList.update ''urls'' (get_or fl ''urls'' (JObj [])) fl)) ss)) s))"

text \<open>The link from a dict to the dict \<open>d\<close> steps down its \<^verbatim>\<open>pipeline.build\<close> chain.\<close>

fun chain_link :: "nat \<Rightarrow> link" where
  "chain_link 0 = []"
| "chain_link (Suc d) = Key ''pipeline'' # Key ''build'' # chain_link d"

text \<open>
  Lines 113 to 127 of \<^verbatim>\<open>_manifest_process_v1\<close> on their own: what they take from
  the imported manifest, its \<^verbatim>\<open>urls\<close> and its \<^verbatim>\<open>pipeline\<close>.
\<close>

definition import_parts :: "json \<Rightarrow> error + (json \<times> json)" where
  "import_parts imp =
     (case manifest_enter imp ''sources'' (JObj []) of
        Inl e \<Rightarrow> Inl e
      | Inr (imp1, imp_sources) \<Rightarrow>
     (case manifest_enter imp_sources files_key (JObj []) of
        Inl e \<Rightarrow> Inl e
      | Inr (imp_sources1, imp_files) \<Rightarrow>
     (case manifest_enter imp_files ''urls'' (JObj []) of
        Inl e \<Rightarrow> Inl e
      | Inr (imp_files1, imp_urls) \<Rightarrow>
     (case manifest_enter
             (assign imp1 [Key ''sources''] (assign imp_sources1 [Key files_key] imp_files1))
             ''pipeline'' (JObj []) of
        Inl e \<Rightarrow> Inl e
      | Inr (imp2, imp_pipeline) \<Rightarrow>
     (case keys_method imp_sources1 of
        Inl e \<Rightarrow> Inl e
      | Inr source_keys \<Rightarrow>
     (if source_keys \<noteq> [files_key] then Inl AssertionError
      else
     (case keys_method imp2 of
        Inl e \<Rightarrow> Inl e
      | Inr imp_keys \<Rightarrow>
     (if \<not> py_eq (sort_method imp_keys) (sort_method [''pipeline'', ''sources''])
      then Inl AssertionError
      else Inr (imp_urls, imp_pipeline)))))))))"

section \<open>Evaluation on concrete inputs\<close>

lemmas run_defs =
  main_process_def main_state_def sort_urls_state_def sort_urls_def via_def
  manifest_enter_def sort_method_def dict_update_def os_path_join_def endswith_def
  manifest_import_v1_def manifest_parse_v1_def manifest_process_v1_def
  manifest_import_v2_def manifest_parse_v2_def manifest_process_v2_def merge_source_def

section \<open>The check of the imported manifest's top-level keys (version 1)\<close>

text \<open>
  C1. A version 1 import must fail when the top-level keys of the imported
  manifest are not exactly \<^verbatim>\<open>pipeline\<close> and \<^verbatim>\<open>sources\<close>. The comment above line 127
  says so (``Make sure nothing else is in the manifest''), but the assertion
  compares the return values of two \<^verbatim>\<open>list.sort()\<close> calls, which are both \<^verbatim>\<open>None\<close>.
  Here the manifest \<^verbatim>\<open>{"mpp-import-pipeline": {"path": "imp.json"}}\<close> imports a file
  that has the third top-level key \<^verbatim>\<open>extra\<close>; the run does not fail, it returns 0
  and writes the resolved manifest.
\<close>

theorem C1_extra_key_is_accepted:
  "main_process
     (\<lambda>p. if p = ''./imp.json''
          then Some (JObj [(''pipeline'', JObj [(''stages'', JArr [])]),
                           (''sources'', JObj [(files_key, JObj [(''urls'', JObj [])])]),
                           (''extra'', JBool True)])
          else None)
     (main_state None)
     (JObj [(mpp_key, JObj [(''path'', JStr ''imp.json'')])])
   = Inr (0, Some (JObj [(''sources'', JObj [(files_key, JObj [(''urls'', JObj [])])]),
                         (''pipeline'', JObj [(''stages'', JArr [])])]))"
  by (simp add: run_defs)

section \<open>Basic facts about the operations\<close>

lemma manifest_enter_obj:
  "manifest_enter (JObj kvs) k d =
     Inr (case map_of kvs k of None \<Rightarrow> (JObj (AList.update k d kvs), d) | Some v \<Rightarrow> (JObj kvs, v))"
proof (cases "map_of kvs k")
  case None
  then have "k \<notin> fst ` set kvs" by (simp add: map_of_eq_None_iff)
  then show ?thesis using None by (simp add: manifest_enter_def AList.update_conv')
next
  case (Some v)
  then have "k \<in> fst ` set kvs" by (metis map_of_eq_None_iff option.distinct(1))
  then show ?thesis using Some by (simp add: manifest_enter_def)
qed

lemma manifest_enter_not_obj: "\<not> is_obj m \<Longrightarrow> manifest_enter m k d = Inl TypeError"
  by (cases m) (auto simp: manifest_enter_def)

lemma map_of_dict_update:
  "distinct (map fst new) \<Longrightarrow> map_of (dict_update old new) = map_of old ++ map_of new"
  unfolding dict_update_def
proof (induction new arbitrary: old)
  case Nil
  then show ?case by simp
next
  case (Cons kv new)
  from Cons.prems have "fst kv \<notin> fst ` set new" and d: "distinct (map fst new)" by auto
  then have "map_of new (fst kv) = None" by (simp add: map_of_eq_None_iff)
  then show ?case using Cons.IH [OF d, of "AList.update (fst kv) (snd kv) old"]
    by (cases kv) (auto simp: AList.update_conv' map_add_def fun_eq_iff split: option.splits)
qed

lemma keys_dict_update:
  "fst ` set (dict_update old new) = fst ` set old \<union> fst ` set new"
  unfolding dict_update_def
  by (induction new arbitrary: old) (simp_all add: AList.dom_update)

lemma distinct_dict_update:
  "distinct (map fst old) \<Longrightarrow> distinct (map fst (dict_update old new))"
  unfolding dict_update_def
  by (induction new arbitrary: old) (auto simp: AList.distinct_update)

lemma main_process_v1_raises:
  assumes "get_method src ''version'' (JStr ''1'') = Inr (JStr ''1'')"
    and "manifest_parse_v1 st src = Inr st'"
    and "manifest_todo st' = [l]"
    and "manifest_process_v1 fs st' l = Inl e"
  shows "main_process fs st src = Inl e"
  using assms by (simp add: main_process_def manifest_import_v1_def)

lemma process_todos_v2_raises:
  "process_todos_v2 fs st ls = Inr st' \<Longrightarrow> manifest_process_v2 fs st' l = Inl e \<Longrightarrow>
   process_todos_v2 fs st (ls @ l # rest) = Inl e"
  by (induction ls arbitrary: st) (auto split: sum.splits)

lemma main_process_v2_raises:
  assumes "get_method src ''version'' (JStr ''1'') = Inr (JStr ''2'')"
    and "manifest_parse_v2 st src = Inr st'"
    and "manifest_todo st' = ls @ l # rest"
    and "process_todos_v2 fs st' ls = Inr st''"
    and "manifest_process_v2 fs st'' l = Inl e"
  shows "main_process fs st src = Inl e"
  using assms process_todos_v2_raises [OF assms(4) assms(5), of rest]
  by (simp add: main_process_def manifest_import_v2_def)

section \<open>Links\<close>

lemma deref_assign_same: "deref m l = Some x \<Longrightarrow> deref (assign m l y) l = Some y"
  by (induction m l arbitrary: x rule: deref.induct)
     (auto simp: AList.update_conv' split: option.splits if_splits)

lemma assign_assign: "assign (assign m l y) l z = assign m l z"
  by (induction m l y rule: assign.induct)
     (auto simp: AList.update_conv' split: option.splits if_splits)

lemma deref_append:
  "deref m (p @ q) = (case deref m p of None \<Rightarrow> None | Some x \<Rightarrow> deref x q)"
  by (induction m p rule: deref.induct) (auto split: option.splits)

lemma assign_append:
  "deref m p = Some x \<Longrightarrow> assign m (p @ q) y = assign m p (assign x q y)"
  by (induction m p arbitrary: x rule: deref.induct) (auto split: option.splits if_splits)

lemma via_obj:
  "deref m l = Some x \<Longrightarrow> via m l f = (case f x of Inl e \<Rightarrow> Inl e | Inr x' \<Rightarrow> Inr (assign m l x'))"
  by (simp add: via_def)

section \<open>One import of format version 2\<close>

lemma get_method_obj: "get_method (JObj kvs) k d = Inr (get_or kvs k d)"
  by (simp add: get_or_def)

lemma process_v2_entry:
  assumes m: "manifest st = JObj m"
    and e: "deref (JObj m) [Key ''pipelines'', Idx i] = Some todo"
  shows "manifest_process_v2 fs st [Key ''pipelines'', Idx i] =
     (case getitem todo mpp_key of
        Inl e \<Rightarrow> Inl e
      | Inr mpp \<Rightarrow>
     (case getitem mpp ''path'' of
        Inl e \<Rightarrow> Inl e
      | Inr path \<Rightarrow>
     (case load fs (cwd st) path of
        Inl e \<Rightarrow> Inl e
      | Inr imp \<Rightarrow>
     (case get_method imp ''sources'' (JObj []) of
        Inl e \<Rightarrow> Inl e
      | Inr imp_sources \<Rightarrow>
     (case items_method imp_sources of
        Inl e \<Rightarrow> Inl e
      | Inr its \<Rightarrow>
     (case merge_sources (get_or m ''sources'' (JObj [])) its of
        Inl e \<Rightarrow> Inl e
      | Inr sources' \<Rightarrow>
     (case get_method imp ''pipelines'' (JArr []) of
        Inl e \<Rightarrow> Inl e
      | Inr pipelines \<Rightarrow>
     (case getitem mpp ''id'' of
        Inl e \<Rightarrow> Inl e
      | Inr pid \<Rightarrow>
     (case iter pipelines of
        Inl e \<Rightarrow> Inl e
      | Inr ps \<Rightarrow>
     (case find_pipeline ps pid of
        Inl e \<Rightarrow> Inl e
      | Inr target \<Rightarrow>
     (if \<not> truthy target then Inl (PipelineNotFound pid (the_str path))
      else
     (case update_method todo target of
        Inl e \<Rightarrow> Inl e
      | Inr todo' \<Rightarrow>
     (case delitem todo' mpp_key of
        Inl e \<Rightarrow> Inl e
      | Inr todo'' \<Rightarrow>
          Inr (st\<lparr>manifest :=
                   assign (JObj (AList.update ''sources'' sources' m))
                     [Key ''pipelines'', Idx i] todo''\<rparr>))))))))))))))"
proof -
  obtain m1 where m1: "manifest_enter (JObj m) ''sources'' (JObj []) =
      Inr (JObj m1, get_or m ''sources'' (JObj []))"
    and m1p: "map_of m1 ''pipelines'' = map_of m ''pipelines''"
    and m1s: "map_of m1 ''sources'' \<noteq> None"
    and m1u: "AList.update ''sources'' s m1 = AList.update ''sources'' s m" for s
    by (cases "map_of m ''sources''")
       (auto simp: manifest_enter_obj get_or_def AList.update_conv')
  have d1: "deref (JObj m1) [Key ''pipelines'', Idx i] = Some todo"
    using e m1p by (simp split: option.splits)
  have a2: "assign (JObj m1) [Key ''sources''] s = JObj (AList.update ''sources'' s m)" for s
    using m1u m1s by (auto split: option.splits)
  have d2: "deref (JObj (AList.update ''sources'' s m)) [Key ''pipelines'', Idx i] = Some todo" for s
    using e by (auto simp: AList.update_conv' split: option.splits)
  show ?thesis
    unfolding manifest_process_v2_def m m1
    by (simp add: d1 a2 via_obj [OF d2] via_obj [OF deref_assign_same [OF d2]] assign_assign
             del: deref.simps assign.simps split: sum.splits)
qed

lemma find_pipeline_first:
  "list_all (other_name pid) pre \<Longrightarrow> getitem q ''name'' = Inr n \<Longrightarrow> py_eq n pid \<Longrightarrow>
   find_pipeline (pre @ q # post) pid = Inr q"
  by (induction pre) (auto simp: other_name_def split: sum.splits)

lemma find_pipeline_none:
  "list_all (other_name pid) ps \<Longrightarrow> find_pipeline ps pid = Inr JNull"
  by (induction ps) (auto simp: other_name_def split: sum.splits)

lemma process_v2_not_found:
  assumes "manifest st = JObj m"
    and "deref (JObj m) [Key ''pipelines'', Idx i] = Some (JObj e)"
    and "map_of e mpp_key = Some (JObj d)"
    and "map_of d ''path'' = Some (JStr p)"
    and "map_of d ''id'' = Some pid"
    and "fs (os_path_join (cwd st) p) = Some (JObj imp)"
    and "items_method (get_or imp ''sources'' (JObj [])) = Inr its"
    and "merge_sources (get_or m ''sources'' (JObj [])) its = Inr sources'"
    and "get_or imp ''pipelines'' (JArr []) = JArr ps"
    and "list_all (other_name pid) ps"
  shows "manifest_process_v2 fs st [Key ''pipelines'', Idx i] = Inl (PipelineNotFound pid p)"
  using assms(3-9) find_pipeline_none [OF assms(10)]
  by (simp add: process_v2_entry [OF assms(1,2)] get_or_def)

lemma process_v2_no_path:
  assumes "manifest st = JObj m"
    and "deref (JObj m) [Key ''pipelines'', Idx i] = Some (JObj e)"
    and "map_of e mpp_key = Some (JObj d)"
    and "map_of d ''path'' = None"
  shows "manifest_process_v2 fs st [Key ''pipelines'', Idx i] = Inl (KeyError ''path'')"
  using assms(3-) by (simp add: process_v2_entry [OF assms(1,2)])

lemma process_v2_no_id:
  assumes "manifest st = JObj m"
    and "deref (JObj m) [Key ''pipelines'', Idx i] = Some (JObj e)"
    and "map_of e mpp_key = Some (JObj d)"
    and "map_of d ''path'' = Some (JStr p)"
    and "map_of d ''id'' = None"
    and "fs (os_path_join (cwd st) p) = Some (JObj imp)"
    and "items_method (get_or imp ''sources'' (JObj [])) = Inr its"
    and "merge_sources (get_or m ''sources'' (JObj [])) its = Inr sources'"
  shows "manifest_process_v2 fs st [Key ''pipelines'', Idx i] = Inl (KeyError ''id'')"
  using assms(3-) by (simp add: process_v2_entry [OF assms(1,2)] get_or_def)

lemma process_v1_no_path:
  assumes "deref (manifest st) l = Some (JObj node)"
    and "map_of node mpp_key = Some (JObj d)"
    and "map_of d ''path'' = None"
  shows "manifest_process_v1 fs st l = Inl (KeyError ''path'')"
  using assms by (simp add: manifest_process_v1_def manifest_enter_obj)

lemma process_v2_found:
  assumes "manifest st = JObj m"
    and "deref (JObj m) [Key ''pipelines'', Idx i] = Some (JObj e)"
    and "map_of e mpp_key = Some (JObj d)"
    and "map_of d ''path'' = Some (JStr p)"
    and "map_of d ''id'' = Some pid"
    and "fs (os_path_join (cwd st) p) = Some (JObj imp)"
    and "items_method (get_or imp ''sources'' (JObj [])) = Inr its"
    and "merge_sources (get_or m ''sources'' (JObj [])) its = Inr sources'"
    and "get_or imp ''pipelines'' (JArr []) = JArr (pre @ JObj t # post)"
    and "list_all (other_name pid) pre"
    and "map_of t ''name'' = Some n" and "py_eq n pid"
  shows "manifest_process_v2 fs st [Key ''pipelines'', Idx i] =
           Inr (st\<lparr>manifest :=
                  assign (JObj (AList.update ''sources'' sources' m)) [Key ''pipelines'', Idx i]
                    (JObj (AList.delete mpp_key (dict_update e t)))\<rparr>)"
proof -
  have f: "find_pipeline (pre @ JObj t # post) pid = Inr (JObj t)"
    using assms(10-12) by (auto intro: find_pipeline_first)
  have "t \<noteq> []" using assms(11) by auto
  moreover have "mpp_key \<in> fst ` set (dict_update e t)"
    using assms(3) by (auto simp: keys_dict_update dest: map_of_SomeD intro: rev_image_eqI)
  ultimately show ?thesis
    using assms(3-9) f
    by (simp add: process_v2_entry [OF assms(1,2)] get_or_def)
qed

lemma deref_update_sources:
  "deref (JObj m) [Key ''pipelines'', Idx i] = Some x \<Longrightarrow>
   deref (JObj (AList.update ''sources'' s m)) [Key ''pipelines'', Idx i] = Some x"
  by (auto simp: AList.update_conv' split: option.splits)

section \<open>The pipeline is not found (version 2)\<close>

text \<open>
  C7. A version 2 run reaches, after the to-do entries \<open>ls\<close>, the pipeline \<open>e\<close> at
  index \<open>i\<close>, whose import names the file \<open>p\<close> and the pipeline \<open>pid\<close>. The file
  loads, its sources merge, and every pipeline of the file has a name, none of
  them equal to \<open>pid\<close> (the file may have no \<^verbatim>\<open>pipelines\<close> at all). Then the run
  ends with the \<^verbatim>\<open>ValueError\<close> of line 197, which carries \<open>pid\<close> and \<open>p\<close>, and nothing
  is written.
\<close>

theorem C7_pipeline_not_found:
  assumes "get_method src ''version'' (JStr ''1'') = Inr (JStr ''2'')"
    and "manifest_parse_v2 sti src = Inr stp"
    and "manifest_todo stp = ls @ [Key ''pipelines'', Idx i] # rest"
    and "process_todos_v2 fs stp ls = Inr st"
    and "manifest st = JObj m"
    and "deref (JObj m) [Key ''pipelines'', Idx i] = Some (JObj e)"
    and "map_of e mpp_key = Some (JObj d)"
    and "map_of d ''path'' = Some (JStr p)"
    and "map_of d ''id'' = Some pid"
    and "fs (os_path_join (cwd st) p) = Some (JObj imp)"
    and "items_method (get_or imp ''sources'' (JObj [])) = Inr its"
    and "merge_sources (get_or m ''sources'' (JObj [])) its = Inr sources'"
    and "get_or imp ''pipelines'' (JArr []) = JArr ps"
    and "list_all (other_name pid) ps"
  shows "main_process fs sti src = Inl (PipelineNotFound pid p)"
proof -
  have "manifest_process_v2 fs st [Key ''pipelines'', Idx i] = Inl (PipelineNotFound pid p)"
    using assms(5-14) by (rule process_v2_not_found)
  with assms(1-4) show ?thesis by (rule main_process_v2_raises)
qed

text \<open>The theorem at an import of \<^verbatim>\<open>stage2\<close> from a file that only has \<^verbatim>\<open>stage1\<close>.\<close>

theorem C7_witness:
  "main_process
     (\<lambda>p. if p = ''./base.json''
          then Some (JObj [(''pipelines'', JArr [JObj [(''name'', JStr ''stage1''),
                                                       (''type'', JStr ''org.osbuild.foo'')]]),
                           (''sources'', JObj [(''org.osbuild.curl'',
                                                JObj [(''items'', JObj [(''a'', JObj [])])])])])
          else None)
     (main_state None)
     (JObj [(''version'', JStr ''2''),
            (''pipelines'', JArr [JObj [(''name'', JStr ''build''),
                                        (mpp_key, JObj [(''path'', JStr ''base.json''),
                                                        (''id'', JStr ''stage2'')])]])])
   = Inl (PipelineNotFound (JStr ''stage2'') ''base.json'')"
  by (rule C7_pipeline_not_found
        [where ls = "[]" and rest = "[]" and i = 0
           and ps = "[JObj [(''name'', JStr ''stage1''), (''type'', JStr ''org.osbuild.foo'')]]"
           and imp = "[(''pipelines'', JArr [JObj [(''name'', JStr ''stage1''),
                                                   (''type'', JStr ''org.osbuild.foo'')]]),
                       (''sources'', JObj [(''org.osbuild.curl'',
                                            JObj [(''items'', JObj [(''a'', JObj [])])])])]"
           and its = "[(''org.osbuild.curl'', JObj [(''items'', JObj [(''a'', JObj [])])])]"
           and sources' = "JObj [(''org.osbuild.curl'', JObj [(''items'', JObj [(''a'', JObj [])])])]"
           and d = "[(''path'', JStr ''base.json''), (''id'', JStr ''stage2'')]"
           and e = "[(''name'', JStr ''build''),
                     (mpp_key, JObj [(''path'', JStr ''base.json''), (''id'', JStr ''stage2'')])]"
           and m = "[(''version'', JStr ''2''),
                     (''pipelines'', JArr [JObj [(''name'', JStr ''build''),
                                                 (mpp_key, JObj [(''path'', JStr ''base.json''),
                                                                 (''id'', JStr ''stage2'')])]])]"
           and st = "\<lparr>cwd = ''.'',
                       manifest = JObj [(''version'', JStr ''2''),
                         (''pipelines'', JArr [JObj [(''name'', JStr ''build''),
                                                     (mpp_key, JObj [(''path'', JStr ''base.json''),
                                                                     (''id'', JStr ''stage2'')])]])],
                       manifest_urls = None,
                       manifest_todo = [[Key ''pipelines'', Idx 0]]\<rparr>"
           and stp = "\<lparr>cwd = ''.'',
                       manifest = JObj [(''version'', JStr ''2''),
                         (''pipelines'', JArr [JObj [(''name'', JStr ''build''),
                                                     (mpp_key, JObj [(''path'', JStr ''base.json''),
                                                                     (''id'', JStr ''stage2'')])]])],
                       manifest_urls = None,
                       manifest_todo = [[Key ''pipelines'', Idx 0]]\<rparr>"])
     (simp_all add: run_defs get_or_def other_name_def)

section \<open>The pipeline is spliced in (version 2)\<close>

text \<open>
  C6. The state \<open>st\<close> holds the pipeline \<open>e\<close> at index \<open>i\<close>, whose import names the
  file \<open>p\<close> and the pipeline \<open>pid\<close>. The file loads, its sources merge, and \<open>t\<close> is
  its first pipeline named \<open>pid\<close>. Then the import succeeds, and the pipeline at
  index \<open>i\<close> becomes \<open>e'\<close>: it has no \<^verbatim>\<open>mpp-import-pipeline\<close> key, every other field
  of \<open>t\<close> with the value \<open>t\<close> gives it, and every other field that only \<open>e\<close> has
  with the value of \<open>e\<close>.
\<close>

theorem C6_overlay:
  assumes "manifest st = JObj m"
    and "deref (JObj m) [Key ''pipelines'', Idx i] = Some (JObj e)"
    and "map_of e mpp_key = Some (JObj d)"
    and "map_of d ''path'' = Some (JStr p)"
    and "map_of d ''id'' = Some pid"
    and "fs (os_path_join (cwd st) p) = Some (JObj imp)"
    and "items_method (get_or imp ''sources'' (JObj [])) = Inr its"
    and "merge_sources (get_or m ''sources'' (JObj [])) its = Inr sources'"
    and "get_or imp ''pipelines'' (JArr []) = JArr (pre @ JObj t # post)"
    and "list_all (other_name pid) pre"
    and "map_of t ''name'' = Some n" and "py_eq n pid"
    and "distinct (map fst t)"
  shows "\<exists>st' e'.
           manifest_process_v2 fs st [Key ''pipelines'', Idx i] = Inr st' \<and>
           deref (manifest st') [Key ''pipelines'', Idx i] = Some (JObj e') \<and>
           mpp_key \<notin> set (map fst e') \<and>
           (\<forall>k. map_of e' k =
                  (if k = mpp_key then None
                   else case map_of t k of Some v \<Rightarrow> Some v | None \<Rightarrow> map_of e k))"
proof -
  let ?l = "[Key ''pipelines'', Idx i]"
  let ?e' = "AList.delete mpp_key (dict_update e t)"
  let ?st' = "st\<lparr>manifest := assign (JObj (AList.update ''sources'' sources' m)) ?l (JObj ?e')\<rparr>"
  have run: "manifest_process_v2 fs st ?l = Inr ?st'"
    using assms(1-12) by (rule process_v2_found)
  have "deref (manifest ?st') ?l = Some (JObj ?e')"
    using deref_assign_same [OF deref_update_sources [OF assms(2)]] by simp
  moreover have "mpp_key \<notin> set (map fst ?e')"
    by (simp add: AList.delete_notin_dom)
  moreover have "map_of ?e' k =
      (if k = mpp_key then None
       else case map_of t k of Some v \<Rightarrow> Some v | None \<Rightarrow> map_of e k)" for k
    by (simp add: AList.delete_conv' map_of_dict_update [OF assms(13)] map_add_def)
  ultimately show ?thesis using run by blast
qed

text \<open>The theorem at an import of \<^verbatim>\<open>stage1\<close> into a pipeline that has a \<^verbatim>\<open>runner\<close>.\<close>

theorem C6_witness:
  "\<exists>st' e'.
     manifest_process_v2
       (\<lambda>p. if p = ''./base.json''
            then Some (JObj [(''pipelines'', JArr [JObj [(''name'', JStr ''stage1''),
                                                         (''type'', JStr ''org.osbuild.foo'')]])])
            else None)
       \<lparr>cwd = ''.'',
        manifest = JObj [(''version'', JStr ''2''),
          (''pipelines'', JArr [JObj [(''name'', JStr ''build''),
                                      (mpp_key, JObj [(''path'', JStr ''base.json''),
                                                      (''id'', JStr ''stage1'')]),
                                      (''runner'', JStr ''r'')]])],
        manifest_urls = None,
        manifest_todo = [[Key ''pipelines'', Idx 0]]\<rparr>
       [Key ''pipelines'', Idx 0] = Inr st' \<and>
     deref (manifest st') [Key ''pipelines'', Idx 0] = Some (JObj e') \<and>
     mpp_key \<notin> set (map fst e') \<and>
     (\<forall>k. map_of e' k =
            (if k = mpp_key then None
             else case map_of [(''name'', JStr ''stage1''), (''type'', JStr ''org.osbuild.foo'')] k of
                    Some v \<Rightarrow> Some v
                  | None \<Rightarrow> map_of [(''name'', JStr ''build''),
                                     (mpp_key, JObj [(''path'', JStr ''base.json''),
                                                     (''id'', JStr ''stage1'')]),
                                     (''runner'', JStr ''r'')] k))"
  by (rule C6_overlay
        [where pre = "[]" and post = "[]" and p = "''base.json''" and pid = "JStr ''stage1''"
           and n = "JStr ''stage1''"
           and imp = "[(''pipelines'', JArr [JObj [(''name'', JStr ''stage1''),
                                                   (''type'', JStr ''org.osbuild.foo'')]])]"
           and its = "[]" and sources' = "JObj []"
           and d = "[(''path'', JStr ''base.json''), (''id'', JStr ''stage1'')]"
           and m = "[(''version'', JStr ''2''),
                     (''pipelines'', JArr [JObj [(''name'', JStr ''build''),
                                      (mpp_key, JObj [(''path'', JStr ''base.json''),
                                                      (''id'', JStr ''stage1'')]),
                                      (''runner'', JStr ''r'')]])]"])
     (simp_all add: run_defs get_or_def other_name_def)

section \<open>Merging the sources (version 2)\<close>

lemma update_method_Inr:
  "update_method a b = Inr x \<Longrightarrow> \<exists>kvs. a = JObj kvs \<and> x = JObj (dict_update kvs (entries b))"
  by (induction a b rule: update_method.induct) (auto simp: dict_update_def)

lemma manifest_enter_Inr:
  "manifest_enter a k d = Inr (a', v) \<Longrightarrow>
   \<exists>kvs. a = JObj kvs \<and> v = get_or kvs k d \<and>
         a' = JObj (if map_of kvs k = None then AList.update k d kvs else kvs)"
  by (cases a) (auto simp: manifest_enter_obj manifest_enter_not_obj get_or_def split: option.splits)

lemma enter_then_update:
  "(case manifest_enter (JObj t) f (JObj []) of
      Inl e \<Rightarrow> Inl e
    | Inr (t1, v) \<Rightarrow> via t1 [Key f] (\<lambda>x. update_method x new)) =
   (case update_method (get_or t f (JObj [])) new of
      Inl e \<Rightarrow> Inl e
    | Inr x \<Rightarrow> Inr (JObj (AList.update f x t)))"
  by (cases "map_of t f")
     (auto simp: manifest_enter_obj via_def get_or_def AList.update_conv' split: sum.splits)

lemma merge_source_obj:
  assumes "map_of ss k = Some (JObj t)" and "t \<noteq> []"
  shows "merge_source (JObj ss) (k, JObj d) =
     (case (if truthy (get_or d ''options'' JNull)
            then (case update_method (get_or t ''options'' (JObj [])) (get_or d ''options'' JNull) of
                    Inl e \<Rightarrow> Inl e
                  | Inr x \<Rightarrow> Inr (AList.update ''options'' x t))
            else Inr t) of
        Inl e \<Rightarrow> Inl e
      | Inr t2 \<Rightarrow>
          (case update_method (get_or t2 ''items'' (JObj [])) (get_or d ''items'' (JObj [])) of
             Inl e \<Rightarrow> Inl e
           | Inr x \<Rightarrow> Inr (JObj (AList.update k (JObj (AList.update ''items'' x t2)) ss))))"
proof (cases "truthy (get_or d ''options'' JNull)")
  case True
  then obtain opt where o: "map_of d ''options'' = Some opt" "get_or d ''options'' JNull = opt"
    by (cases "map_of d ''options''") (auto simp: get_or_def)
  have "merge_source (JObj ss) (k, JObj d) =
     (case (case manifest_enter (JObj t) ''options'' (JObj []) of
              Inl e \<Rightarrow> Inl e
            | Inr (t1, v) \<Rightarrow> via t1 [Key ''options''] (\<lambda>x. update_method x opt)) of
        Inl e \<Rightarrow> Inl e
      | Inr t2 \<Rightarrow>
          (case (case manifest_enter t2 ''items'' (JObj []) of
                   Inl e \<Rightarrow> Inl e
                 | Inr (t3, v) \<Rightarrow>
                     via t3 [Key ''items''] (\<lambda>x. update_method x (get_or d ''items'' (JObj [])))) of
             Inl e \<Rightarrow> Inl e
           | Inr t4 \<Rightarrow> setitem (JObj ss) k t4))"
    using assms True o
    by (simp add: merge_source_def get_or_def split: sum.splits prod.splits)
  then show ?thesis using True o
    by (simp add: enter_then_update split: sum.splits)
next
  case False
  have "merge_source (JObj ss) (k, JObj d) =
          (case (case manifest_enter (JObj t) ''items'' (JObj []) of
                   Inl e \<Rightarrow> Inl e
                 | Inr (t3, v) \<Rightarrow>
                     via t3 [Key ''items''] (\<lambda>x. update_method x (get_or d ''items'' (JObj [])))) of
             Inl e \<Rightarrow> Inl e
           | Inr t4 \<Rightarrow> setitem (JObj ss) k t4)"
    using assms False
    by (simp add: merge_source_def get_or_def split: sum.splits prod.splits)
  then show ?thesis using False
    by (simp add: enter_then_update split: sum.splits)
qed

lemma merge_source_truthy:
  assumes tg: "map_of ss k = Some target" "truthy target"
    and run: "merge_source (JObj ss) (k, desc) = Inr s'"
  shows "\<exists>t d. target = JObj t \<and> desc = JObj d \<and>
               s' = JObj (AList.update k (JObj (merged t d)) ss)"
proof -
  from run tg obtain d where d: "desc = JObj d"
    by (cases desc) (auto simp: merge_source_def split: sum.splits)
  from run tg d obtain t where t: "target = JObj t"
    by (cases target)
       (auto simp: merge_source_def manifest_enter_not_obj split: sum.splits if_splits)
  from tg t have "t \<noteq> []" by simp
  from run [unfolded d merge_source_obj [OF tg(1) [unfolded t] this]]
  have "s' = JObj (AList.update k (JObj (merged t d)) ss)"
    by (auto simp: merged_def Let_def split: sum.splits if_splits dest!: update_method_Inr)
  with d t show ?thesis by blast
qed

lemma merge_source_falsy:
  assumes "\<not> truthy (get_or ss k JNull)"
  shows "merge_source (JObj ss) (k, desc) = Inr (JObj (AList.update k desc ss))"
  using assms by (simp add: merge_source_def get_or_def)

lemma merge_source_shape:
  assumes "merge_source (JObj ss) (k, desc) = Inr s'"
  shows "\<exists>x. s' = JObj (AList.update k x ss)"
proof (cases "truthy (get_or ss k JNull)")
  case True
  then obtain target where "map_of ss k = Some target" "truthy target"
    by (cases "map_of ss k") (auto simp: get_or_def)
  from merge_source_truthy [OF this assms] show ?thesis by blast
next
  case False
  from assms merge_source_falsy [OF False, of desc] show ?thesis by auto
qed

lemma merge_sources_other:
  "k \<notin> fst ` set its \<Longrightarrow> merge_sources (JObj ss) its = Inr s' \<Longrightarrow>
   \<exists>ss'. s' = JObj ss' \<and> map_of ss' k = map_of ss k"
proof (induction its arbitrary: ss)
  case Nil
  then show ?case by auto
next
  case (Cons item its)
  obtain k1 d1 where item: "item = (k1, d1)" by (cases item)
  from Cons.prems(2) item obtain s1 where
    s1: "merge_source (JObj ss) (k1, d1) = Inr s1" and r: "merge_sources s1 its = Inr s'"
    by (auto split: sum.splits)
  from merge_source_shape [OF s1] obtain x where x: "s1 = JObj (AList.update k1 x ss)" by blast
  from Cons.prems(1) item have "k \<noteq> k1" "k \<notin> fst ` set its" by auto
  with Cons.IH [OF \<open>k \<notin> fst ` set its\<close> r [unfolded x]] show ?case
    by (auto simp: AList.update_conv')
qed

lemma merge_sources_at:
  assumes "merge_sources (JObj ss) its = Inr s'"
    and "distinct (map fst its)"
    and "(k, desc) \<in> set its"
  shows "\<exists>ss0 ss1 ss'. s' = JObj ss' \<and> map_of ss0 k = map_of ss k \<and>
           merge_source (JObj ss0) (k, desc) = Inr (JObj ss1) \<and> map_of ss1 k = map_of ss' k"
  using assms
proof (induction its arbitrary: ss)
  case Nil
  then show ?case by simp
next
  case (Cons item its)
  obtain k1 d1 where item: "item = (k1, d1)" by (cases item)
  from Cons.prems(1) item obtain s1 where
    s1: "merge_source (JObj ss) (k1, d1) = Inr s1" and r: "merge_sources s1 its = Inr s'"
    by (auto split: sum.splits)
  from merge_source_shape [OF s1] obtain x where x: "s1 = JObj (AList.update k1 x ss)" by blast
  from Cons.prems(2) item have d: "distinct (map fst its)" and n: "k1 \<notin> fst ` set its" by auto
  show ?case
  proof (cases "(k, desc) = (k1, d1)")
    case True
    from merge_sources_other [OF n r [unfolded x]] obtain ss' where
      "s' = JObj ss'" "map_of ss' k1 = map_of (AList.update k1 x ss) k1" by blast
    with True s1 x show ?thesis by auto
  next
    case False
    with Cons.prems(3) item have in_rest: "(k, desc) \<in> set its" by auto
    with n have "k \<noteq> k1" by (auto simp: image_iff)
    from Cons.IH [OF r [unfolded x] d in_rest] obtain ss0 ss1 ss' where
      "s' = JObj ss'" "map_of ss0 k = map_of (AList.update k1 x ss) k"
      "merge_source (JObj ss0) (k, desc) = Inr (JObj ss1)" "map_of ss1 k = map_of ss' k"
      by blast
    with \<open>k \<noteq> k1\<close> show ?thesis by (auto simp: AList.update_conv')
  qed
qed

lemma entries_get_or_default:
  "entries (get_or d f JNull) = entries (get_or d f (JObj []))"
  by (simp add: get_or_def split: option.splits)

lemma get_or_update:
  "get_or (AList.update k v al) k' d = (if k' = k then v else get_or al k' d)"
  by (simp add: get_or_def AList.update_conv')

lemma merged_fields:
  assumes "distinct (map fst (entries (get_or d ''options'' (JObj []))))"
    and "distinct (map fst (entries (get_or d ''items'' (JObj []))))"
  shows "f \<noteq> ''options'' \<Longrightarrow> f \<noteq> ''items'' \<Longrightarrow> map_of (merged t d) f = map_of t f"
    and "map_of (entries (get_or (merged t d) ''items'' (JObj []))) =
           map_of (entries (get_or t ''items'' (JObj []))) ++
           map_of (entries (get_or d ''items'' (JObj [])))"
    and "map_of (entries (get_or (merged t d) ''options'' (JObj []))) =
           map_of (entries (get_or t ''options'' (JObj []))) ++
           map_of (entries (get_or d ''options'' (JObj [])))"
    and "map_of (merged t d) ''items'' = Some (get_or (merged t d) ''items'' (JObj []))"
    and "is_obj (get_or (merged t d) ''items'' (JObj []))"
proof -
  show "f \<noteq> ''options'' \<Longrightarrow> f \<noteq> ''items'' \<Longrightarrow> map_of (merged t d) f = map_of t f"
    by (simp add: merged_def Let_def AList.update_conv')
  show "map_of (entries (get_or (merged t d) ''items'' (JObj []))) =
           map_of (entries (get_or t ''items'' (JObj []))) ++
           map_of (entries (get_or d ''items'' (JObj [])))"
    using assms(2)
    by (simp add: merged_def Let_def get_or_update map_of_dict_update)
  show "map_of (entries (get_or (merged t d) ''options'' (JObj []))) =
           map_of (entries (get_or t ''options'' (JObj []))) ++
           map_of (entries (get_or d ''options'' (JObj [])))"
  proof (cases "truthy (get_or d ''options'' JNull)")
    case True
    then show ?thesis using assms(1)
      by (simp add: merged_def Let_def get_or_update entries_get_or_default map_of_dict_update)
  next
    case False
    then have "entries (get_or d ''options'' (JObj [])) = []"
      by (cases "get_or d ''options'' JNull")
         (auto simp: get_or_def split: option.splits)
    then show ?thesis using False
      by (simp add: merged_def Let_def get_or_update)
  qed
  show "map_of (merged t d) ''items'' = Some (get_or (merged t d) ''items'' (JObj []))"
    by (simp add: merged_def Let_def AList.update_conv' get_or_update)
  show "is_obj (get_or (merged t d) ''items'' (JObj []))"
    by (simp add: merged_def Let_def get_or_update)
qed

lemma update_absent: "map_of al k = None \<Longrightarrow> AList.update k v al = al @ [(k, v)]"
  by (induction al) (auto split: if_splits)

text \<open>
  C3, as amended. The loop of lines 171 to 183 has merged the sources \<open>its\<close> of
  an import into the sources \<open>ss\<close> of the manifest, and \<open>(k, desc)\<close> is one of
  them. If the manifest had no descriptor for the kind \<open>k\<close>, or a falsy one (an
  empty dict, \<^verbatim>\<open>null\<close>), its descriptor is now \<open>desc\<close> itself. Otherwise its
  descriptor \<open>t\<close> was a dict and has become \<open>t'\<close>: every field other than
  \<^verbatim>\<open>options\<close> and \<^verbatim>\<open>items\<close> is as it was in \<open>t\<close>, and the \<^verbatim>\<open>items\<close> and the \<^verbatim>\<open>options\<close>
  of \<open>t'\<close> are those of \<open>t\<close> overridden key by key by those of \<open>desc\<close> (\<open>++\<close>
  prefers its right argument), hence their union when the keys are disjoint.
  The keys of a Python dict are distinct.
\<close>

theorem C3_merge_sources:
  assumes "merge_sources (JObj ss) its = Inr s'"
    and "distinct (map fst its)"
    and "(k, desc) \<in> set its"
    and "distinct (map fst (entries (get_or (entries desc) ''options'' (JObj []))))"
    and "distinct (map fst (entries (get_or (entries desc) ''items'' (JObj []))))"
  shows "\<exists>ss'. s' = JObj ss' \<and>
     (if \<not> truthy (get_or ss k JNull) then map_of ss' k = Some desc
      else \<exists>t d t'.
             map_of ss k = Some (JObj t) \<and> desc = JObj d \<and> map_of ss' k = Some (JObj t') \<and>
             (\<forall>f. f \<noteq> ''options'' \<and> f \<noteq> ''items'' \<longrightarrow> map_of t' f = map_of t f) \<and>
             map_of (entries (get_or t' ''items'' (JObj []))) =
               map_of (entries (get_or t ''items'' (JObj []))) ++
               map_of (entries (get_or d ''items'' (JObj []))) \<and>
             map_of (entries (get_or t' ''options'' (JObj []))) =
               map_of (entries (get_or t ''options'' (JObj []))) ++
               map_of (entries (get_or d ''options'' (JObj []))))"
proof -
  from merge_sources_at [OF assms(1-3)] obtain ss0 ss1 ss' where
    s': "s' = JObj ss'" and same: "map_of ss0 k = map_of ss k"
    and step: "merge_source (JObj ss0) (k, desc) = Inr (JObj ss1)"
    and res: "map_of ss1 k = map_of ss' k"
    by blast
  from same have g: "get_or ss0 k JNull = get_or ss k JNull" by (simp add: get_or_def)
  show ?thesis
  proof (cases "truthy (get_or ss k JNull)")
    case False
    with g merge_source_falsy [of ss0 k desc] step have "ss1 = AList.update k desc ss0" by simp
    with res have "map_of ss' k = Some desc" by (simp add: AList.update_conv')
    with False s' show ?thesis by simp
  next
    case True
    then obtain target where tg: "map_of ss k = Some target" "truthy target"
      by (cases "map_of ss k") (auto simp: get_or_def)
    from merge_source_truthy [OF tg(1) [folded same] tg(2) step] obtain t d where
      td: "target = JObj t" "desc = JObj d" "ss1 = AList.update k (JObj (merged t d)) ss0"
      by auto
    with res have r: "map_of ss' k = Some (JObj (merged t d))" by (simp add: AList.update_conv')
    from assms(4,5) td have dd: "distinct (map fst (entries (get_or d ''options'' (JObj []))))"
      "distinct (map fst (entries (get_or d ''items'' (JObj []))))" by simp_all
    have "f \<noteq> ''options'' \<and> f \<noteq> ''items'' \<longrightarrow> map_of (merged t d) f = map_of t f" for f
      using merged_fields(1) [OF dd] by blast
    with merged_fields(2,3) [OF dd, of t] tg td r True s' show ?thesis by auto
  qed
qed

text \<open>
  C10. (1) After the loop of lines 171 to 183 has merged the sources \<open>its\<close> of an
  import, every kind \<open>k\<close> of the import for which the manifest held a truthy
  descriptor has a descriptor with an \<^verbatim>\<open>items\<close> key, whose value is a dict.
  (2) When a non-empty descriptor \<open>t\<close> of the manifest has no \<^verbatim>\<open>items\<close>, and the
  descriptor \<open>d\<close> of the import has no \<^verbatim>\<open>items\<close> and no truthy \<^verbatim>\<open>options\<close>, the loop
  body does not raise and appends \<^verbatim>\<open>"items": {}\<close> to \<open>t\<close>.
\<close>

theorem C10_items_key_is_inserted:
  "(merge_sources (JObj ss) its = Inr s' \<and> distinct (map fst its) \<and> (k, desc) \<in> set its \<and>
    truthy (get_or ss k JNull)
    \<longrightarrow> (\<exists>ss' t' i. s' = JObj ss' \<and> map_of ss' k = Some (JObj t') \<and>
                    map_of t' ''items'' = Some (JObj i)))
   \<and>
   (map_of ss k = Some (JObj t) \<and> t \<noteq> [] \<and> map_of t ''items'' = None \<and>
    map_of d ''items'' = None \<and> \<not> truthy (get_or d ''options'' JNull)
    \<longrightarrow> merge_source (JObj ss) (k, JObj d) =
          Inr (JObj (AList.update k (JObj (t @ [(''items'', JObj [])])) ss)))"
proof (intro conjI impI)
  assume a: "merge_sources (JObj ss) its = Inr s' \<and> distinct (map fst its) \<and>
    (k, desc) \<in> set its \<and> truthy (get_or ss k JNull)"
  then obtain ss0 ss1 ss' where
    s': "s' = JObj ss'" and same: "map_of ss0 k = map_of ss k"
    and step: "merge_source (JObj ss0) (k, desc) = Inr (JObj ss1)"
    and res: "map_of ss1 k = map_of ss' k"
    using merge_sources_at [of ss its s' k desc] by blast
  from a obtain target where tg: "map_of ss k = Some target" "truthy target"
    by (cases "map_of ss k") (auto simp: get_or_def)
  from merge_source_truthy [OF tg(1) [folded same] tg(2) step] obtain t d where
    "ss1 = AList.update k (JObj (merged t d)) ss0" by auto
  with res have r: "map_of ss' k = Some (JObj (merged t d))" by (simp add: AList.update_conv')
  have "\<exists>i. map_of (merged t d) ''items'' = Some (JObj i)"
    by (simp add: merged_def Let_def AList.update_conv')
  with r s' show "\<exists>ss' t' i. s' = JObj ss' \<and> map_of ss' k = Some (JObj t') \<and>
                    map_of t' ''items'' = Some (JObj i)" by blast
next
  assume a: "map_of ss k = Some (JObj t) \<and> t \<noteq> [] \<and> map_of t ''items'' = None \<and>
    map_of d ''items'' = None \<and> \<not> truthy (get_or d ''options'' JNull)"
  then have "merge_source (JObj ss) (k, JObj d) =
      Inr (JObj (AList.update k (JObj (AList.update ''items'' (JObj []) t)) ss))"
    by (simp add: merge_source_obj) (simp add: get_or_def dict_update_def)
  with a show "merge_source (JObj ss) (k, JObj d) =
          Inr (JObj (AList.update k (JObj (t @ [(''items'', JObj [])])) ss))"
    by (simp add: update_absent)
qed

text \<open>
  The theorem at a manifest with an item \<^verbatim>\<open>a\<close> and a field \<^verbatim>\<open>secrets\<close>, and an import
  with an item \<^verbatim>\<open>b\<close> and options.
\<close>

theorem C3_witness:
  "\<exists>ss'. JObj [(''org.osbuild.curl'',
                 JObj [(''items'', JObj [(''a'', JObj []), (''b'', JObj [])]),
                       (''secrets'', JStr ''s''),
                       (''options'', JObj [(''x'', JInt 1)])])] = JObj ss' \<and>
     (if \<not> truthy (get_or [(''org.osbuild.curl'',
                              JObj [(''items'', JObj [(''a'', JObj [])]), (''secrets'', JStr ''s'')])]
                     ''org.osbuild.curl'' JNull)
      then map_of ss' ''org.osbuild.curl'' =
             Some (JObj [(''items'', JObj [(''b'', JObj [])]), (''options'', JObj [(''x'', JInt 1)])])
      else \<exists>t d t'.
             map_of [(''org.osbuild.curl'',
                      JObj [(''items'', JObj [(''a'', JObj [])]), (''secrets'', JStr ''s'')])]
               ''org.osbuild.curl'' = Some (JObj t) \<and>
             JObj [(''items'', JObj [(''b'', JObj [])]), (''options'', JObj [(''x'', JInt 1)])] = JObj d \<and>
             map_of ss' ''org.osbuild.curl'' = Some (JObj t') \<and>
             (\<forall>f. f \<noteq> ''options'' \<and> f \<noteq> ''items'' \<longrightarrow> map_of t' f = map_of t f) \<and>
             map_of (entries (get_or t' ''items'' (JObj []))) =
               map_of (entries (get_or t ''items'' (JObj []))) ++
               map_of (entries (get_or d ''items'' (JObj []))) \<and>
             map_of (entries (get_or t' ''options'' (JObj []))) =
               map_of (entries (get_or t ''options'' (JObj []))) ++
               map_of (entries (get_or d ''options'' (JObj []))))"
  by (rule C3_merge_sources
        [where its = "[(''org.osbuild.curl'',
                        JObj [(''items'', JObj [(''b'', JObj [])]),
                              (''options'', JObj [(''x'', JInt 1)])])]"])
     (simp_all add: run_defs get_or_def)

text \<open>
  C3 as stated fails: the manifest has an entry for \<^verbatim>\<open>org.osbuild.curl\<close>, the empty
  descriptor. It is falsy, so line 173 takes it for a new source and line 175
  replaces it by the descriptor of the import as a whole: the result has the
  field \<^verbatim>\<open>mirror\<close>, which a merge of options and items would not copy, and no
  \<^verbatim>\<open>items\<close>, which a merge would insert.
\<close>

theorem C3_empty_descriptor_counterexample:
  "main_process
     (\<lambda>p. if p = ''./base.json''
          then Some (JObj [(''pipelines'', JArr [JObj [(''name'', JStr ''stage1'')]]),
                           (''sources'', JObj [(''org.osbuild.curl'',
                                                JObj [(''mirror'', JStr ''m'')])])])
          else None)
     (main_state None)
     (JObj [(''version'', JStr ''2''),
            (''sources'', JObj [(''org.osbuild.curl'', JObj [])]),
            (''pipelines'', JArr [JObj [(''name'', JStr ''build''),
                                        (mpp_key, JObj [(''path'', JStr ''base.json''),
                                                        (''id'', JStr ''stage1'')])]])])
   = Inr (0, Some (JObj [(''version'', JStr ''2''),
            (''sources'', JObj [(''org.osbuild.curl'', JObj [(''mirror'', JStr ''m'')])]),
            (''pipelines'', JArr [JObj [(''name'', JStr ''stage1'')]])]))"
  by (simp add: run_defs)

text \<open>Both parts at a descriptor with \<^verbatim>\<open>secrets\<close> and an import with \<^verbatim>\<open>mirror\<close> only.\<close>

theorem C10_witness:
  "(\<exists>ss' t' i.
      JObj [(''org.osbuild.curl'', JObj [(''secrets'', JStr ''s''), (''items'', JObj [])])] = JObj ss' \<and>
      map_of ss' ''org.osbuild.curl'' = Some (JObj t') \<and> map_of t' ''items'' = Some (JObj i)) \<and>
   merge_source (JObj [(''org.osbuild.curl'', JObj [(''secrets'', JStr ''s'')])])
     (''org.osbuild.curl'', JObj [(''mirror'', JStr ''m'')])
   = Inr (JObj (AList.update ''org.osbuild.curl''
                  (JObj ([(''secrets'', JStr ''s'')] @ [(''items'', JObj [])]))
                  [(''org.osbuild.curl'', JObj [(''secrets'', JStr ''s'')])]))"
proof (intro conjI)
  show "\<exists>ss' t' i.
      JObj [(''org.osbuild.curl'', JObj [(''secrets'', JStr ''s''), (''items'', JObj [])])] = JObj ss' \<and>
      map_of ss' ''org.osbuild.curl'' = Some (JObj t') \<and> map_of t' ''items'' = Some (JObj i)"
    by (rule C10_items_key_is_inserted
          [where ss = "[(''org.osbuild.curl'', JObj [(''secrets'', JStr ''s'')])]"
             and its = "[(''org.osbuild.curl'', JObj [(''mirror'', JStr ''m'')])]"
             and desc = "JObj [(''mirror'', JStr ''m'')]",
           THEN conjunct1, THEN mp])
       (simp add: run_defs get_or_def)
next
  show "merge_source (JObj [(''org.osbuild.curl'', JObj [(''secrets'', JStr ''s'')])])
     (''org.osbuild.curl'', JObj [(''mirror'', JStr ''m'')])
   = Inr (JObj (AList.update ''org.osbuild.curl''
                  (JObj ([(''secrets'', JStr ''s'')] @ [(''items'', JObj [])]))
                  [(''org.osbuild.curl'', JObj [(''secrets'', JStr ''s'')])]))"
    by (rule C10_items_key_is_inserted [THEN conjunct2, THEN mp]) (simp add: get_or_def)
qed

section \<open>The order of the urls (version 1)\<close>

lemma get_sort_key_Inr: "get_sort_key item = Inr k \<Longrightarrow> k = url_value (snd item)"
  by (cases item rule: get_sort_key.cases) (auto simp: get_or_def split: option.splits)

lemma sort_keys_Inr: "sort_keys its = Inr ks \<Longrightarrow> ks = map (\<lambda>it. url_value (snd it)) its"
  by (induction its arbitrary: ks) (auto split: sum.splits dest: get_sort_key_Inr)

lemma is_str_the_str: "is_str j \<Longrightarrow> JStr (the_str j) = j"
  by (cases j) auto

lemma sorted_by_url:
  assumes "list_all is_str (map (\<lambda>it. url_value (snd it)) its)"
  shows "sorted_wrt by_url
           (map snd (sort_key fst (zip (map the_str (map (\<lambda>it. url_value (snd it)) its)) its)))"
proof -
  let ?zs = "zip (map the_str (map (\<lambda>it. url_value (snd it)) its)) its"
  have key: "JStr (fst z) = url_value (snd (snd z))" if "z \<in> set ?zs" for z
  proof -
    from that obtain i where i: "i < length its" "z = ?zs ! i"
      by (auto simp: in_set_conv_nth)
    then have z: "z = (the_str (url_value (snd (its ! i))), its ! i)" by simp
    from assms i have "is_str (url_value (snd (its ! i)))"
      by (auto simp: list_all_iff)
    with z show ?thesis by (simp add: is_str_the_str)
  qed
  have "sorted (map fst (sort_key fst ?zs))" by (rule sorted_sort_key)
  then have "sorted_wrt (\<lambda>z z'. fst z \<le> fst z') (sort_key fst ?zs)"
    by (simp add: sorted_wrt_map)
  then have "sorted_wrt (\<lambda>z z'. by_url (snd z) (snd z')) (sort_key fst ?zs)"
  proof (rule sorted_wrt_mono_rel [rotated])
    fix z z' assume "z \<in> set (sort_key fst ?zs)" "z' \<in> set (sort_key fst ?zs)" "fst z \<le> fst z'"
    then have "z \<in> set ?zs" "z' \<in> set ?zs" by simp_all
    from key [OF this(1)] key [OF this(2)] \<open>fst z \<le> fst z'\<close>
    show "by_url (snd z) (snd z')"
      by (metis by_url_def url_le.simps(1))
  qed
  then show ?thesis by (simp add: sorted_wrt_map)
qed

lemma sort_urls_sorted:
  assumes "sort_urls urls = Inr urls'"
  shows "sorted_wrt by_url (entries urls') \<and> mset (entries urls') = mset (entries urls) \<and>
         is_obj urls' = is_obj urls"
proof (cases "truthy urls")
  case False
  with assms have "urls' = urls" by (simp add: sort_urls_def)
  moreover from False have "entries urls = []" by (cases urls) auto
  ultimately show ?thesis by simp
next
  case True
  with assms obtain its where its: "urls = JObj its"
    by (cases urls) (auto simp: sort_urls_def)
  with assms True obtain ks where ks: "sort_keys its = Inr ks"
    by (auto simp: sort_urls_def split: sum.splits)
  note k = sort_keys_Inr [OF ks]
  show ?thesis
  proof (cases "length its \<le> 1")
    case True
    with assms its ks \<open>truthy urls\<close> have "urls' = JObj its" by (simp add: sort_urls_def)
    moreover from True have "sorted_wrt by_url its"
      by (cases its) (auto simp: le_Suc_eq)
    ultimately show ?thesis using its by simp
  next
    case False
    with assms its ks \<open>truthy urls\<close> have all: "list_all is_str ks"
      and u: "urls' = JObj (map snd (sort_key fst (zip (map the_str ks) its)))"
      by (auto simp: sort_urls_def split: if_splits)
    have "length (map the_str ks) = length its" using k by simp
    then have "map snd (zip (map the_str ks) its) = its" by (rule map_snd_zip)
    then have "mset (map snd (sort_key fst (zip (map the_str ks) its))) = mset its"
      by (metis mset_map mset_sort)
    with sorted_by_url [OF all [unfolded k]] u k its show ?thesis by simp
  qed
qed

lemma process_v1_state:
  "manifest_process_v1 fs st l = Inr st' \<Longrightarrow> \<exists>m. st' = st\<lparr>manifest := m\<rparr>"
  unfolding manifest_process_v1_def
  by (auto split: option.splits sum.splits prod.splits if_splits)

lemma process_todos_v1_urls:
  "process_todos_v1 fs st ls = Inr st' \<Longrightarrow> manifest_urls st' = manifest_urls st"
proof (induction ls arbitrary: st)
  case Nil
  then show ?case by simp
next
  case (Cons l ls)
  then obtain st1 where a: "manifest_process_v1 fs st l = Inr st1"
    and b: "process_todos_v1 fs st1 ls = Inr st'"
    by (auto split: sum.splits)
  from process_v1_state [OF a] Cons.IH [OF b] show ?case by auto
qed

lemma parse_v1_urls:
  "manifest_parse_v1 st src = Inr st' \<Longrightarrow> manifest_urls st' = Some urls_link"
  unfolding manifest_parse_v1_def
  by (auto simp: Let_def split: sum.splits prod.splits)

lemma import_v1_urls:
  "manifest_import_v1 fs st src = Inr st' \<Longrightarrow> manifest_urls st' = Some urls_link"
  unfolding manifest_import_v1_def
  by (auto split: sum.splits dest!: parse_v1_urls process_todos_v1_urls)

text \<open>
  C8. A version 1 run that writes a manifest writes the manifest \<open>st\<close> of the
  import with the object at \<^verbatim>\<open>sources\<close>, \<^verbatim>\<open>org.osbuild.files\<close>, \<^verbatim>\<open>urls\<close> replaced:
  \<open>before\<close> becomes \<open>after\<close>. The entries of \<open>after\<close> are in ascending order of
  their URL values, and they are the entries of \<open>before\<close>, keys and values
  unchanged.
\<close>

theorem C8_urls_sorted:
  assumes "get_method src ''version'' (JStr ''1'') = Inr (JStr ''1'')"
    and "main_process fs sti src = Inr (rc, out)"
  shows "\<exists>st before after.
           manifest_import_v1 fs sti src = Inr st \<and>
           deref (manifest st) urls_link = Some before \<and>
           out = Some (assign (manifest st) urls_link after) \<and>
           deref (assign (manifest st) urls_link after) urls_link = Some after \<and>
           sorted_wrt by_url (entries after) \<and>
           mset (entries after) = mset (entries before) \<and>
           is_obj after = is_obj before"
proof -
  from assms obtain st st2 where imp: "manifest_import_v1 fs sti src = Inr st"
    and srt: "sort_urls_state st = Inr st2" and out: "out = Some (manifest st2)"
    by (auto simp: main_process_def split: sum.splits)
  from import_v1_urls [OF imp] srt obtain before after where
    b: "deref (manifest st) urls_link = Some before"
    and a: "sort_urls before = Inr after"
    and m: "manifest st2 = assign (manifest st) urls_link after"
    by (auto simp: sort_urls_state_def via_def split: option.splits sum.splits)
  from sort_urls_sorted [OF a] deref_assign_same [OF b, of after] imp b out m
  show ?thesis by auto
qed

text \<open>
  The theorem at a manifest whose \<^verbatim>\<open>urls\<close> hold \<^verbatim>\<open>https://b\<close> before a composite
  descriptor with the \<^verbatim>\<open>url\<close> \<^verbatim>\<open>https://a\<close>.
\<close>

theorem C8_witness:
  "\<exists>st before after.
     manifest_import_v1 (\<lambda>p. None) (main_state None)
       (JObj [(''sources'', JObj [(files_key, JObj [(''urls'',
                JObj [(''k1'', JStr ''https://b''),
                      (''k0'', JObj [(''url'', JStr ''https://a''), (''etag'', JStr ''x'')])])])])])
       = Inr st \<and>
     deref (manifest st) urls_link = Some before \<and>
     Some (JObj [(''sources'', JObj [(files_key, JObj [(''urls'',
                JObj [(''k0'', JObj [(''url'', JStr ''https://a''), (''etag'', JStr ''x'')]),
                      (''k1'', JStr ''https://b'')])])])])
       = Some (assign (manifest st) urls_link after) \<and>
     deref (assign (manifest st) urls_link after) urls_link = Some after \<and>
     sorted_wrt by_url (entries after) \<and>
     mset (entries after) = mset (entries before) \<and>
     is_obj after = is_obj before"
  by (rule C8_urls_sorted [where rc = 0]) (simp_all add: run_defs)

section \<open>A version 1 manifest without an import\<close>

lemma assign_entered:
  "assign (JObj (if map_of kvs k = None then AList.update k d kvs else kvs)) [Key k] x =
   JObj (AList.update k x kvs)"
  by (auto simp: AList.update_conv' split: option.splits)

lemma update_get_or_present:
  "map_of kvs k \<noteq> None \<Longrightarrow> AList.update k (get_or kvs k d) kvs = kvs"
  by (auto simp: get_or_def intro: AList.update_triv)

lemma parse_v1_Inr:
  assumes "manifest_parse_v1 sti src = Inr st"
  shows "manifest st = with_defaults src \<and> manifest_urls st = Some urls_link \<and> cwd st = cwd sti"
    and "find_todo (with_defaults src) [] = Inr (manifest_todo st)"
    and "is_obj src"
    and "is_obj (get_or (entries src) ''sources'' (JObj []))"
    and "is_obj (get_or (entries (get_or (entries src) ''sources'' (JObj []))) files_key (JObj []))"
proof -
  from assms obtain m1 sources where
    e1: "manifest_enter src ''sources'' (JObj []) = Inr (m1, sources)"
    by (auto simp: manifest_parse_v1_def split: sum.splits)
  from manifest_enter_Inr [OF e1] obtain s where s: "src = JObj s"
    "sources = get_or s ''sources'' (JObj [])"
    "m1 = JObj (if map_of s ''sources'' = None then AList.update ''sources'' (JObj []) s else s)"
    by blast
  from assms e1 obtain sources1 files where
    e2: "manifest_enter sources files_key (JObj []) = Inr (sources1, files)"
    by (auto simp: manifest_parse_v1_def split: sum.splits)
  from manifest_enter_Inr [OF e2] obtain ss where ss: "sources = JObj ss"
    "files = get_or ss files_key (JObj [])"
    "sources1 = JObj (if map_of ss files_key = None then AList.update files_key (JObj []) ss else ss)"
    by blast
  from assms e1 e2 obtain files1 urls where
    e3: "manifest_enter files ''urls'' (JObj []) = Inr (files1, urls)"
    by (auto simp: manifest_parse_v1_def split: sum.splits)
  from manifest_enter_Inr [OF e3] obtain fl where fl: "files = JObj fl"
    "urls = get_or fl ''urls'' (JObj [])"
    "files1 = JObj (if map_of fl ''urls'' = None then AList.update ''urls'' (JObj []) fl else fl)"
    by blast
  have f1: "files1 = JObj (AList.update ''urls'' (get_or fl ''urls'' (JObj [])) fl)"
    using fl(3) by (auto simp: get_or_def intro: AList.update_triv [symmetric])
  have g1: "get_or s ''sources'' (JObj []) = JObj ss" using s(2) ss(1) by simp
  have g2: "get_or ss files_key (JObj []) = JObj fl" using ss(2) fl(1) by simp
  have m2: "assign m1 [Key ''sources''] (assign sources1 [Key files_key] files1) = with_defaults src"
    unfolding s(3) ss(3) assign_entered f1
    by (simp add: with_defaults_def Let_def s(1) g1 g2)
  from assms have "(case find_todo (assign m1 [Key ''sources''] (assign sources1 [Key files_key] files1)) [] of
        Inl e \<Rightarrow> Inl e
      | Inr todo \<Rightarrow>
          Inr (sti\<lparr>manifest := assign m1 [Key ''sources''] (assign sources1 [Key files_key] files1),
                  manifest_urls := Some urls_link,
                  manifest_todo := todo\<rparr>)) = Inr st"
    by (simp add: manifest_parse_v1_def Let_def e1 e2 e3 del: assign.simps)
  then obtain todo where
    t: "find_todo (with_defaults src) [] = Inr todo"
    and st: "st = sti\<lparr>manifest := with_defaults src, manifest_urls := Some urls_link,
                      manifest_todo := todo\<rparr>"
    unfolding m2 by (cases "find_todo (with_defaults src) []") auto
  from st show "manifest st = with_defaults src \<and> manifest_urls st = Some urls_link \<and>
      cwd st = cwd sti" by simp
  from t st show "find_todo (with_defaults src) [] = Inr (manifest_todo st)" by simp
  from s show "is_obj src" by simp
  from s g1 show "is_obj (get_or (entries src) ''sources'' (JObj []))" by simp
  from s g1 g2 show
    "is_obj (get_or (entries (get_or (entries src) ''sources'' (JObj []))) files_key (JObj []))"
    by simp
qed

lemma with_defaults_present:
  assumes "deref src urls_link = Some u"
  shows "with_defaults src = src"
proof -
  from assms obtain s where s: "src = JObj s" by (cases src) auto
  with assms obtain v where v: "map_of s ''sources'' = Some v" "deref v [Key files_key, Key ''urls''] = Some u"
    by (auto split: option.splits)
  then obtain ss where ss: "v = JObj ss" by (cases v) auto
  with v obtain w where w: "map_of ss files_key = Some w" "deref w [Key ''urls''] = Some u"
    by (auto split: option.splits)
  then obtain fl where fl: "w = JObj fl" by (cases w) auto
  with w have u: "map_of fl ''urls'' = Some u" by (auto split: option.splits)
  show ?thesis
    using s v(1) ss w(1) fl u
    by (simp add: with_defaults_def get_or_def AList.update_triv)
qed

lemma deref_with_defaults:
  "\<exists>u. deref (with_defaults src) urls_link = Some u"
  by (simp add: with_defaults_def Let_def AList.update_conv')

lemma sort_keys_all:
  "sort_keys its = Inr ks \<Longrightarrow> \<forall>it \<in> set its. get_sort_key it = Inr (url_value (snd it))"
  by (induction its arbitrary: ks) (auto split: sum.splits dest: get_sort_key_Inr)

lemma sort_keys_ok:
  "\<forall>it \<in> set its. get_sort_key it = Inr (url_value (snd it)) \<Longrightarrow>
   sort_keys its = Inr (map (\<lambda>it. url_value (snd it)) its)"
  by (induction its) auto

lemma sort_urls_idem:
  assumes "sort_urls u = Inr u'"
  shows "sort_urls u' = Inr u'"
proof (cases "truthy u")
  case False
  with assms show ?thesis by (simp add: sort_urls_def)
next
  case True
  with assms obtain its where its: "u = JObj its"
    by (cases u) (auto simp: sort_urls_def)
  with assms True obtain ks where ks: "sort_keys its = Inr ks"
    by (auto simp: sort_urls_def split: sum.splits)
  note k = sort_keys_Inr [OF ks]
  show ?thesis
  proof (cases "length its \<le> 1")
    case True
    with assms its ks \<open>truthy u\<close> have "u' = u" by (simp add: sort_urls_def)
    with assms show ?thesis by simp
  next
    case False
    let ?f = "\<lambda>it. the_str (url_value (snd it))"
    let ?zs = "zip (map ?f its) its"
    let ?its' = "map snd (sort_key fst ?zs)"
    from False assms its ks \<open>truthy u\<close> have all: "list_all is_str ks"
      and u': "u' = JObj ?its'"
      by (auto simp: sort_urls_def k comp_def split: if_splits)
    have z: "fst z = ?f (snd z)" if "z \<in> set ?zs" for z
      using that by (auto simp: in_set_conv_nth)
    have "map snd ?zs = its" by (rule map_snd_zip) simp
    then have set': "set ?its' = set its"
      by (metis set_map set_sort)
    have len: "length ?its' = length its" by simp
    have keys': "sort_keys ?its' = Inr (map (\<lambda>it. url_value (snd it)) ?its')"
      using sort_keys_all [OF ks] set' by (intro sort_keys_ok) simp
    have all': "list_all is_str (map (\<lambda>it. url_value (snd it)) ?its')"
      using all set' unfolding k list_all_iff by auto
    have "map ?f ?its' = map fst (sort_key fst ?zs)"
      using z by (auto simp: comp_def)
    then have srt: "sorted (map ?f ?its')" by (simp only: sorted_sort_key)
    let ?zs' = "zip (map ?f ?its') ?its'"
    have "map fst ?zs' = map ?f ?its'" by (rule map_fst_zip) simp
    with srt have "sorted (map fst ?zs')" by simp
    then have "sort_key fst ?zs' = ?zs'" by (rule sort_key_id_if_sorted)
    moreover have "map snd ?zs' = ?its'" by (rule map_snd_zip) simp
    ultimately have again: "map snd (sort_key fst ?zs') = ?its'" by simp
    have "its \<noteq> []" using False by auto
    then have ne: "?its' \<noteq> []" using len by (metis length_0_conv)
    have gt: "\<not> length ?its' \<le> 1" using False len by simp
    have "sort_urls (JObj ?its') = Inr (JObj (map snd (sort_key fst ?zs')))"
      unfolding sort_urls_def using ne gt keys' all'
      by (simp del: sort_key_simps length_map length_sort add: comp_def)
    with again u' show ?thesis by simp
  qed
qed

lemma find_todo_obj:
  "find_todo (JObj n) l =
     (if n = [] then Inr []
      else if mpp_key \<in> fst ` set n then Inr [l]
      else (case get_method (get_or n ''pipeline'' (JObj [])) ''build'' JNull of
              Inl e \<Rightarrow> Inl e
            | Inr b \<Rightarrow> find_todo b (l @ [Key ''pipeline'', Key ''build''])))"
  by (subst find_todo.simps) (simp add: get_or_def del: find_todo.simps)

lemma find_todo_falsy: "\<not> truthy c \<Longrightarrow> find_todo c l = Inr []"
  by (subst find_todo.simps) simp

lemma find_todo_found:
  "find_todo c l = Inr todo \<Longrightarrow> todo \<noteq> [] \<Longrightarrow>
   \<exists>k x. deref c (chain_link k) = Some x \<and> contains mpp_key x = Inr True"
proof (induction c l rule: find_todo.induct)
  case (1 current l)
  show ?case
  proof (cases "truthy current")
    case False
    with 1(2,3) show ?thesis by (simp add: find_todo_falsy)
  next
    case True
    from 1(2) True obtain found where c: "contains mpp_key current = Inr found"
      by (subst (asm) find_todo.simps) (auto split: sum.splits simp del: find_todo.simps)
    show ?thesis
    proof (cases found)
      case True
      with c have "deref current (chain_link 0) = Some current \<and> contains mpp_key current = Inr True"
        by simp
      then show ?thesis by blast
    next
      case False
      from 1(2) \<open>truthy current\<close> c False obtain pl b where
        pl: "get_method current ''pipeline'' (JObj []) = Inr pl"
        and b: "get_method pl ''build'' JNull = Inr b"
        and r: "find_todo b (l @ [Key ''pipeline'', Key ''build'']) = Inr todo"
        by (subst (asm) find_todo.simps) (auto split: sum.splits simp del: find_todo.simps)
      have nn: "\<not> \<not> truthy current" using \<open>truthy current\<close> by simp
      from "1.IH" [OF nn c False pl b r 1(3)] obtain k x where
        kx: "deref b (chain_link k) = Some x" "contains mpp_key x = Inr True" by blast
      from r 1(3) have "truthy b" using find_todo_falsy by fastforce
      then have bn: "b \<noteq> JNull" by auto
      from pl obtain n where n: "current = JObj n" by (cases current) auto
      from b obtain p where p: "pl = JObj p" by (cases pl) auto
      from b p bn have pb: "map_of p ''build'' = Some b" by (auto split: option.splits)
      then have "p \<noteq> []" by auto
      with pl n p have "map_of n ''pipeline'' = Some (JObj p)" by (auto split: option.splits)
      with pb kx n have "deref current (chain_link (Suc k)) = Some x" by simp
      with kx(2) show ?thesis by blast
    qed
  qed
qed

lemma find_todo_at:
  "\<forall>j<d. \<exists>n. deref c (chain_link j) = Some (JObj n) \<and> n \<noteq> [] \<and> map_of n mpp_key = None \<Longrightarrow>
   deref c (chain_link d) = Some (JObj node) \<Longrightarrow> map_of node mpp_key = Some x \<Longrightarrow>
   find_todo c l = Inr [l @ chain_link d]"
proof (induction d arbitrary: c l)
  case 0
  then have "c = JObj node" "node \<noteq> []" "mpp_key \<in> fst ` set node"
    by (auto dest: map_of_SomeD intro: rev_image_eqI)
  then show ?case by (simp add: find_todo_obj del: find_todo.simps)
next
  case (Suc d)
  from Suc.prems(1) obtain n where n: "c = JObj n" "n \<noteq> []" "map_of n mpp_key = None"
    by fastforce
  from Suc.prems(2) n obtain pl where pl: "map_of n ''pipeline'' = Some pl"
    "deref pl (Key ''build'' # chain_link d) = Some (JObj node)"
    by (auto split: option.splits)
  then obtain p where p: "pl = JObj p" by (cases pl) auto
  with pl obtain b where b: "map_of p ''build'' = Some b" "deref b (chain_link d) = Some (JObj node)"
    by (auto split: option.splits)
  have sh: "deref c (chain_link (Suc j)) = deref b (chain_link j)" for j
    using n pl p b by simp
  have "\<forall>j<d. \<exists>n. deref b (chain_link j) = Some (JObj n) \<and> n \<noteq> [] \<and> map_of n mpp_key = None"
  proof (intro allI impI)
    fix j assume "j < d"
    then have "Suc j < Suc d" by simp
    with Suc.prems(1) have "\<exists>n. deref c (chain_link (Suc j)) = Some (JObj n) \<and> n \<noteq> [] \<and>
        map_of n mpp_key = None" by blast
    then show "\<exists>n. deref b (chain_link j) = Some (JObj n) \<and> n \<noteq> [] \<and> map_of n mpp_key = None"
      unfolding sh .
  qed
  from Suc.IH [OF this b(2) Suc.prems(3), of "l @ [Key ''pipeline'', Key ''build'']"]
  have "find_todo b (l @ [Key ''pipeline'', Key ''build'']) = Inr [l @ chain_link (Suc d)]"
    by simp
  moreover from n(3) have "mpp_key \<notin> fst ` set n" by (simp add: map_of_eq_None_iff)
  ultimately show ?case using n pl p b
    by (simp add: find_todo_obj get_or_def del: find_todo.simps)
qed

lemma deref_with_defaults_pipeline:
  "is_obj src \<Longrightarrow>
   deref (with_defaults src) (Key ''pipeline'' # p) = deref src (Key ''pipeline'' # p)"
  by (cases src) (simp_all add: with_defaults_def Let_def AList.update_conv')

lemma contains_with_defaults:
  "is_obj src \<Longrightarrow> contains mpp_key (with_defaults src) = contains mpp_key src"
  by (cases src) (simp_all add: with_defaults_def Let_def AList.dom_update)

lemma no_import_no_todo:
  assumes none: "\<forall>k x. deref src (chain_link k) = Some x \<longrightarrow> contains mpp_key x \<noteq> Inr True"
    and obj: "is_obj src"
    and todo: "find_todo (with_defaults src) [] = Inr todo"
  shows "todo = []"
proof (rule ccontr)
  assume "todo \<noteq> []"
  from find_todo_found [OF todo this] obtain k x where
    kx: "deref (with_defaults src) (chain_link k) = Some x" "contains mpp_key x = Inr True"
    by blast
  show False
  proof (cases k)
    case 0
    with kx have "contains mpp_key src = Inr True"
      using contains_with_defaults [OF obj] by simp
    with none [rule_format, of 0 src] show False by simp
  next
    case (Suc j)
    with kx obj have "deref src (chain_link k) = Some x"
      by (simp add: deref_with_defaults_pipeline del: deref.simps)
    with none kx(2) show False by blast
  qed
qed

lemma parse_v1_present:
  assumes "deref m urls_link = Some u"
  shows "manifest_parse_v1 sti m =
     (case find_todo m [] of
        Inl e \<Rightarrow> Inl e
      | Inr todo \<Rightarrow>
          Inr (sti\<lparr>manifest := m, manifest_urls := Some urls_link, manifest_todo := todo\<rparr>))"
proof -
  from assms obtain s where s: "m = JObj s" by (cases m) auto
  with assms obtain v where v: "map_of s ''sources'' = Some v"
    "deref v [Key files_key, Key ''urls''] = Some u"
    by (auto split: option.splits)
  then obtain ss where ss: "v = JObj ss" by (cases v) auto
  with v obtain w where w: "map_of ss files_key = Some w" "deref w [Key ''urls''] = Some u"
    by (auto split: option.splits)
  then obtain fl where fl: "w = JObj fl" by (cases w) auto
  with w have u: "map_of fl ''urls'' = Some u" by (auto split: option.splits)
  have wb: "assign (JObj s) [Key ''sources''] (assign (JObj ss) [Key files_key] (JObj fl)) = m"
    using s v(1) ss w(1) fl by (simp add: AList.update_triv)
  have "manifest_parse_v1 sti m =
      (let m2 = assign (JObj s) [Key ''sources''] (assign (JObj ss) [Key files_key] (JObj fl))
       in case find_todo m2 [] of
            Inl e \<Rightarrow> Inl e
          | Inr todo \<Rightarrow>
              Inr (sti\<lparr>manifest := m2, manifest_urls := Some urls_link, manifest_todo := todo\<rparr>))"
    using s v(1) ss w(1) fl u
    by (simp add: manifest_parse_v1_def manifest_enter_obj
             del: find_todo.simps assign.simps)
  then show ?thesis unfolding wb Let_def .
qed

lemma assign_sources_frame:
  "\<exists>d'. assign (JObj d) (Key ''sources'' # p) y = JObj d' \<and> (d' = [] \<longleftrightarrow> d = []) \<and>
        fst ` set d' = fst ` set d \<and>
        (\<forall>k. k \<noteq> ''sources'' \<longrightarrow> map_of d' k = map_of d k)"
  by (cases "map_of d ''sources''")
     (auto simp: AList.update_conv' AList.dom_update dest: map_of_SomeD intro: rev_image_eqI)

lemma find_todo_cong:
  assumes "(a = []) = (b = [])" and "fst ` set a = fst ` set b"
    and "map_of a ''pipeline'' = map_of b ''pipeline''"
  shows "find_todo (JObj a) l = find_todo (JObj b) l"
  using assms by (simp add: find_todo_obj get_or_def del: find_todo.simps)

lemma sort_urls_not_obj: "sort_urls u = Inr u' \<Longrightarrow> is_obj u \<or> u' = u"
  by (cases u) (auto simp: sort_urls_def split: if_splits)

text \<open>
  C2, as amended. A version 1 manifest has no dict with the import key along
  its \<^verbatim>\<open>pipeline.build\<close> chain, and the run writes a manifest. Then the return
  value is 0 and the output is the input with the get-or-create defaults
  inserted (\<open>with_defaults\<close>) and the entries of its \<^verbatim>\<open>urls\<close> reordered: \<open>after\<close> has
  the entries of \<open>before\<close>. When the input has \<^verbatim>\<open>sources\<close>, \<^verbatim>\<open>org.osbuild.files\<close> and
  \<^verbatim>\<open>urls\<close> already, no default is inserted. Run on its own output, the tool
  writes that output again.
\<close>

theorem C2_no_import_run:
  assumes ver: "get_method src ''version'' (JStr ''1'') = Inr (JStr ''1'')"
    and none: "\<forall>k x. deref src (chain_link k) = Some x \<longrightarrow> contains mpp_key x \<noteq> Inr True"
    and run: "main_process fs sti src = Inr (rc, out)"
  shows "\<exists>before after.
           deref (with_defaults src) urls_link = Some before \<and>
           rc = 0 \<and> out = Some (assign (with_defaults src) urls_link after) \<and>
           mset (entries after) = mset (entries before) \<and>
           is_obj after = is_obj before \<and> (is_obj before \<or> after = before) \<and>
           (deref src urls_link \<noteq> None \<longrightarrow> with_defaults src = src) \<and>
           main_process fs sti (assign (with_defaults src) urls_link after) =
             Inr (0, Some (assign (with_defaults src) urls_link after))"
proof -
  let ?D = "with_defaults src"
  from run ver obtain st1 st2 where imp: "manifest_import_v1 fs sti src = Inr st1"
    and srt: "sort_urls_state st1 = Inr st2" and out: "out = Some (manifest st2)" and rc: "rc = 0"
    by (auto simp: main_process_def split: sum.splits)
  from imp obtain stp where parse: "manifest_parse_v1 sti src = Inr stp"
    and todos: "process_todos_v1 fs stp (manifest_todo stp) = Inr st1"
    by (auto simp: manifest_import_v1_def split: sum.splits)
  note p = parse_v1_Inr [OF parse]
  from no_import_no_todo [OF none p(3) p(2)] have nil: "manifest_todo stp = []" .
  with todos have st1: "st1 = stp" by simp
  from p(1) have stp: "manifest stp = ?D" "manifest_urls stp = Some urls_link"
    by simp_all
  from deref_with_defaults obtain before where b: "deref ?D urls_link = Some before" by blast
  from srt have "(case sort_urls before of Inl e \<Rightarrow> Inl e
                  | Inr x' \<Rightarrow> Inr (st1\<lparr>manifest := assign ?D urls_link x'\<rparr>)) = Inr st2"
    unfolding sort_urls_state_def st1 stp option.case via_obj [OF b] 
    by (simp split: sum.splits)
  then obtain after where a: "sort_urls before = Inr after"
    and m: "manifest st2 = assign ?D urls_link after"
    by (cases "sort_urls before") auto
  let ?O = "assign ?D urls_link after"
  from p(3) obtain s where s: "src = JObj s" by (cases src) auto
  obtain d where d: "?D = JObj d" by (simp add: with_defaults_def Let_def)
  from assign_sources_frame [of d "[Key files_key, Key ''urls'']" after] d obtain o' where
    o: "?O = JObj o'" "(o' = []) = (d = [])" "fst ` set o' = fst ` set d"
    "\<forall>k. k \<noteq> ''sources'' \<longrightarrow> map_of o' k = map_of d k"
    by auto
  have dv: "map_of d ''version'' = map_of s ''version''"
    using d s by (auto simp: with_defaults_def Let_def AList.update_conv')
  have ver': "get_method ?O ''version'' (JStr ''1'') = Inr (JStr ''1'')"
    using ver s o dv by simp
  have oa: "deref ?O urls_link = Some after" using b by (rule deref_assign_same)
  from p(2) nil have "find_todo (JObj d) [] = Inr []" using d by simp
  moreover from o have "find_todo (JObj o') [] = find_todo (JObj d) []"
    by (intro find_todo_cong) auto
  ultimately have ft: "find_todo ?O [] = Inr []" using o(1) by simp
  have parse': "manifest_parse_v1 sti ?O =
      Inr (sti\<lparr>manifest := ?O, manifest_urls := Some urls_link, manifest_todo := []\<rparr>)"
    by (simp only: parse_v1_present [OF oa] ft sum.case)
  have idem: "main_process fs sti ?O = Inr (0, Some ?O)"
    unfolding main_process_def manifest_import_v1_def sort_urls_state_def
    by (simp add: ver' parse' via_obj [OF oa] sort_urls_idem [OF a] assign_assign
             del: deref.simps assign.simps find_todo.simps)
  have pres: "deref src urls_link \<noteq> None \<longrightarrow> ?D = src"
    using with_defaults_present by blast
  from sort_urls_sorted [OF a] have ms: "mset (entries after) = mset (entries before)"
    and io: "is_obj after = is_obj before" by simp_all
  from b rc out [unfolded m] ms io sort_urls_not_obj [OF a] pres idem
  show ?thesis by blast
qed

text \<open>
  The theorem at a manifest with a build stage, no import, and two urls that
  the run swaps.
\<close>

theorem C2_witness:
  "\<exists>before after.
     deref (with_defaults
              (JObj [(''pipeline'', JObj [(''build'', JObj [(''runner'', JStr ''r'')])]),
                     (''sources'', JObj [(files_key, JObj [(''urls'',
                        JObj [(''k1'', JStr ''https://b''), (''k0'', JStr ''https://a'')])])])]))
       urls_link = Some before \<and>
     (0::nat) = 0 \<and>
     Some (JObj [(''pipeline'', JObj [(''build'', JObj [(''runner'', JStr ''r'')])]),
                 (''sources'', JObj [(files_key, JObj [(''urls'',
                    JObj [(''k0'', JStr ''https://a''), (''k1'', JStr ''https://b'')])])])])
       = Some (assign (with_defaults
              (JObj [(''pipeline'', JObj [(''build'', JObj [(''runner'', JStr ''r'')])]),
                     (''sources'', JObj [(files_key, JObj [(''urls'',
                        JObj [(''k1'', JStr ''https://b''), (''k0'', JStr ''https://a'')])])])]))
                 urls_link after) \<and>
     mset (entries after) = mset (entries before) \<and>
     is_obj after = is_obj before \<and> (is_obj before \<or> after = before) \<and>
     (deref (JObj [(''pipeline'', JObj [(''build'', JObj [(''runner'', JStr ''r'')])]),
                   (''sources'', JObj [(files_key, JObj [(''urls'',
                      JObj [(''k1'', JStr ''https://b''), (''k0'', JStr ''https://a'')])])])])
        urls_link \<noteq> None
      \<longrightarrow> with_defaults
              (JObj [(''pipeline'', JObj [(''build'', JObj [(''runner'', JStr ''r'')])]),
                     (''sources'', JObj [(files_key, JObj [(''urls'',
                        JObj [(''k1'', JStr ''https://b''), (''k0'', JStr ''https://a'')])])])])
          = JObj [(''pipeline'', JObj [(''build'', JObj [(''runner'', JStr ''r'')])]),
                  (''sources'', JObj [(files_key, JObj [(''urls'',
                     JObj [(''k1'', JStr ''https://b''), (''k0'', JStr ''https://a'')])])])]) \<and>
     main_process (\<lambda>p. None) (main_state None)
       (assign (with_defaults
              (JObj [(''pipeline'', JObj [(''build'', JObj [(''runner'', JStr ''r'')])]),
                     (''sources'', JObj [(files_key, JObj [(''urls'',
                        JObj [(''k1'', JStr ''https://b''), (''k0'', JStr ''https://a'')])])])]))
          urls_link after)
     = Inr (0, Some (assign (with_defaults
              (JObj [(''pipeline'', JObj [(''build'', JObj [(''runner'', JStr ''r'')])]),
                     (''sources'', JObj [(files_key, JObj [(''urls'',
                        JObj [(''k1'', JStr ''https://b''), (''k0'', JStr ''https://a'')])])])]))
          urls_link after))"
proof (rule C2_no_import_run)
  show "get_method
          (JObj [(''pipeline'', JObj [(''build'', JObj [(''runner'', JStr ''r'')])]),
                 (''sources'', JObj [(files_key, JObj [(''urls'',
                    JObj [(''k1'', JStr ''https://b''), (''k0'', JStr ''https://a'')])])])])
          ''version'' (JStr ''1'') = Inr (JStr ''1'')"
    by simp
next
  show "\<forall>k x. deref
           (JObj [(''pipeline'', JObj [(''build'', JObj [(''runner'', JStr ''r'')])]),
                  (''sources'', JObj [(files_key, JObj [(''urls'',
                     JObj [(''k1'', JStr ''https://b''), (''k0'', JStr ''https://a'')])])])])
           (chain_link k) = Some x \<longrightarrow> contains mpp_key x \<noteq> Inr True"
  proof (intro allI impI)
    fix k x
    assume d: "deref
           (JObj [(''pipeline'', JObj [(''build'', JObj [(''runner'', JStr ''r'')])]),
                  (''sources'', JObj [(files_key, JObj [(''urls'',
                     JObj [(''k1'', JStr ''https://b''), (''k0'', JStr ''https://a'')])])])])
           (chain_link k) = Some x"
    show "contains mpp_key x \<noteq> Inr True"
    proof (cases k)
      case 0
      with d show ?thesis by auto
    next
      case (Suc j)
      with d show ?thesis by (cases j) auto
    qed
  qed
next
  show "main_process (\<lambda>p. None) (main_state None)
          (JObj [(''pipeline'', JObj [(''build'', JObj [(''runner'', JStr ''r'')])]),
                 (''sources'', JObj [(files_key, JObj [(''urls'',
                    JObj [(''k1'', JStr ''https://b''), (''k0'', JStr ''https://a'')])])])])
        = Inr (0, Some (JObj [(''pipeline'', JObj [(''build'', JObj [(''runner'', JStr ''r'')])]),
                 (''sources'', JObj [(files_key, JObj [(''urls'',
                    JObj [(''k0'', JStr ''https://a''), (''k1'', JStr ''https://b'')])])])]))"
    by (simp add: run_defs)
qed

text \<open>
  C2 as stated fails: the manifest \<^verbatim>\<open>{"pipeline": {"stages": []}}\<close> has no import,
  and the run writes it with a \<^verbatim>\<open>sources\<close> key it did not have. The output is not
  the input up to the order of keys: even \<open>py_eq\<close>, Python's \<^verbatim>\<open>==\<close>, which ignores
  the order of the keys of a dict, tells them apart.
\<close>

theorem C2_defaults_counterexample:
  "main_process (\<lambda>p. None) (main_state None)
     (JObj [(''pipeline'', JObj [(''stages'', JArr [])])])
   = Inr (0, Some (JObj [(''pipeline'', JObj [(''stages'', JArr [])]),
                         (''sources'', JObj [(files_key, JObj [(''urls'', JObj [])])])])) \<and>
   \<not> py_eq (JObj [(''pipeline'', JObj [(''stages'', JArr [])]),
                 (''sources'', JObj [(files_key, JObj [(''urls'', JObj [])])])])
            (JObj [(''pipeline'', JObj [(''stages'', JArr [])])])"
  by (simp add: run_defs)

section \<open>The first import along the chain (version 1)\<close>

lemma assign_deref: "deref m l = Some x \<Longrightarrow> assign m l x = m"
  by (induction m l arbitrary: x rule: deref.induct)
     (auto simp: AList.update_triv split: option.splits if_splits)

lemma deref_assign_sources:
  "deref (assign (JObj r) (Key ''sources'' # p) y) (Key ''pipeline'' # q) =
   deref (JObj r) (Key ''pipeline'' # q)"
  by (auto simp: AList.update_conv' split: option.splits)

lemma import_parts_Inr:
  "import_parts imp = Inr parts \<Longrightarrow>
   \<exists>i. imp = JObj i \<and> snd parts = get_or i ''pipeline'' (JObj [])"
proof -
  assume a: "import_parts imp = Inr parts"
  then obtain imp1 imp_sources where
    e1: "manifest_enter imp ''sources'' (JObj []) = Inr (imp1, imp_sources)"
    by (auto simp: import_parts_def split: sum.splits)
  from manifest_enter_Inr [OF e1] obtain i where i: "imp = JObj i"
    "imp1 = JObj (if map_of i ''sources'' = None then AList.update ''sources'' (JObj []) i else i)"
    by blast
  from a e1 obtain x imp2 imp_pipeline where
    e4: "manifest_enter (assign imp1 [Key ''sources''] x) ''pipeline'' (JObj []) =
           Inr (imp2, imp_pipeline)"
    and r: "snd parts = imp_pipeline"
    by (auto simp: import_parts_def split: sum.splits if_splits)
  from e4 have "manifest_enter (JObj (AList.update ''sources'' x i)) ''pipeline'' (JObj []) =
           Inr (imp2, imp_pipeline)"
    unfolding i(2) assign_entered .
  from manifest_enter_Inr [OF this] have "imp_pipeline = get_or i ''pipeline'' (JObj [])"
    by (auto simp: get_or_update)
  with i(1) r show ?thesis by simp
qed

lemma process_v1_entry:
  assumes "deref (manifest st) l = Some (JObj node)"
    and "map_of node mpp_key = Some directive"
  shows "manifest_process_v1 fs st l =
     (case getitem directive ''path'' of
        Inl e \<Rightarrow> Inl e
      | Inr mpp_path \<Rightarrow>
     (case load fs (cwd st) mpp_path of
        Inl e \<Rightarrow> Inl e
      | Inr imp \<Rightarrow>
     (case import_parts imp of
        Inl e \<Rightarrow> Inl e
      | Inr parts \<Rightarrow>
     (case manifest_urls st of
        None \<Rightarrow> Inl AttributeError
      | Some ul \<Rightarrow>
     (case via (manifest st) ul (\<lambda>urls. update_method urls (fst parts)) of
        Inl e \<Rightarrow> Inl e
      | Inr m2 \<Rightarrow>
     (case via m2 l (\<lambda>todo. setitem todo ''pipeline'' (snd parts)) of
        Inl e \<Rightarrow> Inl e
      | Inr m3 \<Rightarrow>
     (case via m3 l (\<lambda>todo. delitem todo mpp_key) of
        Inl e \<Rightarrow> Inl e
      | Inr m4 \<Rightarrow> Inr (st\<lparr>manifest := m4\<rparr>))))))))"
proof -
  have same: "assign (manifest st) l (JObj node) = manifest st"
    using assms(1) by (rule assign_deref)
  have enter: "manifest_enter (JObj node) mpp_key (JObj []) = Inr (JObj node, directive)"
    using assms(2) by (simp add: manifest_enter_obj)
  show ?thesis
    unfolding manifest_process_v1_def import_parts_def
    by (simp add: assms(1) enter same del: assign.simps deref.simps
             split: sum.splits prod.splits option.splits)
qed

lemma chain_split:
  "j < d \<Longrightarrow> chain_link d = (chain_link j @ [Key ''pipeline'']) @ Key ''build'' # chain_link (d - Suc j)"
proof (induction j arbitrary: d)
  case 0
  then show ?case by (cases d) auto
next
  case (Suc j)
  then obtain d' where "d = Suc d'" "j < d'" by (cases d) auto
  with Suc.IH [of d'] show ?case by simp
qed

lemma chain_with_defaults:
  assumes "deref src (chain_link j) = Some (JObj n)" and "n \<noteq> []"
  shows "\<exists>n'. deref (with_defaults src) (chain_link j) = Some (JObj n') \<and> n' \<noteq> [] \<and>
              (\<forall>f. f \<noteq> ''sources'' \<longrightarrow> map_of n' f = map_of n f) \<and> (j \<noteq> 0 \<longrightarrow> n' = n)"
proof (cases j)
  case 0
  with assms have "src = JObj n" by simp
  then show ?thesis using 0
    by (simp add: with_defaults_def Let_def AList.update_conv')
next
  case (Suc i)
  from assms Suc have "is_obj src" by (cases src) auto
  from deref_with_defaults_pipeline [OF this] assms Suc
  have "deref (with_defaults src) (chain_link j) = Some (JObj n)" by simp
  with assms(2) Suc show ?thesis by auto
qed

lemma process_v1_Inr:
  assumes run: "manifest_process_v1 fs st l = Inr st'"
    and node: "deref (manifest st) l = Some (JObj node)"
    and mpp: "map_of node mpp_key = Some directive"
    and ul: "manifest_urls st = Some ul"
  shows "\<exists>dd p imp urls' node2.
      directive = JObj dd \<and> map_of dd ''path'' = Some (JStr p) \<and>
      fs (os_path_join (cwd st) p) = Some (JObj imp) \<and>
      deref (assign (manifest st) ul urls') l = Some (JObj node2) \<and>
      manifest st' = assign (assign (manifest st) ul urls') l
                 (JObj (AList.delete mpp_key
                          (AList.update ''pipeline'' (get_or imp ''pipeline'' (JObj [])) node2)))"
proof -
  note eq = run [unfolded process_v1_entry [OF node mpp]]
  from eq obtain mpp_path where mp: "getitem directive ''path'' = Inr mpp_path"
    by (auto split: sum.splits)
  then obtain dd where dd: "directive = JObj dd" "map_of dd ''path'' = Some mpp_path"
    by (cases directive) (auto split: option.splits)
  from eq mp obtain imp0 where ld: "load fs (cwd st) mpp_path = Inr imp0"
    by (auto split: sum.splits)
  then obtain p where p: "mpp_path = JStr p" "fs (os_path_join (cwd st) p) = Some imp0"
    by (cases mpp_path) (auto split: option.splits)
  from eq mp ld obtain parts where parts: "import_parts imp0 = Inr parts"
    by (auto split: sum.splits)
  from import_parts_Inr [OF parts] obtain imp where imp: "imp0 = JObj imp"
    "snd parts = get_or imp ''pipeline'' (JObj [])" by blast
  from eq mp ld parts ul obtain m2 m3 m4 where
    v2: "via (manifest st) ul (\<lambda>urls. update_method urls (fst parts)) = Inr m2"
    and v3: "via m2 l (\<lambda>todo. setitem todo ''pipeline'' (snd parts)) = Inr m3"
    and v4: "via m3 l (\<lambda>todo. delitem todo mpp_key) = Inr m4"
    and st': "st' = st\<lparr>manifest := m4\<rparr>"
    by (auto split: sum.splits)
  from v2 obtain urls' where m2: "m2 = assign (manifest st) ul urls'"
    by (auto simp: via_def split: option.splits sum.splits)
  from v3 obtain x where x: "deref m2 l = Some x"
    and sx: "setitem x ''pipeline'' (snd parts) = Inr (JObj (AList.update ''pipeline'' (snd parts) (entries x)))"
    and m3: "m3 = assign m2 l (JObj (AList.update ''pipeline'' (snd parts) (entries x)))"
    by (cases "deref m2 l")
       (auto simp: via_def split: sum.splits elim!: setitem.elims)
  from sx obtain node2 where n2: "x = JObj node2" by (cases x) auto
  have d3: "deref m3 l = Some (JObj (AList.update ''pipeline'' (snd parts) node2))"
    unfolding m3 using deref_assign_same [OF x] n2 by simp
  from v4 have m4: "m4 = assign m3 l (JObj (AList.delete mpp_key (AList.update ''pipeline'' (snd parts) node2)))"
    unfolding via_obj [OF d3] by (auto split: if_splits)
  have "manifest st' = assign m2 l
      (JObj (AList.delete mpp_key (AList.update ''pipeline'' (snd parts) node2)))"
    unfolding st' m4 m3 by (simp add: assign_assign)
  with dd p imp x n2 m2 show ?thesis by auto
qed

text \<open>
  C4. In a version 1 manifest the dicts at the depths below \<open>d\<close> of the
  \<^verbatim>\<open>pipeline.build\<close> chain are non-empty and have no import key, the dict \<open>node\<close>
  at depth \<open>d\<close> has one, and the import succeeds. Then the to-do list is the
  link to depth \<open>d\<close> alone, and the one call of \<^verbatim>\<open>_manifest_process_v1\<close> gives the
  result. In the result the dict at depth \<open>d\<close> is \<open>node'\<close>: its \<^verbatim>\<open>pipeline\<close> is the
  \<^verbatim>\<open>pipeline\<close> of the imported manifest \<open>imp\<close> (an empty dict if it has none), it
  has no import key, and its other fields are those of \<open>node\<close> (at depth 0 the
  \<^verbatim>\<open>sources\<close>, which receive the urls, are left out). No shallower dict gets a
  new \<^verbatim>\<open>pipeline\<close>: a dict is mutated in place, so the \<^verbatim>\<open>pipeline\<close> field \<open>pl\<close> of
  the dict at depth \<open>j < d\<close> holds the dict of depth \<open>d\<close> somewhere inside, and it
  is in the result what it was, \<open>pl\<close>, but for that one position, where \<open>node'\<close>
  now stands.
\<close>

theorem C4_first_import_only:
  assumes shallower: "\<forall>j<d. \<exists>n. deref src (chain_link j) = Some (JObj n) \<and> n \<noteq> [] \<and>
                               map_of n mpp_key = None"
    and at_d: "deref src (chain_link d) = Some (JObj node)"
    and has: "map_of node mpp_key = Some directive"
    and run: "manifest_import_v1 fs sti src = Inr st"
  shows "\<exists>stp imp node'.
      manifest_parse_v1 sti src = Inr stp \<and> manifest_todo stp = [chain_link d] \<and>
      manifest_process_v1 fs stp (chain_link d) = Inr st \<and>
      (\<exists>dd p. directive = JObj dd \<and> map_of dd ''path'' = Some (JStr p) \<and>
              fs (os_path_join (cwd sti) p) = Some (JObj imp)) \<and>
      deref (manifest st) (chain_link d) = Some (JObj node') \<and>
      map_of node' ''pipeline'' = Some (get_or imp ''pipeline'' (JObj [])) \<and>
      map_of node' mpp_key = None \<and>
      (\<forall>f. f \<noteq> ''pipeline'' \<and> f \<noteq> mpp_key \<and> (d = 0 \<longrightarrow> f \<noteq> ''sources'')
           \<longrightarrow> map_of node' f = map_of node f) \<and>
      (\<forall>j<d. \<exists>pl. deref src (chain_link j @ [Key ''pipeline'']) = Some pl \<and>
                   deref (manifest st) (chain_link j @ [Key ''pipeline'']) =
                     Some (assign pl (Key ''build'' # chain_link (d - Suc j)) (JObj node')))"
proof -
  let ?D = "with_defaults src"
  from run obtain stp where parse: "manifest_parse_v1 sti src = Inr stp"
    and todos: "process_todos_v1 fs stp (manifest_todo stp) = Inr st"
    by (auto simp: manifest_import_v1_def split: sum.splits)
  note p = parse_v1_Inr [OF parse]
  from p(1) have stp: "manifest stp = ?D" "manifest_urls stp = Some urls_link" "cwd stp = cwd sti"
    by simp_all
  from has have ne: "node \<noteq> []" by auto
  from chain_with_defaults [OF at_d ne] obtain nodeD where
    nD: "deref ?D (chain_link d) = Some (JObj nodeD)"
    and nDf: "\<forall>f. f \<noteq> ''sources'' \<longrightarrow> map_of nodeD f = map_of node f"
    and nDe: "d \<noteq> 0 \<longrightarrow> nodeD = node"
    by blast
  from nDf has have hasD: "map_of nodeD mpp_key = Some directive" by simp
  have shD: "\<forall>j<d. \<exists>n. deref ?D (chain_link j) = Some (JObj n) \<and> n \<noteq> [] \<and>
                         map_of n mpp_key = None"
  proof (intro allI impI)
    fix j assume "j < d"
    with shallower obtain n where n: "deref src (chain_link j) = Some (JObj n)" "n \<noteq> []"
      "map_of n mpp_key = None" by blast
    from chain_with_defaults [OF n(1,2)] n(3)
    show "\<exists>n. deref ?D (chain_link j) = Some (JObj n) \<and> n \<noteq> [] \<and> map_of n mpp_key = None"
      by auto
  qed
  from find_todo_at [OF shD nD hasD, of "[]"] p(2)
  have todo: "manifest_todo stp = [chain_link d]" by simp
  with todos have proc: "manifest_process_v1 fs stp (chain_link d) = Inr st"
    by (auto split: sum.splits)
  from process_v1_Inr [OF proc nD [folded stp(1)] hasD stp(2)] obtain dd pth imp urls' node2 where
    dir: "directive = JObj dd" "map_of dd ''path'' = Some (JStr pth)"
      "fs (os_path_join (cwd sti) pth) = Some (JObj imp)"
    and n2: "deref (assign ?D urls_link urls') (chain_link d) = Some (JObj node2)"
    and res: "manifest st = assign (assign ?D urls_link urls') (chain_link d)
                 (JObj (AList.delete mpp_key
                          (AList.update ''pipeline'' (get_or imp ''pipeline'' (JObj [])) node2)))"
    unfolding stp by blast
  let ?M = "assign ?D urls_link urls'"
  let ?node' = "AList.delete mpp_key
                  (AList.update ''pipeline'' (get_or imp ''pipeline'' (JObj [])) node2)"
  obtain r where r: "?D = JObj r" by (simp add: with_defaults_def Let_def)
  have under: "deref ?M (Key ''pipeline'' # q) = deref ?D (Key ''pipeline'' # q)" for q
    unfolding r by (rule deref_assign_sources)
  have n2f: "\<forall>f. f \<noteq> ''sources'' \<longrightarrow> map_of node2 f = map_of nodeD f"
    and n2e: "d \<noteq> 0 \<longrightarrow> node2 = nodeD"
  proof -
    show "\<forall>f. f \<noteq> ''sources'' \<longrightarrow> map_of node2 f = map_of nodeD f"
    proof (cases d)
      case 0
      with nD r have "nodeD = r" by simp
      moreover from 0 n2 have "?M = JObj node2" by simp
      ultimately show ?thesis
        using assign_sources_frame [of r "[Key files_key, Key ''urls'']" urls'] r by auto
    next
      case (Suc i)
      with n2 nD under [of "Key ''build'' # chain_link i"] show ?thesis by simp
    qed
    show "d \<noteq> 0 \<longrightarrow> node2 = nodeD"
    proof
      assume "d \<noteq> 0"
      then obtain i where "d = Suc i" by (cases d) auto
      with n2 nD under [of "Key ''build'' # chain_link i"] show "node2 = nodeD" by simp
    qed
  qed
  have at: "deref (manifest st) (chain_link d) = Some (JObj ?node')"
    unfolding res using n2 by (rule deref_assign_same)
  have pl: "map_of ?node' ''pipeline'' = Some (get_or imp ''pipeline'' (JObj []))"
    by (simp add: AList.delete_conv' AList.update_conv')
  have nompp: "map_of ?node' mpp_key = None"
    by (simp add: AList.delete_conv')
  have frame: "\<forall>f. f \<noteq> ''pipeline'' \<and> f \<noteq> mpp_key \<and> (d = 0 \<longrightarrow> f \<noteq> ''sources'')
                 \<longrightarrow> map_of ?node' f = map_of node f"
  proof (intro allI impI)
    fix f assume f: "f \<noteq> ''pipeline'' \<and> f \<noteq> mpp_key \<and> (d = 0 \<longrightarrow> f \<noteq> ''sources'')"
    then have "map_of ?node' f = map_of node2 f"
      by (simp add: AList.delete_conv' AList.update_conv')
    also have "\<dots> = map_of node f"
    proof (cases "d = 0")
      case True
      with f n2f nDf show ?thesis by simp
    next
      case False
      with n2e nDe show ?thesis by simp
    qed
    finally show "map_of ?node' f = map_of node f" .
  qed
  have above: "\<forall>j<d. \<exists>pl. deref src (chain_link j @ [Key ''pipeline'']) = Some pl \<and>
                   deref (manifest st) (chain_link j @ [Key ''pipeline'']) =
                     Some (assign pl (Key ''build'' # chain_link (d - Suc j)) (JObj ?node'))"
  proof (intro allI impI)
    fix j assume j: "j < d"
    let ?p = "chain_link j @ [Key ''pipeline'']"
    let ?q = "Key ''build'' # chain_link (d - Suc j)"
    note split = chain_split [OF j]
    have "deref src (?p @ ?q) = Some (JObj node)" using at_d unfolding split .
    then have "(case deref src ?p of None \<Rightarrow> None | Some x \<Rightarrow> deref x ?q) = Some (JObj node)"
      by (simp only: deref_append [of src ?p ?q])
    then obtain pl where pl: "deref src ?p = Some pl"
      by (cases "deref src ?p") (simp_all only: option.case option.distinct)
    have start: "\<exists>q. ?p = Key ''pipeline'' # q" by (cases j) auto
    then obtain q where q: "?p = Key ''pipeline'' # q" by blast
    from at_d have "is_obj src" using j by (cases src; cases d) auto
    then have "deref ?D ?p = deref src ?p"
      unfolding q by (rule deref_with_defaults_pipeline)
    with under [of q] q pl have mp: "deref ?M ?p = Some pl" by simp
    have "manifest st = assign ?M ?p (assign pl ?q (JObj ?node'))"
      unfolding res split by (rule assign_append [OF mp])
    with deref_assign_same [OF mp] pl
    show "\<exists>pl. deref src ?p = Some pl \<and>
            deref (manifest st) ?p = Some (assign pl ?q (JObj ?node'))" by simp
  qed
  from parse todo proc dir at pl nompp frame above show ?thesis by blast
qed

text \<open>
  The theorem at depth 1: the build dict imports \<^verbatim>\<open>imp.json\<close>; the \<^verbatim>\<open>stages\<close> of the
  root's \<^verbatim>\<open>pipeline\<close> stay.
\<close>

theorem C4_witness:
  "\<exists>stp imp node'.
      manifest_parse_v1 (main_state None) (JObj [(''pipeline'', JObj [(''build'', JObj [(mpp_key, JObj [(''path'', JStr ''imp.json'')]),
                                                      (''runner'', JStr ''r'')]),
                                    (''stages'', JArr [])])]) = Inr stp \<and> manifest_todo stp = [chain_link (Suc 0)] \<and>
      manifest_process_v1 (\<lambda>p. if p = ''./imp.json''
          then Some (JObj [(''pipeline'', JObj [(''stages'', JArr [JStr ''s''])]),
                           (''sources'', JObj [(files_key, JObj [(''urls'',
                              JObj [(''k'', JStr ''https://a'')])])])])
          else None) stp (chain_link (Suc 0)) = Inr \<lparr>cwd = ''.'',
         manifest = JObj [(''pipeline'', JObj [(''build'', JObj [(''runner'', JStr ''r''),
                              (''pipeline'', JObj [(''stages'', JArr [JStr ''s''])])]),
                            (''stages'', JArr [])]),
                          (''sources'', JObj [(files_key, JObj [(''urls'',
                              JObj [(''k'', JStr ''https://a'')])])])],
         manifest_urls = Some urls_link,
         manifest_todo = [[Key ''pipeline'', Key ''build'']]\<rparr> \<and>
      (\<exists>dd p. (JObj [(''path'', JStr ''imp.json'')]) = JObj dd \<and> map_of dd ''path'' = Some (JStr p) \<and>
              (\<lambda>p. if p = ''./imp.json''
          then Some (JObj [(''pipeline'', JObj [(''stages'', JArr [JStr ''s''])]),
                           (''sources'', JObj [(files_key, JObj [(''urls'',
                              JObj [(''k'', JStr ''https://a'')])])])])
          else None) (os_path_join (cwd (main_state None)) p) = Some (JObj imp)) \<and>
      deref (manifest \<lparr>cwd = ''.'',
         manifest = JObj [(''pipeline'', JObj [(''build'', JObj [(''runner'', JStr ''r''),
                              (''pipeline'', JObj [(''stages'', JArr [JStr ''s''])])]),
                            (''stages'', JArr [])]),
                          (''sources'', JObj [(files_key, JObj [(''urls'',
                              JObj [(''k'', JStr ''https://a'')])])])],
         manifest_urls = Some urls_link,
         manifest_todo = [[Key ''pipeline'', Key ''build'']]\<rparr>) (chain_link (Suc 0)) = Some (JObj node') \<and>
      map_of node' ''pipeline'' = Some (get_or imp ''pipeline'' (JObj [])) \<and>
      map_of node' mpp_key = None \<and>
      (\<forall>f. f \<noteq> ''pipeline'' \<and> f \<noteq> mpp_key \<and> (Suc 0 = 0 \<longrightarrow> f \<noteq> ''sources'')
           \<longrightarrow> map_of node' f = map_of [(mpp_key, JObj [(''path'', JStr ''imp.json'')]), (''runner'', JStr ''r'')] f) \<and>
      (\<forall>j<Suc 0. \<exists>pl. deref (JObj [(''pipeline'', JObj [(''build'', JObj [(mpp_key, JObj [(''path'', JStr ''imp.json'')]),
                                                      (''runner'', JStr ''r'')]),
                                    (''stages'', JArr [])])]) (chain_link j @ [Key ''pipeline'']) = Some pl \<and>
                   deref (manifest \<lparr>cwd = ''.'',
         manifest = JObj [(''pipeline'', JObj [(''build'', JObj [(''runner'', JStr ''r''),
                              (''pipeline'', JObj [(''stages'', JArr [JStr ''s''])])]),
                            (''stages'', JArr [])]),
                          (''sources'', JObj [(files_key, JObj [(''urls'',
                              JObj [(''k'', JStr ''https://a'')])])])],
         manifest_urls = Some urls_link,
         manifest_todo = [[Key ''pipeline'', Key ''build'']]\<rparr>) (chain_link j @ [Key ''pipeline'']) =
                     Some (assign pl (Key ''build'' # chain_link (Suc 0 - Suc j)) (JObj node')))"
proof (rule C4_first_import_only)
  show "\<forall>j<Suc 0. \<exists>n. deref (JObj [(''pipeline'', JObj [(''build'', JObj [(mpp_key, JObj [(''path'', JStr ''imp.json'')]),
                                                      (''runner'', JStr ''r'')]),
                                    (''stages'', JArr [])])]) (chain_link j) = Some (JObj n) \<and> n \<noteq> [] \<and>
                               map_of n mpp_key = None"
    by simp
next
  show "deref (JObj [(''pipeline'', JObj [(''build'', JObj [(mpp_key, JObj [(''path'', JStr ''imp.json'')]),
                                                      (''runner'', JStr ''r'')]),
                                    (''stages'', JArr [])])]) (chain_link (Suc 0)) = Some (JObj [(mpp_key, JObj [(''path'', JStr ''imp.json'')]), (''runner'', JStr ''r'')])"
    by simp
next
  show "map_of [(mpp_key, JObj [(''path'', JStr ''imp.json'')]), (''runner'', JStr ''r'')] mpp_key = Some (JObj [(''path'', JStr ''imp.json'')])"
    by simp
next
  show "manifest_import_v1 (\<lambda>p. if p = ''./imp.json''
          then Some (JObj [(''pipeline'', JObj [(''stages'', JArr [JStr ''s''])]),
                           (''sources'', JObj [(files_key, JObj [(''urls'',
                              JObj [(''k'', JStr ''https://a'')])])])])
          else None) (main_state None) (JObj [(''pipeline'', JObj [(''build'', JObj [(mpp_key, JObj [(''path'', JStr ''imp.json'')]),
                                                      (''runner'', JStr ''r'')]),
                                    (''stages'', JArr [])])]) = Inr \<lparr>cwd = ''.'',
         manifest = JObj [(''pipeline'', JObj [(''build'', JObj [(''runner'', JStr ''r''),
                              (''pipeline'', JObj [(''stages'', JArr [JStr ''s''])])]),
                            (''stages'', JArr [])]),
                          (''sources'', JObj [(files_key, JObj [(''urls'',
                              JObj [(''k'', JStr ''https://a'')])])])],
         manifest_urls = Some urls_link,
         manifest_todo = [[Key ''pipeline'', Key ''build'']]\<rparr>"
    by (simp add: run_defs)
qed

section \<open>The check of the imported manifest's source kinds (version 1)\<close>

lemma process_v1_other_kind:
  assumes node: "deref (manifest st) l = Some (JObj node)"
    and mpp: "map_of node mpp_key = Some (JObj d)"
    and pth: "map_of d ''path'' = Some (JStr p)"
    and loaded: "fs (os_path_join (cwd st) p) = Some (JObj imp)"
    and srcs: "map_of imp ''sources'' = Some (JObj srcs)"
    and other: "k \<in> set (map fst srcs)" "k \<noteq> files_key"
  shows "manifest_process_v1 fs st l =
           Inl (case map_of srcs files_key of
                  None \<Rightarrow> AssertionError
                | Some v \<Rightarrow> if is_obj v then AssertionError else TypeError)"
proof (cases "map_of srcs files_key")
  case None
  then show ?thesis using assms
    by (auto simp: manifest_process_v1_def manifest_enter_obj AList.update_conv' AList.update_keys
             split: option.splits)
next
  case (Some v)
  show ?thesis
  proof (cases "is_obj v")
    case True
    then obtain f where "v = JObj f" by (cases v) auto
    then show ?thesis using assms Some
      by (auto simp: manifest_process_v1_def manifest_enter_obj AList.update_conv' AList.update_keys
               split: option.splits)
  next
    case False
    then show ?thesis using assms Some
      by (simp add: manifest_process_v1_def manifest_enter_obj manifest_enter_not_obj)
  qed
qed

lemma import_parts_no_sources:
  assumes "map_of imp ''sources'' = None \<or> map_of imp ''sources'' = Some (JObj [])"
  shows "import_parts (JObj imp) = Inr (JObj [], get_or imp ''pipeline'' (JObj []))"
  using assms
  by (auto simp: import_parts_def manifest_enter_obj sort_method_def get_or_def
                 AList.update_conv' AList.update_keys split: option.splits)

lemma process_v1_no_sources:
  assumes node: "deref (manifest st) l = Some (JObj node)"
    and mpp: "map_of node mpp_key = Some (JObj d)"
    and pth: "map_of d ''path'' = Some (JStr p)"
    and loaded: "fs (os_path_join (cwd st) p) = Some (JObj imp)"
    and none: "map_of imp ''sources'' = None \<or> map_of imp ''sources'' = Some (JObj [])"
    and ul: "manifest_urls st = Some ul"
    and urls: "deref (manifest st) ul = Some u"
  shows "manifest_process_v1 fs st l =
           (if is_obj u
            then Inr (st\<lparr>manifest := assign (manifest st) l
                        (JObj (AList.delete mpp_key
                           (AList.update ''pipeline'' (get_or imp ''pipeline'' (JObj [])) node)))\<rparr>)
            else Inl AttributeError)"
proof (cases "is_obj u")
  case False
  then have "update_method u (JObj []) = Inl AttributeError" by (cases u) simp_all
  then have "via (manifest st) ul (\<lambda>urls. update_method urls (JObj [])) = Inl AttributeError"
    unfolding via_obj [OF urls] by simp
  with False show ?thesis
    unfolding process_v1_entry [OF node mpp]
    using pth loaded
    by (simp add: import_parts_no_sources [OF none] ul del: assign.simps)
next
  case True
  then obtain kvs where u: "u = JObj kvs" by (cases u) auto
  let ?P = "get_or imp ''pipeline'' (JObj [])"
  have same: "assign (manifest st) ul u = manifest st"
    using urls by (rule assign_deref)
  have v1: "via (manifest st) ul (\<lambda>urls. update_method urls (JObj [])) = Inr (manifest st)"
    unfolding via_obj [OF urls] using same by (simp add: u dict_update_def del: assign.simps)
  have v2: "via (manifest st) l (\<lambda>todo. setitem todo ''pipeline'' ?P) =
              Inr (assign (manifest st) l (JObj (AList.update ''pipeline'' ?P node)))"
    unfolding via_obj [OF node] by simp
  have has: "mpp_key \<in> set (map fst (AList.update ''pipeline'' ?P node))"
    using mpp by (auto simp: AList.dom_update dest: map_of_SomeD intro: rev_image_eqI)
  have v3: "via (assign (manifest st) l (JObj (AList.update ''pipeline'' ?P node))) l
               (\<lambda>todo. delitem todo mpp_key) =
            Inr (assign (manifest st) l
                   (JObj (AList.delete mpp_key (AList.update ''pipeline'' ?P node))))"
    unfolding via_obj [OF deref_assign_same [OF node]] using has
    by (simp add: assign_assign del: assign.simps)
  from True show ?thesis
    unfolding process_v1_entry [OF node mpp]
    using pth loaded
    by (simp add: import_parts_no_sources [OF none] ul v1 v2 v3 del: assign.simps)
qed

text \<open>
  C5, as amended. A version 1 run has parsed the manifest, and its to-do entry
  imports the manifest \<open>imp\<close>. (1) If the \<^verbatim>\<open>sources\<close> of \<open>imp\<close> have a kind other than
  \<^verbatim>\<open>org.osbuild.files\<close>, the run fails and writes nothing: with \<^verbatim>\<open>AssertionError\<close>
  from line 122, or with \<^verbatim>\<open>TypeError\<close> from line 115 before it when the
  \<^verbatim>\<open>org.osbuild.files\<close> entry of the import is not a dict. (2) If \<open>imp\<close> has no
  \<^verbatim>\<open>sources\<close>, or a \<^verbatim>\<open>sources\<close> dict without entries, lines 113 and 114 create the
  kind before line 122 looks, so the import is accepted: \<^verbatim>\<open>_manifest_import_v1\<close>
  returns, and in the manifest it leaves the entry has the \<^verbatim>\<open>pipeline\<close> of \<open>imp\<close> (an
  empty dict if \<open>imp\<close> has none) and no import key; nothing else has changed. The
  one exception has nothing to do with \<open>imp\<close>: if the \<^verbatim>\<open>urls\<close> of the importing
  manifest, \<open>u\<close>, is not a dict, line 134 raises \<^verbatim>\<open>AttributeError\<close>.
\<close>

theorem C5_source_kinds_checked:
  assumes "get_method src ''version'' (JStr ''1'') = Inr (JStr ''1'')"
    and "manifest_parse_v1 st src = Inr st'"
    and "manifest_todo st' = [l]"
    and "deref (manifest st') l = Some (JObj node)"
    and "map_of node mpp_key = Some (JObj d)"
    and "map_of d ''path'' = Some (JStr p)"
    and "fs (os_path_join (cwd st') p) = Some (JObj imp)"
  shows "(map_of imp ''sources'' = Some (JObj srcs) \<and> k \<in> set (map fst srcs) \<and> k \<noteq> files_key
          \<longrightarrow> main_process fs st src =
                Inl (case map_of srcs files_key of
                       None \<Rightarrow> AssertionError
                     | Some v \<Rightarrow> if is_obj v then AssertionError else TypeError))
         \<and>
         ((map_of imp ''sources'' = None \<or> map_of imp ''sources'' = Some (JObj [])) \<and>
          deref (manifest st') urls_link = Some u
          \<longrightarrow> manifest_import_v1 fs st src =
                (if is_obj u
                 then Inr (st'\<lparr>manifest := assign (manifest st') l
                             (JObj (AList.delete mpp_key
                                (AList.update ''pipeline'' (get_or imp ''pipeline'' (JObj []))
                                   node)))\<rparr>)
                 else Inl AttributeError))"
proof (intro conjI impI)
  assume a: "map_of imp ''sources'' = Some (JObj srcs) \<and> k \<in> set (map fst srcs) \<and> k \<noteq> files_key"
  then have "map_of imp ''sources'' = Some (JObj srcs)" "k \<in> set (map fst srcs)" "k \<noteq> files_key"
    by simp_all
  with assms(4-7) have "manifest_process_v1 fs st' l =
          Inl (case map_of srcs files_key of
                 None \<Rightarrow> AssertionError
               | Some v \<Rightarrow> if is_obj v then AssertionError else TypeError)"
    by (rule process_v1_other_kind)
  with assms(1-3) show "main_process fs st src =
          Inl (case map_of srcs files_key of
                 None \<Rightarrow> AssertionError
               | Some v \<Rightarrow> if is_obj v then AssertionError else TypeError)"
    by (rule main_process_v1_raises)
next
  assume a: "(map_of imp ''sources'' = None \<or> map_of imp ''sources'' = Some (JObj [])) \<and>
          deref (manifest st') urls_link = Some u"
  then have none: "map_of imp ''sources'' = None \<or> map_of imp ''sources'' = Some (JObj [])"
    and urls: "deref (manifest st') urls_link = Some u" by simp_all
  from parse_v1_Inr(1) [OF assms(2)] have ul: "manifest_urls st' = Some urls_link" by simp
  have "manifest_process_v1 fs st' l =
           (if is_obj u
            then Inr (st'\<lparr>manifest := assign (manifest st') l
                        (JObj (AList.delete mpp_key
                           (AList.update ''pipeline'' (get_or imp ''pipeline'' (JObj [])) node)))\<rparr>)
            else Inl AttributeError)"
    using assms(4-7) none ul urls by (rule process_v1_no_sources)
  with assms(2,3)
  show "manifest_import_v1 fs st src =
                (if is_obj u
                 then Inr (st'\<lparr>manifest := assign (manifest st') l
                             (JObj (AList.delete mpp_key
                                (AList.update ''pipeline'' (get_or imp ''pipeline'' (JObj []))
                                   node)))\<rparr>)
                 else Inl AttributeError)"
    by (simp add: manifest_import_v1_def)
qed

text \<open>
  The theorem at an import that has the kind \<^verbatim>\<open>org.osbuild.ostree\<close> as well, and at
  an import that has no \<^verbatim>\<open>sources\<close> at all.
\<close>

theorem C5_witness:
  "main_process
     (\<lambda>p. if p = ''./imp.json''
          then Some (JObj [(''pipeline'', JObj []),
                           (''sources'', JObj [(files_key, JObj [(''urls'', JObj [])]),
                                               (''org.osbuild.ostree'', JObj [])])])
          else None)
     (main_state None)
     (JObj [(mpp_key, JObj [(''path'', JStr ''imp.json'')])])
   = Inl AssertionError \<and>
   manifest_import_v1
     (\<lambda>p. if p = ''./imp.json'' then Some (JObj [(''pipeline'', JObj [(''stages'', JArr [])])])
          else None)
     (main_state None)
     (JObj [(mpp_key, JObj [(''path'', JStr ''imp.json'')])])
   = Inr \<lparr>cwd = ''.'',
          manifest = JObj [(''sources'', JObj [(files_key, JObj [(''urls'', JObj [])])]),
                           (''pipeline'', JObj [(''stages'', JArr [])])],
          manifest_urls = Some urls_link,
          manifest_todo = [[]]\<rparr>"
proof
  have "main_process
     (\<lambda>p. if p = ''./imp.json''
          then Some (JObj [(''pipeline'', JObj []),
                           (''sources'', JObj [(files_key, JObj [(''urls'', JObj [])]),
                                               (''org.osbuild.ostree'', JObj [])])])
          else None)
     (main_state None)
     (JObj [(mpp_key, JObj [(''path'', JStr ''imp.json'')])])
   = Inl (case map_of [(files_key, JObj [(''urls'', JObj [])]), (''org.osbuild.ostree'', JObj [])]
                 files_key of
            None \<Rightarrow> AssertionError
          | Some v \<Rightarrow> if is_obj v then AssertionError else TypeError)"
    by (rule C5_source_kinds_checked
          [where l = "[]" and k = "''org.osbuild.ostree''" and p = "''imp.json''"
             and d = "[(''path'', JStr ''imp.json'')]"
             and node = "[(mpp_key, JObj [(''path'', JStr ''imp.json'')]),
                          (''sources'', JObj [(files_key, JObj [(''urls'', JObj [])])])]"
             and imp = "[(''pipeline'', JObj []),
                         (''sources'', JObj [(files_key, JObj [(''urls'', JObj [])]),
                                             (''org.osbuild.ostree'', JObj [])])]"
             and srcs = "[(files_key, JObj [(''urls'', JObj [])]), (''org.osbuild.ostree'', JObj [])]"
             and st' = "\<lparr>cwd = ''.'',
                          manifest = JObj [(mpp_key, JObj [(''path'', JStr ''imp.json'')]),
                                           (''sources'', JObj [(files_key, JObj [(''urls'', JObj [])])])],
                          manifest_urls = Some urls_link,
                          manifest_todo = [[]]\<rparr>",
           THEN conjunct1, THEN mp])
       (simp_all add: run_defs)
  then show "main_process
     (\<lambda>p. if p = ''./imp.json''
          then Some (JObj [(''pipeline'', JObj []),
                           (''sources'', JObj [(files_key, JObj [(''urls'', JObj [])]),
                                               (''org.osbuild.ostree'', JObj [])])])
          else None)
     (main_state None)
     (JObj [(mpp_key, JObj [(''path'', JStr ''imp.json'')])])
   = Inl AssertionError" by simp
next
  let ?st = "\<lparr>cwd = ''.'',
               manifest = JObj [(mpp_key, JObj [(''path'', JStr ''imp.json'')]),
                                (''sources'', JObj [(files_key, JObj [(''urls'', JObj [])])])],
               manifest_urls = Some urls_link,
               manifest_todo = [[]]\<rparr>"
  have "manifest_import_v1
     (\<lambda>p. if p = ''./imp.json'' then Some (JObj [(''pipeline'', JObj [(''stages'', JArr [])])])
          else None)
     (main_state None)
     (JObj [(mpp_key, JObj [(''path'', JStr ''imp.json'')])])
   = (if is_obj (JObj [])
      then Inr (?st\<lparr>manifest := assign (manifest ?st) []
            (JObj (AList.delete mpp_key
               (AList.update ''pipeline''
                  (get_or [(''pipeline'', JObj [(''stages'', JArr [])])] ''pipeline'' (JObj []))
                  [(mpp_key, JObj [(''path'', JStr ''imp.json'')]),
                   (''sources'', JObj [(files_key, JObj [(''urls'', JObj [])])])])))\<rparr>)
      else Inl AttributeError)"
    by (rule C5_source_kinds_checked
          [where l = "[]" and p = "''imp.json''" and u = "JObj []"
             and d = "[(''path'', JStr ''imp.json'')]"
             and node = "[(mpp_key, JObj [(''path'', JStr ''imp.json'')]),
                          (''sources'', JObj [(files_key, JObj [(''urls'', JObj [])])])]"
             and imp = "[(''pipeline'', JObj [(''stages'', JArr [])])]"
             and st' = "?st",
           THEN conjunct2, THEN mp])
       (simp_all add: run_defs)
  then show "manifest_import_v1
     (\<lambda>p. if p = ''./imp.json'' then Some (JObj [(''pipeline'', JObj [(''stages'', JArr [])])])
          else None)
     (main_state None)
     (JObj [(mpp_key, JObj [(''path'', JStr ''imp.json'')])])
   = Inr \<lparr>cwd = ''.'',
          manifest = JObj [(''sources'', JObj [(files_key, JObj [(''urls'', JObj [])])]),
                           (''pipeline'', JObj [(''stages'', JArr [])])],
          manifest_urls = Some urls_link,
          manifest_todo = [[]]\<rparr>"
    by (simp add: get_or_def)
qed

text \<open>
  C5 as stated fails: a source mapping with no kind at all does not contain
  exactly the kind \<^verbatim>\<open>org.osbuild.files\<close>, but line 114 inserts that kind before
  line 122 looks, so the import is accepted and the result is written.
\<close>

theorem C5_empty_sources_counterexample:
  "main_process
     (\<lambda>p. if p = ''./imp.json''
          then Some (JObj [(''pipeline'', JObj [(''stages'', JArr [])]), (''sources'', JObj [])])
          else None)
     (main_state None)
     (JObj [(mpp_key, JObj [(''path'', JStr ''imp.json'')])])
   = Inr (0, Some (JObj [(''sources'', JObj [(files_key, JObj [(''urls'', JObj [])])]),
                         (''pipeline'', JObj [(''stages'', JArr [])])]))"
  by (simp add: run_defs)

section \<open>Imports without \<^verbatim>\<open>path\<close> or \<^verbatim>\<open>id\<close>\<close>

text \<open>
  A call of \<^verbatim>\<open>_manifest_process_v2\<close> for one pipeline leaves the other elements of
  \<^verbatim>\<open>pipelines\<close> alone.
\<close>

lemma deref_assign_other_idx:
  "i \<noteq> j \<Longrightarrow>
   deref (assign (JObj m) [Key k, Idx j] x) [Key k, Idx i] = deref (JObj m) [Key k, Idx i]"
proof (cases "map_of m k")
  case None
  then show ?thesis by simp
next
  case (Some v)
  assume "i \<noteq> j"
  then show ?thesis using Some
    by (cases v) (auto simp: AList.update_conv')
qed

lemma deref_update_sources_eq:
  "deref (JObj (AList.update ''sources'' s m)) (Key ''pipelines'' # p) =
   deref (JObj m) (Key ''pipelines'' # p)"
  by (simp add: AList.update_conv')

lemma process_v2_frame:
  assumes run: "manifest_process_v2 fs st [Key ''pipelines'', Idx j] = Inr st'"
    and ne: "i \<noteq> j"
  shows "deref (manifest st') [Key ''pipelines'', Idx i] =
           deref (manifest st) [Key ''pipelines'', Idx i]"
    and "manifest_urls st' = manifest_urls st"
proof -
  from run obtain m1 sources where
    e1: "manifest_enter (manifest st) ''sources'' (JObj []) = Inr (m1, sources)"
    by (auto simp: manifest_process_v2_def split: sum.splits)
  from manifest_enter_Inr [OF e1] obtain m where m: "manifest st = JObj m"
    and m1: "m1 = JObj (if map_of m ''sources'' = None then AList.update ''sources'' (JObj []) m else m)"
    by blast
  have same: "deref m1 (Key ''pipelines'' # p) = deref (JObj m) (Key ''pipelines'' # p)" for p
    unfolding m1 by (simp add: AList.update_conv')
  from run e1 obtain todo where t1: "deref m1 [Key ''pipelines'', Idx j] = Some todo"
    by (auto simp: manifest_process_v2_def split: sum.splits option.splits)
  then have t: "deref (JObj m) [Key ''pipelines'', Idx j] = Some todo"
    unfolding same .
  note eq = run [unfolded process_v2_entry [OF m t]]
  from eq obtain s x where st': "st' = st\<lparr>manifest :=
      assign (JObj (AList.update ''sources'' s m)) [Key ''pipelines'', Idx j] x\<rparr>"
    by (auto split: sum.splits if_splits)
  show "manifest_urls st' = manifest_urls st" unfolding st' by simp
  have "deref (manifest st') [Key ''pipelines'', Idx i] =
        deref (JObj (AList.update ''sources'' s m)) [Key ''pipelines'', Idx i]"
    unfolding st' using deref_assign_other_idx [OF ne] by simp
  also have "\<dots> = deref (JObj m) [Key ''pipelines'', Idx i]"
    by (rule deref_update_sources_eq)
  finally show "deref (manifest st') [Key ''pipelines'', Idx i] =
           deref (manifest st) [Key ''pipelines'', Idx i]"
    unfolding m .
qed

lemma process_todos_v2_frame:
  "process_todos_v2 fs st ls = Inr st' \<Longrightarrow>
   \<forall>l \<in> set ls. \<exists>j. l = [Key ''pipelines'', Idx j] \<and> j \<noteq> i \<Longrightarrow>
   deref (manifest st') [Key ''pipelines'', Idx i] = deref (manifest st) [Key ''pipelines'', Idx i] \<and>
   manifest_urls st' = manifest_urls st"
proof (induction ls arbitrary: st)
  case Nil
  then show ?case by simp
next
  case (Cons l ls)
  from Cons.prems(2) obtain j where j: "l = [Key ''pipelines'', Idx j]" "j \<noteq> i" by auto
  from Cons.prems(1) obtain sm where
    one: "manifest_process_v2 fs st [Key ''pipelines'', Idx j] = Inr sm"
    and more: "process_todos_v2 fs sm ls = Inr st'"
    unfolding j by (auto split: sum.splits)
  from j(2) have "i \<noteq> j" by simp
  note f = process_v2_frame [OF one this]
  from Cons.prems(2) have "\<forall>l \<in> set ls. \<exists>j. l = [Key ''pipelines'', Idx j] \<and> j \<noteq> i" by simp
  from Cons.IH [OF more this] f show ?case by simp
qed

lemma process_todos_v2_append:
  "process_todos_v2 fs st (ls @ rest) =
     (case process_todos_v2 fs st ls of
        Inl e \<Rightarrow> Inl e
      | Inr st' \<Rightarrow> process_todos_v2 fs st' rest)"
  by (induction ls arbitrary: st) (auto split: sum.splits)

lemma collect_todo_links:
  "collect_todo ps k = Inr todo \<Longrightarrow> l \<in> set todo \<Longrightarrow>
   \<exists>j c. l = [Key ''pipelines'', Idx (k + j)] \<and> j < length ps \<and>
         get_method (ps ! j) mpp_key JNull = Inr c \<and> truthy c"
proof (induction ps arbitrary: k todo)
  case Nil
  then show ?case by simp
next
  case (Cons p ps)
  from Cons.prems(1) obtain c rest where c: "get_method p mpp_key JNull = Inr c"
    and rest: "collect_todo ps (Suc k) = Inr rest"
    and todo: "todo = (if truthy c then [Key ''pipelines'', Idx k] # rest else rest)"
    by (auto split: sum.splits)
  show ?case
  proof (cases "l \<in> set rest")
    case True
    from Cons.IH [OF rest True] obtain j c' where
      "l = [Key ''pipelines'', Idx (Suc k + j)]" "j < length ps"
      "get_method (ps ! j) mpp_key JNull = Inr c'" "truthy c'" by blast
    then have "l = [Key ''pipelines'', Idx (k + Suc j)] \<and> Suc j < length (p # ps) \<and>
         get_method ((p # ps) ! Suc j) mpp_key JNull = Inr c' \<and> truthy c'" by simp
    then show ?thesis by blast
  next
    case False
    with Cons.prems(2) todo have "truthy c" "l = [Key ''pipelines'', Idx k]"
      by (auto split: if_splits)
    with c have "l = [Key ''pipelines'', Idx (k + 0)] \<and> 0 < length (p # ps) \<and>
         get_method ((p # ps) ! 0) mpp_key JNull = Inr c \<and> truthy c" by simp
    then show ?thesis by blast
  qed
qed

lemma collect_todo_split:
  "collect_todo ps k = Inr todo \<Longrightarrow> i < length ps \<Longrightarrow>
   get_method (ps ! i) mpp_key JNull = Inr c \<Longrightarrow> truthy c \<Longrightarrow>
   \<exists>ls rest. todo = ls @ [Key ''pipelines'', Idx (k + i)] # rest \<and>
             (\<forall>l \<in> set ls. \<exists>j. l = [Key ''pipelines'', Idx j] \<and> j \<noteq> k + i)"
proof (induction ps arbitrary: k todo i)
  case Nil
  then show ?case by simp
next
  case (Cons p ps)
  from Cons.prems(1) obtain c0 rest0 where c0: "get_method p mpp_key JNull = Inr c0"
    and rest0: "collect_todo ps (Suc k) = Inr rest0"
    and todo: "todo = (if truthy c0 then [Key ''pipelines'', Idx k] # rest0 else rest0)"
    by (auto split: sum.splits)
  show ?case
  proof (cases i)
    case 0
    with Cons.prems(3,4) c0 have "truthy c0" by simp
    with todo 0 have "todo = [] @ [Key ''pipelines'', Idx (k + i)] # rest0" by simp
    then show ?thesis by fastforce
  next
    case (Suc i')
    with Cons.prems(2,3) have "i' < length ps" "get_method (ps ! i') mpp_key JNull = Inr c"
      by simp_all
    from Cons.IH [OF rest0 this Cons.prems(4)] obtain ls rest where
      r: "rest0 = ls @ [Key ''pipelines'', Idx (Suc k + i')] # rest"
      and a: "\<forall>l \<in> set ls. \<exists>j. l = [Key ''pipelines'', Idx j] \<and> j \<noteq> Suc k + i'"
      by blast
    let ?ls = "(if truthy c0 then [[Key ''pipelines'', Idx k]] else []) @ ls"
    have "todo = ?ls @ [Key ''pipelines'', Idx (k + i)] # rest"
      using todo r Suc by simp
    moreover have "\<forall>l \<in> set ?ls. \<exists>j. l = [Key ''pipelines'', Idx j] \<and> j \<noteq> k + i"
      using a Suc by auto
    ultimately show ?thesis by blast
  qed
qed


lemma process_v2_no_id_fatal:
  assumes "manifest st = JObj m"
    and "deref (JObj m) [Key ''pipelines'', Idx i] = Some (JObj e)"
    and "map_of e mpp_key = Some (JObj d)"
    and "map_of d ''id'' = None"
  shows "\<exists>err. manifest_process_v2 fs st [Key ''pipelines'', Idx i] = Inl err"
  using assms(3,4)
  by (simp add: process_v2_entry [OF assms(1,2)] split: sum.splits option.splits)

lemma main_process_v2:
  assumes "get_method src ''version'' (JStr ''1'') = Inr (JStr ''2'')"
  shows "main_process fs sti src =
     (case manifest_parse_v2 sti src of
        Inl e \<Rightarrow> Inl e
      | Inr stp \<Rightarrow>
     (case process_todos_v2 fs stp (manifest_todo stp) of
        Inl e \<Rightarrow> Inl e
      | Inr st \<Rightarrow>
     (case sort_urls_state st of
        Inl e \<Rightarrow> Inl e
      | Inr st' \<Rightarrow> Inr (0, Some (manifest st')))))"
  using assms by (simp add: main_process_def manifest_import_v2_def split: sum.splits)

lemma parse_v2_obj:
  assumes "deref src [Key ''pipelines'', Idx i] = Some x"
  shows "\<exists>ps. i < length ps \<and> ps ! i = x \<and>
     manifest_parse_v2 sti src =
       (case collect_todo ps 0 of
          Inl e \<Rightarrow> Inl e
        | Inr todo \<Rightarrow> Inr (sti\<lparr>manifest := src, manifest_todo := todo\<rparr>))"
proof -
  from assms obtain s where s: "src = JObj s" by (cases src) auto
  with assms obtain v where v: "map_of s ''pipelines'' = Some v" "deref v [Idx i] = Some x"
    by (auto split: option.splits)
  then obtain ps where ps: "v = JArr ps" by (cases v) auto
  with v have "i < length ps" "ps ! i = x" by (auto split: if_splits)
  moreover have "manifest_parse_v2 sti src =
       (case collect_todo ps 0 of
          Inl e \<Rightarrow> Inl e
        | Inr todo \<Rightarrow> Inr (sti\<lparr>manifest := src, manifest_todo := todo\<rparr>))"
    unfolding s using v(1) ps by (simp add: manifest_parse_v2_def)
  ultimately show ?thesis by blast
qed

lemma v2_missing_field_fatal:
  assumes ver: "get_method src ''version'' (JStr ''1'') = Inr (JStr ''2'')"
    and entry: "deref src [Key ''pipelines'', Idx i] = Some (JObj e)"
    and mpp: "map_of e mpp_key = Some (JObj d)"
    and truthy: "d \<noteq> []"
    and missing: "map_of d ''path'' = None \<or> map_of d ''id'' = None"
  shows "\<exists>err. main_process fs sti src = Inl err"
proof -
  from parse_v2_obj [OF entry, of sti] obtain ps where i: "i < length ps" "ps ! i = JObj e"
    and parse: "manifest_parse_v2 sti src =
       (case collect_todo ps 0 of
          Inl e \<Rightarrow> Inl e
        | Inr todo \<Rightarrow> Inr (sti\<lparr>manifest := src, manifest_todo := todo\<rparr>))"
    by blast
  show ?thesis
  proof (cases "collect_todo ps 0")
    case (Inl err)
    then show ?thesis by (simp add: main_process_v2 [OF ver] parse)
  next
    case (Inr todo)
    let ?stp = "sti\<lparr>manifest := src, manifest_todo := todo\<rparr>"
    from Inr parse have p: "manifest_parse_v2 sti src = Inr ?stp" by simp
    have g: "get_method (ps ! i) mpp_key JNull = Inr (JObj d)" using i(2) mpp by simp
    from collect_todo_split [OF Inr i(1) g] truthy obtain ls rest where
      todo: "todo = ls @ [Key ''pipelines'', Idx i] # rest"
      and ls: "\<forall>l \<in> set ls. \<exists>j. l = [Key ''pipelines'', Idx j] \<and> j \<noteq> i"
      by auto
    show ?thesis
    proof (cases "process_todos_v2 fs ?stp ls")
      case (Inl err)
      then have "process_todos_v2 fs ?stp todo = Inl err"
        unfolding todo process_todos_v2_append by simp
      then show ?thesis by (simp add: main_process_v2 [OF ver] p)
    next
      case (Inr st)
      from process_todos_v2_frame [OF Inr ls]
      have at: "deref (manifest st) [Key ''pipelines'', Idx i] = Some (JObj e)"
        using entry by simp
      then obtain m where m: "manifest st = JObj m" by (cases "manifest st") auto
      from at have at': "deref (JObj m) [Key ''pipelines'', Idx i] = Some (JObj e)"
        unfolding m .
      from missing obtain err where
        "manifest_process_v2 fs st [Key ''pipelines'', Idx i] = Inl err"
      proof
        assume "map_of d ''path'' = None"
        from process_v2_no_path [OF m at' mpp this] that show thesis by blast
      next
        assume "map_of d ''id'' = None"
        from process_v2_no_id_fatal [OF m at' mpp this] that show thesis by blast
      qed
      from main_process_v2_raises [OF ver p _ Inr this, of rest] todo
      show ?thesis by auto
    qed
  qed
qed

lemma v2_falsy_skipped:
  assumes ver: "get_method src ''version'' (JStr ''1'') = Inr (JStr ''2'')"
    and fresh: "manifest_urls sti = None"
    and entry: "deref src [Key ''pipelines'', Idx i] = Some (JObj e)"
    and falsy: "\<not> truthy (get_or e mpp_key JNull)"
    and run: "main_process fs sti src = Inr (rc, out)"
  shows "\<exists>stp. manifest_parse_v2 sti src = Inr stp \<and>
           [Key ''pipelines'', Idx i] \<notin> set (manifest_todo stp) \<and>
           rc = 0 \<and> (\<exists>m. out = Some m \<and> deref m [Key ''pipelines'', Idx i] = Some (JObj e))"
proof -
  from parse_v2_obj [OF entry, of sti] obtain ps where i: "i < length ps" "ps ! i = JObj e"
    and parse: "manifest_parse_v2 sti src =
       (case collect_todo ps 0 of
          Inl e \<Rightarrow> Inl e
        | Inr todo \<Rightarrow> Inr (sti\<lparr>manifest := src, manifest_todo := todo\<rparr>))"
    by blast
  note eq = run [unfolded main_process_v2 [OF ver]]
  from eq obtain stp where p: "manifest_parse_v2 sti src = Inr stp"
    by (auto split: sum.splits)
  with parse obtain todo where c: "collect_todo ps 0 = Inr todo"
    and stp: "stp = sti\<lparr>manifest := src, manifest_todo := todo\<rparr>"
    by (auto split: sum.splits)
  have others: "\<forall>l \<in> set todo. \<exists>j. l = [Key ''pipelines'', Idx j] \<and> j \<noteq> i"
  proof
    fix l assume "l \<in> set todo"
    from collect_todo_links [OF c this] obtain j c' where
      j: "l = [Key ''pipelines'', Idx (0 + j)]" "j < length ps"
        "get_method (ps ! j) mpp_key JNull = Inr c'" "truthy c'" by blast
    have "j \<noteq> i"
    proof
      assume "j = i"
      with j(3) i(2) have "c' = get_or e mpp_key JNull" by (simp add: get_or_def)
      with j(4) falsy show False by simp
    qed
    with j(1) show "\<exists>j. l = [Key ''pipelines'', Idx j] \<and> j \<noteq> i" by simp
  qed
  then have notin: "[Key ''pipelines'', Idx i] \<notin> set (manifest_todo stp)"
    unfolding stp by auto
  from eq p obtain st where t: "process_todos_v2 fs stp todo = Inr st"
    and s: "(case sort_urls_state st of
               Inl e \<Rightarrow> Inl e
             | Inr st' \<Rightarrow> Inr (0, Some (manifest st'))) = Inr (rc, out)"
    unfolding stp by (auto split: sum.splits)
  from process_todos_v2_frame [OF t others]
  have at: "deref (manifest st) [Key ''pipelines'', Idx i] = Some (JObj e)"
    and u: "manifest_urls st = None"
    unfolding stp using entry fresh by simp_all
  from s u have "rc = 0" "out = Some (manifest st)"
    by (simp_all add: sort_urls_state_def)
  with p notin at show ?thesis by blast
qed

lemma v1_no_path_fatal:
  assumes ver: "get_method src ''version'' (JStr ''1'') = Inr (JStr ''1'')"
    and shallower: "\<forall>j<dep. \<exists>n. deref src (chain_link j) = Some (JObj n) \<and> n \<noteq> [] \<and>
                                 map_of n mpp_key = None"
    and at_d: "deref src (chain_link dep) = Some (JObj node)"
    and has: "map_of node mpp_key = Some (JObj d)"
    and nopath: "map_of d ''path'' = None"
  shows "main_process fs sti src =
           Inl (case manifest_parse_v1 sti src of Inl err \<Rightarrow> err | Inr st \<Rightarrow> KeyError ''path'')"
proof (cases "manifest_parse_v1 sti src")
  case (Inl err)
  then show ?thesis using ver by (simp add: main_process_def manifest_import_v1_def)
next
  case (Inr st)
  let ?D = "with_defaults src"
  note p = parse_v1_Inr [OF Inr]
  from p(1) have stp: "manifest st = ?D" by simp
  from has have ne: "node \<noteq> []" by auto
  from chain_with_defaults [OF at_d ne] obtain nodeD where
    nD: "deref ?D (chain_link dep) = Some (JObj nodeD)"
    and nDf: "\<forall>f. f \<noteq> ''sources'' \<longrightarrow> map_of nodeD f = map_of node f"
    by blast
  from nDf has have hasD: "map_of nodeD mpp_key = Some (JObj d)" by simp
  have shD: "\<forall>j<dep. \<exists>n. deref ?D (chain_link j) = Some (JObj n) \<and> n \<noteq> [] \<and>
                         map_of n mpp_key = None"
  proof (intro allI impI)
    fix j assume "j < dep"
    with shallower obtain n where n: "deref src (chain_link j) = Some (JObj n)" "n \<noteq> []"
      "map_of n mpp_key = None" by blast
    from chain_with_defaults [OF n(1,2)] n(3)
    show "\<exists>n. deref ?D (chain_link j) = Some (JObj n) \<and> n \<noteq> [] \<and> map_of n mpp_key = None"
      by auto
  qed
  from find_todo_at [OF shD nD hasD, of "[]"] p(2)
  have todo: "manifest_todo st = [chain_link dep]" by simp
  have "manifest_process_v1 fs st (chain_link dep) = Inl (KeyError ''path'')"
    using nD [folded stp] hasD nopath by (rule process_v1_no_path)
  from main_process_v1_raises [OF ver Inr todo this] Inr show ?thesis by simp
qed

text \<open>
  C9, as amended. (1) In a version 1 manifest the dict at depth \<open>dep\<close> of the
  \<^verbatim>\<open>pipeline.build\<close> chain is the first one with the import key, and its import
  dict has no \<^verbatim>\<open>path\<close>. This is the import the tool processes. The run ends with an
  exception and writes nothing: with the exception of \<^verbatim>\<open>_manifest_parse_v1\<close> if
  that raises one, with \<^verbatim>\<open>KeyError\<close> for \<^verbatim>\<open>path\<close> otherwise. (2) A version 2 run that
  reaches a to-do entry whose import dict has no \<^verbatim>\<open>path\<close> ends with \<^verbatim>\<open>KeyError\<close> for
  \<^verbatim>\<open>path\<close>. (3) A version 2 run that reaches a to-do entry whose import has a \<^verbatim>\<open>path\<close>
  but no \<^verbatim>\<open>id\<close> ends with \<^verbatim>\<open>KeyError\<close> for \<^verbatim>\<open>id\<close> once the file is loaded and its
  sources are merged. (4) Whatever the file and the sources are, a version 2
  run that reaches a to-do entry whose import dict has no \<^verbatim>\<open>id\<close> ends with an
  exception: line 188 is on the way to the end of \<^verbatim>\<open>_manifest_process_v2\<close>.
  (5) A version 2 manifest has a pipeline whose import is a non-empty dict
  without \<^verbatim>\<open>path\<close> or without \<^verbatim>\<open>id\<close>. Whatever the other pipelines and the files are,
  the run ends with an exception and writes nothing. (6) A version 2 manifest
  has a pipeline whose import is falsy (no import key, \<^verbatim>\<open>null\<close>, an empty dict), the
  state is the one \<^verbatim>\<open>_main_state\<close> makes, and the run writes a manifest. Then the
  pipeline is not in the to-do list, the return value is 0, and the pipeline is
  in the output what it was in the input.
\<close>

theorem C9_missing_field_raises:
  "(get_method src ''version'' (JStr ''1'') = Inr (JStr ''1'') \<and>
    (\<forall>j<dep. \<exists>n. deref src (chain_link j) = Some (JObj n) \<and> n \<noteq> [] \<and>
                     map_of n mpp_key = None) \<and>
    deref src (chain_link dep) = Some (JObj node) \<and>
    map_of node mpp_key = Some (JObj d) \<and>
    map_of d ''path'' = None
    \<longrightarrow> main_process fs sti src =
          Inl (case manifest_parse_v1 sti src of Inl err \<Rightarrow> err | Inr st \<Rightarrow> KeyError ''path''))
   \<and>
   (get_method src ''version'' (JStr ''1'') = Inr (JStr ''2'') \<and>
    manifest_parse_v2 sti src = Inr stp \<and>
    manifest_todo stp = ls @ [Key ''pipelines'', Idx i] # rest \<and>
    process_todos_v2 fs stp ls = Inr st \<and>
    manifest st = JObj m \<and>
    deref (JObj m) [Key ''pipelines'', Idx i] = Some (JObj e) \<and>
    map_of e mpp_key = Some (JObj d) \<and>
    map_of d ''path'' = None
    \<longrightarrow> main_process fs sti src = Inl (KeyError ''path''))
   \<and>
   (get_method src ''version'' (JStr ''1'') = Inr (JStr ''2'') \<and>
    manifest_parse_v2 sti src = Inr stp \<and>
    manifest_todo stp = ls @ [Key ''pipelines'', Idx i] # rest \<and>
    process_todos_v2 fs stp ls = Inr st \<and>
    manifest st = JObj m \<and>
    deref (JObj m) [Key ''pipelines'', Idx i] = Some (JObj e) \<and>
    map_of e mpp_key = Some (JObj d) \<and>
    map_of d ''path'' = Some (JStr p) \<and>
    map_of d ''id'' = None \<and>
    fs (os_path_join (cwd st) p) = Some (JObj imp) \<and>
    items_method (get_or imp ''sources'' (JObj [])) = Inr its \<and>
    merge_sources (get_or m ''sources'' (JObj [])) its = Inr sources'
    \<longrightarrow> main_process fs sti src = Inl (KeyError ''id''))
   \<and>
   (get_method src ''version'' (JStr ''1'') = Inr (JStr ''2'') \<and>
    manifest_parse_v2 sti src = Inr stp \<and>
    manifest_todo stp = ls @ [Key ''pipelines'', Idx i] # rest \<and>
    process_todos_v2 fs stp ls = Inr st \<and>
    manifest st = JObj m \<and>
    deref (JObj m) [Key ''pipelines'', Idx i] = Some (JObj e) \<and>
    map_of e mpp_key = Some (JObj d) \<and>
    map_of d ''id'' = None
    \<longrightarrow> (\<exists>err. main_process fs sti src = Inl err))
   \<and>
   (get_method src ''version'' (JStr ''1'') = Inr (JStr ''2'') \<and>
    deref src [Key ''pipelines'', Idx i] = Some (JObj e) \<and>
    map_of e mpp_key = Some (JObj d) \<and> d \<noteq> [] \<and>
    (map_of d ''path'' = None \<or> map_of d ''id'' = None)
    \<longrightarrow> (\<exists>err. main_process fs sti src = Inl err))
   \<and>
   (get_method src ''version'' (JStr ''1'') = Inr (JStr ''2'') \<and>
    manifest_urls sti = None \<and>
    deref src [Key ''pipelines'', Idx i] = Some (JObj e) \<and>
    \<not> truthy (get_or e mpp_key JNull) \<and>
    main_process fs sti src = Inr (rc, out)
    \<longrightarrow> (\<exists>stp. manifest_parse_v2 sti src = Inr stp \<and>
               [Key ''pipelines'', Idx i] \<notin> set (manifest_todo stp) \<and>
               rc = 0 \<and>
               (\<exists>m. out = Some m \<and> deref m [Key ''pipelines'', Idx i] = Some (JObj e))))"
proof (intro conjI impI)
  assume "get_method src ''version'' (JStr ''1'') = Inr (JStr ''1'') \<and>
    (\<forall>j<dep. \<exists>n. deref src (chain_link j) = Some (JObj n) \<and> n \<noteq> [] \<and>
                     map_of n mpp_key = None) \<and>
    deref src (chain_link dep) = Some (JObj node) \<and>
    map_of node mpp_key = Some (JObj d) \<and>
    map_of d ''path'' = None"
  then have "get_method src ''version'' (JStr ''1'') = Inr (JStr ''1'')"
    and "\<forall>j<dep. \<exists>n. deref src (chain_link j) = Some (JObj n) \<and> n \<noteq> [] \<and>
                     map_of n mpp_key = None"
    and "deref src (chain_link dep) = Some (JObj node)"
    and "map_of node mpp_key = Some (JObj d)"
    and "map_of d ''path'' = None"
    by blast+
  then show "main_process fs sti src =
          Inl (case manifest_parse_v1 sti src of Inl err \<Rightarrow> err | Inr st \<Rightarrow> KeyError ''path'')"
    by (rule v1_no_path_fatal)
next
  assume a: "get_method src ''version'' (JStr ''1'') = Inr (JStr ''2'') \<and>
    manifest_parse_v2 sti src = Inr stp \<and>
    manifest_todo stp = ls @ [Key ''pipelines'', Idx i] # rest \<and>
    process_todos_v2 fs stp ls = Inr st \<and>
    manifest st = JObj m \<and>
    deref (JObj m) [Key ''pipelines'', Idx i] = Some (JObj e) \<and>
    map_of e mpp_key = Some (JObj d) \<and>
    map_of d ''path'' = None"
  then have "manifest_process_v2 fs st [Key ''pipelines'', Idx i] = Inl (KeyError ''path'')"
    by (intro process_v2_no_path) auto
  with a show "main_process fs sti src = Inl (KeyError ''path'')"
    by (intro main_process_v2_raises) auto
next
  assume a: "get_method src ''version'' (JStr ''1'') = Inr (JStr ''2'') \<and>
    manifest_parse_v2 sti src = Inr stp \<and>
    manifest_todo stp = ls @ [Key ''pipelines'', Idx i] # rest \<and>
    process_todos_v2 fs stp ls = Inr st \<and>
    manifest st = JObj m \<and>
    deref (JObj m) [Key ''pipelines'', Idx i] = Some (JObj e) \<and>
    map_of e mpp_key = Some (JObj d) \<and>
    map_of d ''path'' = Some (JStr p) \<and>
    map_of d ''id'' = None \<and>
    fs (os_path_join (cwd st) p) = Some (JObj imp) \<and>
    items_method (get_or imp ''sources'' (JObj [])) = Inr its \<and>
    merge_sources (get_or m ''sources'' (JObj [])) its = Inr sources'"
  then have "manifest_process_v2 fs st [Key ''pipelines'', Idx i] = Inl (KeyError ''id'')"
    by (intro process_v2_no_id) auto
  with a show "main_process fs sti src = Inl (KeyError ''id'')"
    by (intro main_process_v2_raises) auto
next
  assume a: "get_method src ''version'' (JStr ''1'') = Inr (JStr ''2'') \<and>
    manifest_parse_v2 sti src = Inr stp \<and>
    manifest_todo stp = ls @ [Key ''pipelines'', Idx i] # rest \<and>
    process_todos_v2 fs stp ls = Inr st \<and>
    manifest st = JObj m \<and>
    deref (JObj m) [Key ''pipelines'', Idx i] = Some (JObj e) \<and>
    map_of e mpp_key = Some (JObj d) \<and>
    map_of d ''id'' = None"
  then obtain err where
    "manifest_process_v2 fs st [Key ''pipelines'', Idx i] = Inl err"
    using process_v2_no_id_fatal [of st m i e d fs] by auto
  with a have "main_process fs sti src = Inl err"
    by (intro main_process_v2_raises) auto
  then show "\<exists>err. main_process fs sti src = Inl err" ..
next
  assume "get_method src ''version'' (JStr ''1'') = Inr (JStr ''2'') \<and>
    deref src [Key ''pipelines'', Idx i] = Some (JObj e) \<and>
    map_of e mpp_key = Some (JObj d) \<and> d \<noteq> [] \<and>
    (map_of d ''path'' = None \<or> map_of d ''id'' = None)"
  then have "get_method src ''version'' (JStr ''1'') = Inr (JStr ''2'')"
    and "deref src [Key ''pipelines'', Idx i] = Some (JObj e)"
    and "map_of e mpp_key = Some (JObj d)" and "d \<noteq> []"
    and "map_of d ''path'' = None \<or> map_of d ''id'' = None"
    by simp_all
  then show "\<exists>err. main_process fs sti src = Inl err"
    by (rule v2_missing_field_fatal)
next
  assume "get_method src ''version'' (JStr ''1'') = Inr (JStr ''2'') \<and>
    manifest_urls sti = None \<and>
    deref src [Key ''pipelines'', Idx i] = Some (JObj e) \<and>
    \<not> truthy (get_or e mpp_key JNull) \<and>
    main_process fs sti src = Inr (rc, out)"
  then have "get_method src ''version'' (JStr ''1'') = Inr (JStr ''2'')"
    and "manifest_urls sti = None"
    and "deref src [Key ''pipelines'', Idx i] = Some (JObj e)"
    and "\<not> truthy (get_or e mpp_key JNull)"
    and "main_process fs sti src = Inr (rc, out)"
    by blast+
  then show "\<exists>stp. manifest_parse_v2 sti src = Inr stp \<and>
               [Key ''pipelines'', Idx i] \<notin> set (manifest_todo stp) \<and>
               rc = 0 \<and>
               (\<exists>m. out = Some m \<and> deref m [Key ''pipelines'', Idx i] = Some (JObj e))"
    by (rule v2_falsy_skipped)
qed

text \<open>
  The six parts of the theorem, each at a manifest of its own. In the fourth
  and the fifth the file of the import does not exist. In the sixth the first
  pipeline has the import \<^verbatim>\<open>{}\<close> and stays, and the second one is resolved.
\<close>

theorem C9_witness:
  "main_process (\<lambda>p. None) (main_state None)
     (JObj [(''pipeline'', JObj [(''build'', JObj [(mpp_key, JObj [])])])])
     = Inl (KeyError ''path'') \<and>
   main_process (\<lambda>p. None) (main_state None)
     (JObj [(''version'', JStr ''2''),
            (''pipelines'', JArr [JObj [(''name'', JStr ''build''),
                                        (mpp_key, JObj [(''id'', JStr ''stage1'')])]])])
     = Inl (KeyError ''path'') \<and>
   main_process (\<lambda>p. if p = ''./base.json'' then Some (JObj [(''pipelines'', JArr [])]) else None)
     (main_state None)
     (JObj [(''version'', JStr ''2''),
            (''pipelines'', JArr [JObj [(''name'', JStr ''build''),
                                        (mpp_key, JObj [(''path'', JStr ''base.json'')])]])])
     = Inl (KeyError ''id'') \<and>
   (\<exists>err. main_process (\<lambda>p. None) (main_state None)
     (JObj [(''version'', JStr ''2''),
            (''pipelines'', JArr [JObj [(''name'', JStr ''build''),
                                        (mpp_key, JObj [(''path'', JStr ''base.json'')])]])])
     = Inl err) \<and>
   (\<exists>err. main_process (\<lambda>p. None) (main_state None)
     (JObj [(''version'', JStr ''2''),
            (''pipelines'', JArr [JObj [(''name'', JStr ''tree'')],
                                  JObj [(''name'', JStr ''build''),
                                        (mpp_key, JObj [(''path'', JStr ''base.json'')])]])])
     = Inl err) \<and>
   (\<exists>stp. manifest_parse_v2 (main_state None)
     (JObj [(''version'', JStr ''2''),
            (''pipelines'', JArr [JObj [(''name'', JStr ''tree''), (mpp_key, JObj [])],
                                  JObj [(''name'', JStr ''build''),
                                        (mpp_key, JObj [(''path'', JStr ''base.json''),
                                                        (''id'', JStr ''stage1'')])]])]) = Inr stp \<and>
     [Key ''pipelines'', Idx 0] \<notin> set (manifest_todo stp) \<and>
     (0::nat) = 0 \<and>
     (\<exists>m. Some (JObj [(''version'', JStr ''2''),
                  (''pipelines'', JArr [JObj [(''name'', JStr ''tree''), (mpp_key, JObj [])],
                                        JObj [(''name'', JStr ''stage1''),
                                              (''stages'', JArr [])]]),
                  (''sources'', JObj [])]) = Some m \<and>
          deref m [Key ''pipelines'', Idx 0] =
            Some (JObj [(''name'', JStr ''tree''), (mpp_key, JObj [])])))"
proof (intro conjI)
  show "main_process (\<lambda>p. None) (main_state None)
     (JObj [(''pipeline'', JObj [(''build'', JObj [(mpp_key, JObj [])])])])
     = Inl (KeyError ''path'')"
    using C9_missing_field_raises
          [where dep = "Suc 0" and d = "[]" and node = "[(mpp_key, JObj [])]"
             and fs = "\<lambda>p. None" and sti = "main_state None"
             and src = "JObj [(''pipeline'', JObj [(''build'', JObj [(mpp_key, JObj [])])])]",
           THEN conjunct1]
    by (simp add: run_defs)
next
  show "main_process (\<lambda>p. None) (main_state None)
     (JObj [(''version'', JStr ''2''),
            (''pipelines'', JArr [JObj [(''name'', JStr ''build''),
                                        (mpp_key, JObj [(''id'', JStr ''stage1'')])]])])
     = Inl (KeyError ''path'')"
    by (rule C9_missing_field_raises
          [where ls = "[]" and rest = "[]" and i = 0 and d = "[(''id'', JStr ''stage1'')]"
             and e = "[(''name'', JStr ''build''), (mpp_key, JObj [(''id'', JStr ''stage1'')])]"
             and m = "[(''version'', JStr ''2''),
                       (''pipelines'', JArr [JObj [(''name'', JStr ''build''),
                                                   (mpp_key, JObj [(''id'', JStr ''stage1'')])]])]"
             and st = "\<lparr>cwd = ''.'',
                 manifest = JObj [(''version'', JStr ''2''),
                       (''pipelines'', JArr [JObj [(''name'', JStr ''build''),
                                                   (mpp_key, JObj [(''id'', JStr ''stage1'')])]])],
                 manifest_urls = None,
                 manifest_todo = [[Key ''pipelines'', Idx 0]]\<rparr>"
             and stp = "\<lparr>cwd = ''.'',
                 manifest = JObj [(''version'', JStr ''2''),
                       (''pipelines'', JArr [JObj [(''name'', JStr ''build''),
                                                   (mpp_key, JObj [(''id'', JStr ''stage1'')])]])],
                 manifest_urls = None,
                 manifest_todo = [[Key ''pipelines'', Idx 0]]\<rparr>",
           THEN conjunct2, THEN conjunct1, THEN mp])
       (simp add: run_defs)
next
  show "main_process (\<lambda>p. if p = ''./base.json'' then Some (JObj [(''pipelines'', JArr [])]) else None)
     (main_state None)
     (JObj [(''version'', JStr ''2''),
            (''pipelines'', JArr [JObj [(''name'', JStr ''build''),
                                        (mpp_key, JObj [(''path'', JStr ''base.json'')])]])])
     = Inl (KeyError ''id'')"
    by (rule C9_missing_field_raises
          [where ls = "[]" and rest = "[]" and i = 0 and d = "[(''path'', JStr ''base.json'')]"
             and p = "''base.json''" and imp = "[(''pipelines'', JArr [])]"
             and its = "[]" and sources' = "JObj []"
             and e = "[(''name'', JStr ''build''), (mpp_key, JObj [(''path'', JStr ''base.json'')])]"
             and m = "[(''version'', JStr ''2''),
                       (''pipelines'', JArr [JObj [(''name'', JStr ''build''),
                                                   (mpp_key, JObj [(''path'', JStr ''base.json'')])]])]"
             and st = "\<lparr>cwd = ''.'',
                 manifest = JObj [(''version'', JStr ''2''),
                       (''pipelines'', JArr [JObj [(''name'', JStr ''build''),
                                                   (mpp_key, JObj [(''path'', JStr ''base.json'')])]])],
                 manifest_urls = None,
                 manifest_todo = [[Key ''pipelines'', Idx 0]]\<rparr>"
             and stp = "\<lparr>cwd = ''.'',
                 manifest = JObj [(''version'', JStr ''2''),
                       (''pipelines'', JArr [JObj [(''name'', JStr ''build''),
                                                   (mpp_key, JObj [(''path'', JStr ''base.json'')])]])],
                 manifest_urls = None,
                 manifest_todo = [[Key ''pipelines'', Idx 0]]\<rparr>",
           THEN conjunct2, THEN conjunct2, THEN conjunct1, THEN mp])
       (simp add: run_defs get_or_def)
next
  show "\<exists>err. main_process (\<lambda>p. None) (main_state None)
     (JObj [(''version'', JStr ''2''),
            (''pipelines'', JArr [JObj [(''name'', JStr ''build''),
                                        (mpp_key, JObj [(''path'', JStr ''base.json'')])]])])
     = Inl err"
    by (rule C9_missing_field_raises
          [where ls = "[]" and rest = "[]" and i = 0 and d = "[(''path'', JStr ''base.json'')]"
             and e = "[(''name'', JStr ''build''), (mpp_key, JObj [(''path'', JStr ''base.json'')])]"
             and m = "[(''version'', JStr ''2''),
                       (''pipelines'', JArr [JObj [(''name'', JStr ''build''),
                                                   (mpp_key, JObj [(''path'', JStr ''base.json'')])]])]"
             and st = "\<lparr>cwd = ''.'',
                 manifest = JObj [(''version'', JStr ''2''),
                       (''pipelines'', JArr [JObj [(''name'', JStr ''build''),
                                                   (mpp_key, JObj [(''path'', JStr ''base.json'')])]])],
                 manifest_urls = None,
                 manifest_todo = [[Key ''pipelines'', Idx 0]]\<rparr>"
             and stp = "\<lparr>cwd = ''.'',
                 manifest = JObj [(''version'', JStr ''2''),
                       (''pipelines'', JArr [JObj [(''name'', JStr ''build''),
                                                   (mpp_key, JObj [(''path'', JStr ''base.json'')])]])],
                 manifest_urls = None,
                 manifest_todo = [[Key ''pipelines'', Idx 0]]\<rparr>",
           THEN conjunct2, THEN conjunct2, THEN conjunct2, THEN conjunct1, THEN mp])
       (simp add: run_defs)
next
  show "\<exists>err. main_process (\<lambda>p. None) (main_state None)
     (JObj [(''version'', JStr ''2''),
            (''pipelines'', JArr [JObj [(''name'', JStr ''tree'')],
                                  JObj [(''name'', JStr ''build''),
                                        (mpp_key, JObj [(''path'', JStr ''base.json'')])]])])
     = Inl err"
    by (rule C9_missing_field_raises
          [where i = "Suc 0" and d = "[(''path'', JStr ''base.json'')]"
             and e = "[(''name'', JStr ''build''), (mpp_key, JObj [(''path'', JStr ''base.json'')])]",
           THEN conjunct2, THEN conjunct2, THEN conjunct2, THEN conjunct2, THEN conjunct1,
           THEN mp])
       simp
next
  show "\<exists>stp. manifest_parse_v2 (main_state None)
     (JObj [(''version'', JStr ''2''),
            (''pipelines'', JArr [JObj [(''name'', JStr ''tree''), (mpp_key, JObj [])],
                                  JObj [(''name'', JStr ''build''),
                                        (mpp_key, JObj [(''path'', JStr ''base.json''),
                                                        (''id'', JStr ''stage1'')])]])]) = Inr stp \<and>
     [Key ''pipelines'', Idx 0] \<notin> set (manifest_todo stp) \<and>
     (0::nat) = 0 \<and>
     (\<exists>m. Some (JObj [(''version'', JStr ''2''),
                  (''pipelines'', JArr [JObj [(''name'', JStr ''tree''), (mpp_key, JObj [])],
                                        JObj [(''name'', JStr ''stage1''),
                                              (''stages'', JArr [])]]),
                  (''sources'', JObj [])]) = Some m \<and>
          deref m [Key ''pipelines'', Idx 0] =
            Some (JObj [(''name'', JStr ''tree''), (mpp_key, JObj [])]))"
    by (rule C9_missing_field_raises
          [where i = 0 and rc = 0 and e = "[(''name'', JStr ''tree''), (mpp_key, JObj [])]"
             and fs = "\<lambda>p. if p = ''./base.json''
          then Some (JObj [(''pipelines'', JArr [JObj [(''name'', JStr ''stage1''),
                                                       (''stages'', JArr [])]])])
          else None"
             and out = "Some (JObj [(''version'', JStr ''2''),
                  (''pipelines'', JArr [JObj [(''name'', JStr ''tree''), (mpp_key, JObj [])],
                                        JObj [(''name'', JStr ''stage1''),
                                              (''stages'', JArr [])]]),
                  (''sources'', JObj [])])",
           THEN conjunct2, THEN conjunct2, THEN conjunct2, THEN conjunct2, THEN conjunct2,
           THEN mp])
       (simp add: run_defs get_or_def)
qed

text \<open>
  C9 as stated fails, in two ways. The import \<^verbatim>\<open>{}\<close> of a version 2 pipeline lacks
  \<^verbatim>\<open>path\<close> and \<^verbatim>\<open>id\<close>, but it is falsy, so line 153 leaves it out of the to-do list;
  the run returns 0 and writes the manifest as it was, import key included. In
  the version 1 manifest the import of the build dict lacks \<^verbatim>\<open>path\<close>, but the root
  has an import as well: the loop of lines 91 to 96 stops at the root, line 135
  replaces the \<^verbatim>\<open>pipeline\<close> of the root, the build dict with it, and the run returns
  0.
\<close>

theorem C9_skipped_directive_counterexample:
  "main_process (\<lambda>p. None) (main_state None)
     (JObj [(''version'', JStr ''2''),
            (''pipelines'', JArr [JObj [(''name'', JStr ''build''), (mpp_key, JObj [])]])])
   = Inr (0, Some (JObj [(''version'', JStr ''2''),
            (''pipelines'', JArr [JObj [(''name'', JStr ''build''), (mpp_key, JObj [])]])])) \<and>
   main_process
     (\<lambda>p. if p = ''./imp.json''
          then Some (JObj [(''pipeline'', JObj [(''stages'', JArr [])]),
                           (''sources'', JObj [(files_key, JObj [(''urls'', JObj [])])])])
          else None)
     (main_state None)
     (JObj [(mpp_key, JObj [(''path'', JStr ''imp.json'')]),
            (''pipeline'', JObj [(''build'', JObj [(mpp_key, JObj [(''id'', JStr ''stage1'')])])])])
   = Inr (0, Some (JObj [(''pipeline'', JObj [(''stages'', JArr [])]),
                         (''sources'', JObj [(files_key, JObj [(''urls'', JObj [])])])]))"
  by (simp add: run_defs)

end
